(* ===== verification/Prelude.thy ===== *)
theory Prelude
  imports Main "HOL-Library.Sublist"
begin

text \<open>
  Shared vocabulary of the development: Python's exceptions as values, programs that read and
  change a state, may raise and may fail to return, the control structures of the sources
  (sequencing, \<open>for\<close>, \<open>while\<close>, \<open>try\<close>), dictionaries as association lists in
  insertion order, and the printing of numbers and lists of numbers.
  A weakest-precondition calculus (\<open>wp\<close>, \<open>keeps\<close>) carries the invariant proofs of the
  components.
\<close>

named_theorems run_simps \<open>running a program on a given state\<close>
named_theorems keeps_intro \<open>rules that show that a program keeps an invariant\<close>

section \<open>Exceptions\<close>

datatype exc =
    AttributeError | ValueError | TypeError | IndexError | KeyError | AssertionError
  | ZeroDivisionError | StructError | UnicodeDecodeError | ConnectionAborted | OSError | StopIteration
  | SystemExit | KeyboardInterrupt | FileNotFoundError | LookupError | RuntimeError
  | RequiredArgumentError | ExecutableNotFound | CalledProcessError int

text \<open>\<open>except Exception\<close> does not catch \<open>SystemExit\<close> and \<open>KeyboardInterrupt\<close>; a bare
  \<open>except\<close> does.\<close>

definition is_Exception :: "exc \<Rightarrow> bool" where
  "is_Exception e = (e \<notin> {SystemExit, KeyboardInterrupt})"

section \<open>Programs\<close>

text \<open>
  A program takes a state and either does not return (\<open>None\<close>), or leaves a new state
  together with a raised exception (\<open>Inl\<close>) or a value (\<open>Inr\<close>). A raise keeps the changes made
  before it, as in Python.
\<close>

type_synonym ('s, 'a) prog = "'s \<Rightarrow> ((exc + 'a) \<times> 's) option"

definition retM :: "'a \<Rightarrow> ('s, 'a) prog" where
  "retM x s = Some (Inr x, s)"

definition raiseM :: "exc \<Rightarrow> ('s, 'a) prog" where
  "raiseM e s = Some (Inl e, s)"

definition getM :: "('s \<Rightarrow> 'a) \<Rightarrow> ('s, 'a) prog" where
  "getM f s = Some (Inr (f s), s)"

definition modM :: "('s \<Rightarrow> 's) \<Rightarrow> ('s, unit) prog" where
  "modM f s = Some (Inr (), f s)"

definition bindM :: "('s, 'a) prog \<Rightarrow> ('a \<Rightarrow> ('s, 'b) prog) \<Rightarrow> ('s, 'b) prog" where
  "bindM m k s = (case m s of None \<Rightarrow> None
     | Some (Inl e, s') \<Rightarrow> Some (Inl e, s')
     | Some (Inr x, s') \<Rightarrow> k x s')"

definition seqM :: "('s, 'a) prog \<Rightarrow> ('s, 'b) prog \<Rightarrow> ('s, 'b) prog" where
  "seqM m k = bindM m (\<lambda>_. k)"

text \<open>\<open>whenM b m\<close> is an \<open>if\<close> without \<open>else\<close>; \<open>tryM p m h\<close> runs \<open>h\<close> on a raise that \<open>p\<close> catches.\<close>

definition whenM :: "bool \<Rightarrow> ('s, unit) prog \<Rightarrow> ('s, unit) prog" where
  "whenM b m = (if b then m else retM ())"

definition tryM :: "(exc \<Rightarrow> bool) \<Rightarrow> ('s, 'a) prog \<Rightarrow> (exc \<Rightarrow> ('s, 'a) prog) \<Rightarrow> ('s, 'a) prog" where
  "tryM p m h s = (case m s of None \<Rightarrow> None
     | Some (Inl e, s') \<Rightarrow> (if p e then h e s' else Some (Inl e, s'))
     | Some (Inr x, s') \<Rightarrow> Some (Inr x, s'))"

definition any_exc :: "exc \<Rightarrow> bool" where
  "any_exc e = True"

text \<open>A reader that may raise or not return, on the current state.\<close>

definition readM :: "('s \<Rightarrow> (exc + 'a) option) \<Rightarrow> ('s, 'a) prog" where
  "readM f s = (case f s of None \<Rightarrow> None | Some r \<Rightarrow> Some (r, s))"

text \<open>Unwrapping a value that Python would find to be \<open>None\<close>.\<close>

definition someM :: "exc \<Rightarrow> 'a option \<Rightarrow> ('s, 'a) prog" where
  "someM e x = (case x of None \<Rightarrow> raiseM e | Some v \<Rightarrow> retM v)"

definition assertM :: "bool \<Rightarrow> ('s, unit) prog" where
  "assertM b = (if b then retM () else raiseM AssertionError)"

text \<open>\<open>for\<close> over a list that is fixed when the loop starts, with the loop's local variables.\<close>

primrec foldM :: "('x \<Rightarrow> 'l \<Rightarrow> ('s, 'l) prog) \<Rightarrow> 'x list \<Rightarrow> 'l \<Rightarrow> ('s, 'l) prog" where
  "foldM f [] l = retM l"
| "foldM f (x # xs) l = bindM (f x l) (\<lambda>l'. foldM f xs l')"

primrec forM :: "('x \<Rightarrow> ('s, unit) prog) \<Rightarrow> 'x list \<Rightarrow> ('s, unit) prog" where
  "forM f [] = retM ()"
| "forM f (x # xs) = seqM (f x) (forM f xs)"

text \<open>A test for every element, and the elements that pass it, where the test reads the state.\<close>

primrec filterM :: "('x \<Rightarrow> ('s, bool) prog) \<Rightarrow> 'x list \<Rightarrow> ('s, 'x list) prog" where
  "filterM p [] = retM []"
| "filterM p (x # xs) =
     bindM (p x) (\<lambda>b. bindM (filterM p xs) (\<lambda>ys. retM (if b then x # ys else ys)))"

text \<open>\<open>for\<close> with an early exit: the body says whether to leave the loop.\<close>

primrec firstM :: "('x \<Rightarrow> ('s, bool) prog) \<Rightarrow> 'x list \<Rightarrow> ('s, bool) prog" where
  "firstM f [] = retM False"
| "firstM f (x # xs) = bindM (f x) (\<lambda>b. if b then retM True else firstM f xs)"

text \<open>The values of a reader on every element.\<close>

primrec mapM :: "('x \<Rightarrow> ('s, 'y) prog) \<Rightarrow> 'x list \<Rightarrow> ('s, 'y list) prog" where
  "mapM f [] = retM []"
| "mapM f (x # xs) = bindM (f x) (\<lambda>y. bindM (mapM f xs) (\<lambda>ys. retM (y # ys)))"

text \<open>\<open>while\<close> with local variables; \<open>None\<close> is a loop that runs forever.\<close>

partial_function (option) whileM ::
    "('l \<Rightarrow> bool) \<Rightarrow> ('l \<Rightarrow> ('s, 'l) prog) \<Rightarrow> 'l \<Rightarrow> 's \<Rightarrow> ((exc + 'l) \<times> 's) option" where
  "whileM b c l s =
     (if b l
      then Option.bind (c l s) (\<lambda>(r, s'). case r of Inl e \<Rightarrow> Some (Inl e, s') | Inr l' \<Rightarrow> whileM b c l' s')
      else Some (Inr l, s))"

subsection \<open>Evaluation\<close>

declare whileM.simps [code]

lemma retM_apply [run_simps]: "retM x s = Some (Inr x, s)"
  by (simp add: retM_def)

lemma raiseM_apply [run_simps]: "raiseM e s = Some (Inl e, s)"
  by (simp add: raiseM_def)

lemma getM_apply [run_simps]: "getM f s = Some (Inr (f s), s)"
  by (simp add: getM_def)

lemma modM_apply [run_simps]: "modM f s = Some (Inr (), f s)"
  by (simp add: modM_def)

lemma bindM_step [run_simps]:
  "m s = Some (Inr x, s') \<Longrightarrow> bindM m k s = k x s'"
  "m s = Some (Inl e, s') \<Longrightarrow> bindM m k s = Some (Inl e, s')"
  "m s = None \<Longrightarrow> bindM m k s = None"
  by (simp_all add: bindM_def)

lemma seqM_step [run_simps]:
  "m s = Some (Inr x, s') \<Longrightarrow> seqM m k s = k s'"
  "m s = Some (Inl e, s') \<Longrightarrow> seqM m k s = Some (Inl e, s')"
  "m s = None \<Longrightarrow> seqM m k s = None"
  by (simp_all add: seqM_def run_simps)

lemma whenM_simps [run_simps]: "whenM True m = m" "whenM False m = retM ()"
  by (simp_all add: whenM_def)

lemma tryM_step [run_simps]:
  "m s = Some (Inr x, s') \<Longrightarrow> tryM p m h s = Some (Inr x, s')"
  "m s = Some (Inl e, s') \<Longrightarrow> p e \<Longrightarrow> tryM p m h s = h e s'"
  "m s = Some (Inl e, s') \<Longrightarrow> \<not> p e \<Longrightarrow> tryM p m h s = Some (Inl e, s')"
  "m s = None \<Longrightarrow> tryM p m h s = None"
  by (simp_all add: tryM_def)

lemma any_exc_True [run_simps]: "any_exc e"
  by (simp add: any_exc_def)

lemma readM_step [run_simps]:
  "f s = Some r \<Longrightarrow> readM f s = Some (r, s)"
  "f s = None \<Longrightarrow> readM f s = None"
  by (simp_all add: readM_def)

lemma someM_simps [run_simps]: "someM e None = raiseM e" "someM e (Some v) = retM v"
  by (simp_all add: someM_def)

lemma assertM_simps [run_simps]: "assertM True = retM ()" "assertM False = raiseM AssertionError"
  by (simp_all add: assertM_def)

lemma bindM_Some_cases:
  assumes "bindM m k s = Some (r, t)"
  obtains (exn) e where "m s = Some (Inl e, t)" "r = Inl e"
    | (val) x s' where "m s = Some (Inr x, s')" "k x s' = Some (r, t)"
  using assms by (auto simp: bindM_def split: option.splits sum.splits)

lemma whileM_stop: "\<not> b l \<Longrightarrow> whileM b c l s = Some (Inr l, s)"
  by (subst whileM.simps) simp

lemma whileM_next: "b l \<Longrightarrow> c l s = Some (Inr l', s') \<Longrightarrow> whileM b c l s = whileM b c l' s'"
  by (subst whileM.simps) simp

lemma whileM_raise: "b l \<Longrightarrow> c l s = Some (Inl e, s') \<Longrightarrow> whileM b c l s = Some (Inl e, s')"
  by (subst whileM.simps) simp

text \<open>
  A loop whose guard stays true and whose body never raises runs forever: the invariant \<open>J\<close> says
  in which states the body finds itself again.
\<close>

lemma whileM_diverges:
  assumes step: "\<And>l s. J l s \<Longrightarrow> b l \<and> (\<exists>l' s'. c l s = Some (Inr l', s') \<and> J l' s')"
    and start: "J l s"
  shows "whileM b c l s = None"
proof (rule ccontr)
  assume "whileM b c l s \<noteq> None"
  then obtain y where ret: "whileM b c l s = Some y" by auto
  have "b = b \<longrightarrow> c = c \<longrightarrow> J l s \<longrightarrow> False"
  proof (rule whileM.raw_induct [where P = "\<lambda>b' c' l' s' y. b' = b \<longrightarrow> c' = c \<longrightarrow> J l' s' \<longrightarrow> False", OF _ ret])
    fix f b' c' l' s' y'
    assume IH: "\<And>b' c' l' s' y. f b' c' l' s' = Some y \<Longrightarrow> b' = b \<longrightarrow> c' = c \<longrightarrow> J l' s' \<longrightarrow> False"
      and eq: "(if b' l' then Option.bind (c' l' s') (\<lambda>(r, s'). case r of Inl e \<Rightarrow> Some (Inl e, s')
            | Inr l' \<Rightarrow> f b' c' l' s') else Some (Inr l', s')) = Some y'"
    show "b' = b \<longrightarrow> c' = c \<longrightarrow> J l' s' \<longrightarrow> False"
    proof (intro impI)
      assume "b' = b" "c' = c" "J l' s'"
      with step [of l' s'] eq obtain l2 s2 where "f b c l2 s2 = Some y'" "J l2 s2" by auto
      then show False using IH by blast
    qed
  qed
  with start show False by simp
qed

subsection \<open>Regrouping\<close>

text \<open>What follows a program moves to its ends.\<close>

named_theorems regroup \<open>associativity and distribution of sequencing\<close>

lemma bindM_assoc [regroup]: "bindM (bindM m k) l = bindM m (\<lambda>x. bindM (k x) l)"
  by (auto simp: bindM_def fun_eq_iff split: option.splits sum.splits)

lemma bindM_seqM [regroup]: "bindM (seqM m k) l = seqM m (bindM k l)"
  by (simp add: seqM_def bindM_assoc)

lemma seqM_regroup [regroup]: "seqM (seqM m k) l = seqM m (seqM k l)" "seqM (bindM m k') l = bindM m (\<lambda>x. seqM (k' x) l)"
  by (simp_all add: seqM_def bindM_assoc)

lemma bindM_ends [regroup]: "bindM (retM x) k = k x" "bindM (raiseM e) k = raiseM e"
  by (simp_all add: bindM_def retM_def raiseM_def fun_eq_iff)

lemma bindM_branch [regroup]:
  "bindM (if b then m else n) k = (if b then bindM m k else bindM n k)"
  "bindM (case x of None \<Rightarrow> m1 | Some v \<Rightarrow> m2 v) k = (case x of None \<Rightarrow> bindM m1 k | Some v \<Rightarrow> bindM (m2 v) k)"
  "bindM (case y of [] \<Rightarrow> m3 | v # vs \<Rightarrow> m4 v vs) k = (case y of [] \<Rightarrow> bindM m3 k | v # vs \<Rightarrow> bindM (m4 v vs) k)"
  "bindM (case z of (a, b) \<Rightarrow> m5 a b) k = (case z of (a, b) \<Rightarrow> bindM (m5 a b) k)"
  by (simp_all split: option.split list.split prod.split)

lemma mapM_all2:
  assumes "\<And>x s y t. f x s = Some (Inr y, t) \<Longrightarrow> R x y"
  shows "mapM f xs s = Some (Inr ys, t) \<Longrightarrow> list_all2 R xs ys"
proof (induction xs arbitrary: s ys t)
  case (Cons x xs)
  from Cons.prems obtain y s1 ys' t' where "f x s = Some (Inr y, s1)" "mapM f xs s1 = Some (Inr ys', t')" "ys = y # ys'"
    by (auto simp: retM_def elim!: bindM_Some_cases)
  with assms Cons.IH show ?case by simp
qed (simp add: run_simps)

lemma filterM_subset: "filterM p xs s = Some (Inr ys, t) \<Longrightarrow> set ys \<subseteq> set xs"
proof (induction xs arbitrary: s ys t)
  case (Cons x xs)
  from Cons.prems obtain b s1 ys' t' where "filterM p xs s1 = Some (Inr ys', t')" "ys = (if b then x # ys' else ys')"
    by (auto simp: retM_def elim!: bindM_Some_cases)
  with Cons.IH show ?case by auto
qed (simp add: run_simps)

section \<open>Weakest preconditions\<close>

text \<open>
  \<open>wp d m Q E s\<close>: run from \<open>s\<close>, \<open>m\<close> ends in \<open>Q\<close> when it returns and in \<open>E\<close> when it
  raises. \<open>d\<close> says whether \<open>m\<close> may fail to return: \<open>wp True\<close> is partial and \<open>wp False\<close> total
  correctness.
\<close>

definition wp :: "bool \<Rightarrow> ('s, 'a) prog \<Rightarrow> ('a \<Rightarrow> 's \<Rightarrow> bool) \<Rightarrow> (exc \<Rightarrow> 's \<Rightarrow> bool) \<Rightarrow> 's \<Rightarrow> bool" where
  "wp d m Q E s = (case m s of None \<Rightarrow> d | Some (Inl e, t) \<Rightarrow> E e t | Some (Inr x, t) \<Rightarrow> Q x t)"

named_theorems wp_simps \<open>weakest preconditions of the program constructs\<close>

lemma wp_retM [wp_simps]: "wp d (retM x) Q E = Q x"
  by (simp add: wp_def run_simps fun_eq_iff)

lemma wp_raiseM [wp_simps]: "wp d (raiseM e) Q E = E e"
  by (simp add: wp_def run_simps fun_eq_iff)

lemma wp_getM [wp_simps]: "wp d (getM f) Q E = (\<lambda>s. Q (f s) s)"
  by (simp add: wp_def run_simps fun_eq_iff)

lemma wp_modM [wp_simps]: "wp d (modM f) Q E = (\<lambda>s. Q () (f s))"
  by (simp add: wp_def run_simps fun_eq_iff)

lemma wp_bindM [wp_simps]: "wp d (bindM m k) Q E = wp d m (\<lambda>x. wp d (k x) Q E) E"
  by (auto simp: wp_def bindM_def fun_eq_iff split: option.splits sum.splits)

lemma wp_seqM [wp_simps]: "wp d (seqM m k) Q E = wp d m (\<lambda>_. wp d k Q E) E"
  by (simp add: seqM_def wp_bindM)

lemma wp_whenM [wp_simps]: "wp d (whenM b m) Q E = (\<lambda>s. if b then wp d m Q E s else Q () s)"
  by (simp add: whenM_def wp_retM)

lemma wp_if [wp_simps]:
  "wp d (if b then m else n) Q E = (\<lambda>s. if b then wp d m Q E s else wp d n Q E s)"
  by simp

lemma wp_tryM [wp_simps]:
  "wp d (tryM p m h) Q E = wp d m Q (\<lambda>e t. if p e then wp d (h e) Q E t else E e t)"
  by (auto simp: wp_def tryM_def fun_eq_iff split: option.splits sum.splits)

lemma wp_readM [wp_simps]:
  "wp d (readM f) Q E = (\<lambda>s. case f s of None \<Rightarrow> d | Some r \<Rightarrow> (case r of Inl e \<Rightarrow> E e s | Inr x \<Rightarrow> Q x s))"
  by (auto simp: wp_def readM_def fun_eq_iff split: option.splits sum.splits)

lemma wp_someM [wp_simps]:
  "wp d (someM e x) Q E = (\<lambda>s. case x of None \<Rightarrow> E e s | Some v \<Rightarrow> Q v s)"
  by (simp add: wp_def someM_def run_simps fun_eq_iff split: option.splits)

lemma wp_assertM [wp_simps]: "wp d (assertM b) Q E = (\<lambda>s. if b then Q () s else E AssertionError s)"
  by (simp add: wp_def assertM_def run_simps fun_eq_iff)

lemma wp_case_option [wp_simps]:
  "wp d (case x of None \<Rightarrow> m | Some v \<Rightarrow> k v) Q E = (\<lambda>s. case x of None \<Rightarrow> wp d m Q E s | Some v \<Rightarrow> wp d (k v) Q E s)"
  by (simp split: option.splits)

lemma wp_case_sum [wp_simps]:
  "wp d (case x of Inl e \<Rightarrow> m e | Inr v \<Rightarrow> k v) Q E = (\<lambda>s. case x of Inl e \<Rightarrow> wp d (m e) Q E s | Inr v \<Rightarrow> wp d (k v) Q E s)"
  by (simp split: sum.splits)

lemma wp_run:
  "m s = Some (Inr x, t) \<Longrightarrow> wp d m Q E s = Q x t"
  "m s = Some (Inl e, t) \<Longrightarrow> wp d m Q E s = E e t"
  by (simp_all add: wp_def)

lemma wp_total:
  assumes "wp False m Q (\<lambda>_ _. False) s"
  obtains x t where "m s = Some (Inr x, t)" and "Q x t"
proof (cases "m s")
  case (Some rt)
  with assms that show ?thesis by (cases rt; cases "fst rt") (auto simp: wp_def)
qed (use assms in \<open>simp add: wp_def\<close>)

lemma wp_mono:
  "wp d m Q E s \<Longrightarrow> (\<And>x t. Q x t \<Longrightarrow> Q' x t) \<Longrightarrow> (\<And>e t. E e t \<Longrightarrow> E' e t) \<Longrightarrow> (d \<Longrightarrow> d') \<Longrightarrow> wp d' m Q' E' s"
  by (auto simp: wp_def split: option.splits sum.splits)

lemma wp_conj:
  "wp d m Q E s \<Longrightarrow> wp d' m Q' E' s \<Longrightarrow> wp (d \<and> d') m (\<lambda>x t. Q x t \<and> Q' x t) (\<lambda>e t. E e t \<and> E' e t) s"
  by (auto simp: wp_def split: option.splits sum.splits)

lemma wp_foldM:
  assumes "\<And>x xs l s. J (x # xs) l s \<Longrightarrow> wp d (f x l) (J xs) E s"
    and "J xs l s" and "\<And>l s. J [] l s \<Longrightarrow> Q l s"
  shows "wp d (foldM f xs l) Q E s"
  using assms(2)
proof (induction xs arbitrary: l s)
  case Nil
  then show ?case using assms(3) by (simp add: wp_simps)
next
  case (Cons x xs)
  from assms(1) [OF Cons.prems] show ?case
    by (simp add: wp_simps) (rule wp_mono, assumption, erule Cons.IH, simp_all)
qed

lemma wp_forM:
  assumes "\<And>x xs s. J (x # xs) s \<Longrightarrow> wp d (f x) (\<lambda>_. J xs) E s"
    and "J xs s" and "\<And>s. J [] s \<Longrightarrow> Q () s"
  shows "wp d (forM f xs) Q E s"
  using assms(2)
proof (induction xs arbitrary: s)
  case Nil
  then show ?case using assms(3) by (simp add: wp_simps)
next
  case (Cons x xs)
  from assms(1) [OF Cons.prems] show ?case
    by (simp add: wp_simps) (rule wp_mono, assumption, erule Cons.IH, simp_all)
qed

lemma wp_filterM:
  assumes "\<And>x s. J s \<Longrightarrow> wp d (p x) (\<lambda>_. J) E s" and "J s"
  shows "wp d (filterM p xs) (\<lambda>ys t. set ys \<subseteq> set xs \<and> J t) E s"
  using assms(2)
proof (induction xs arbitrary: s)
  case Nil
  then show ?case by (simp add: wp_simps)
next
  case (Cons x xs)
  have "wp d (filterM p xs) (\<lambda>ys t. set (if b then x # ys else ys) \<subseteq> set (x # xs) \<and> J t) E t"
    if "J t" for t b
    by (rule wp_mono [OF Cons.IH [OF that]]) auto
  with assms(1) [OF Cons.prems, of x] show ?case
    by (auto simp: wp_simps elim!: wp_mono)
qed

lemma wp_whileM:
  assumes step: "\<And>l s. J l s \<Longrightarrow> b l \<Longrightarrow> wp True (c l) J E s"
    and start: "J l s" and fin: "\<And>l s. J l s \<Longrightarrow> \<not> b l \<Longrightarrow> Q l s"
  shows "wp True (whileM b c l) Q E s"
proof (cases "whileM b c l s")
  case None
  then show ?thesis by (simp add: wp_def)
next
  case (Some y)
  let ?post = "\<lambda>y. case y of (Inl e, t) \<Rightarrow> E e t | (Inr l', t) \<Rightarrow> Q l' t"
  have "b = b \<longrightarrow> c = c \<longrightarrow> J l s \<longrightarrow> ?post y"
  proof (rule whileM.raw_induct
      [where P = "\<lambda>b' c' l' s' y. b' = b \<longrightarrow> c' = c \<longrightarrow> J l' s' \<longrightarrow> ?post y", OF _ Some])
    fix f b' c' l' s' y'
    assume IH: "\<And>b' c' l' s' y. f b' c' l' s' = Some y \<Longrightarrow> b' = b \<longrightarrow> c' = c \<longrightarrow> J l' s' \<longrightarrow> ?post y"
      and eq: "(if b' l' then Option.bind (c' l' s') (\<lambda>(r, s'). case r of Inl e \<Rightarrow> Some (Inl e, s')
            | Inr l' \<Rightarrow> f b' c' l' s') else Some (Inr l', s')) = Some y'"
    show "b' = b \<longrightarrow> c' = c \<longrightarrow> J l' s' \<longrightarrow> ?post y'"
    proof (intro impI)
      assume same: "b' = b" "c' = c" and J: "J l' s'"
      show "?post y'"
      proof (cases "b l'")
        case False
        with eq same fin [OF J] show ?thesis by auto
      next
        case True
        with eq same obtain r t where run: "c l' s' = Some (r, t)"
          and rest: "(case r of Inl e \<Rightarrow> Some (Inl e, t) | Inr l2 \<Rightarrow> f b c l2 t) = Some y'"
          by (cases "c l' s'") auto
        show ?thesis
        proof (cases r)
          case (Inl e)
          with run rest step [OF J True] show ?thesis by (auto simp: wp_def)
        next
          case (Inr l2)
          with run step [OF J True] have "J l2 t" by (simp add: wp_def)
          with IH [of b c l2 t y'] rest Inr show ?thesis by simp
        qed
      qed
    qed
  qed
  with start Some show ?thesis by (auto simp: wp_def split: sum.splits)
qed

text \<open>Total correctness of a loop: a measure on locals and state that the body decreases.\<close>

lemma wp_whileM_total:
  fixes meas :: "'l \<Rightarrow> 's \<Rightarrow> nat"
  assumes step: "\<And>l s. J l s \<Longrightarrow> b l \<Longrightarrow> wp False (c l) (\<lambda>l' s'. J l' s' \<and> meas l' s' < meas l s) E s"
    and start: "J l s" and fin: "\<And>l s. J l s \<Longrightarrow> \<not> b l \<Longrightarrow> Q l s"
  shows "wp False (whileM b c l) Q E s"
  using start
proof (induction "meas l s" arbitrary: l s rule: less_induct)
  case less
  show ?case
  proof (cases "b l")
    case False
    with fin [OF less.prems] show ?thesis by (simp add: wp_def whileM_stop)
  next
    case True
    from step [OF less.prems True] obtain r t where run: "c l s = Some (r, t)"
      and post: "case r of Inl e \<Rightarrow> E e t | Inr l' \<Rightarrow> J l' t \<and> meas l' t < meas l s"
      by (auto simp: wp_def split: option.splits sum.splits)
    show ?thesis
    proof (cases r)
      case (Inl e)
      with run post True show ?thesis by (simp add: wp_def whileM_raise)
    next
      case (Inr l')
      with run post True less.hyps [of l' t] show ?thesis by (simp add: wp_def whileM_next)
    qed
  qed
qed

section \<open>Invariants\<close>

text \<open>
  \<open>upholds d I m\<close>: whatever \<open>m\<close> does, a raise included, it leaves the invariant \<open>I\<close> true; with
  \<open>d = False\<close> it also returns. The two cases are called \<open>keeps\<close> and \<open>returns\<close>.
\<close>

definition upholds :: "bool \<Rightarrow> ('s \<Rightarrow> bool) \<Rightarrow> ('s, 'a) prog \<Rightarrow> bool" where
  "upholds d I m = (\<forall>s. I s \<longrightarrow> wp d m (\<lambda>_. I) (\<lambda>_. I) s)"

abbreviation "keeps \<equiv> upholds True"
abbreviation "returns \<equiv> upholds False"

lemma upholdsI: "(\<And>s. I s \<Longrightarrow> wp d m (\<lambda>_. I) (\<lambda>_. I) s) \<Longrightarrow> upholds d I m"
  by (simp add: upholds_def)

lemma upholdsD: "upholds d I m \<Longrightarrow> I s \<Longrightarrow> wp d m (\<lambda>_. I) (\<lambda>_. I) s"
  by (simp add: upholds_def)

lemma keeps_run: "upholds d I m \<Longrightarrow> I s \<Longrightarrow> m s = Some (r, t) \<Longrightarrow> I t"
  using upholdsD [of d I m s] by (cases r) (auto simp: wp_def)

lemma returns_run: "returns I m \<Longrightarrow> I s \<Longrightarrow> \<exists>r t. m s = Some (r, t) \<and> I t"
  using upholdsD [of False I m s] by (auto simp: wp_def split: option.splits sum.splits)

lemma returns_keeps: "returns I m \<Longrightarrow> upholds d I m"
  by (auto simp: upholds_def elim!: wp_mono)

lemma upholds_simple [keeps_intro]:
  "upholds d I (retM x)" "upholds d I (raiseM e)" "upholds d I (getM f)"
  "upholds d I (someM e y)" "upholds d I (assertM b)"
  by (auto simp: upholds_def wp_simps split: option.splits sum.splits)

lemma upholds_readM: "(\<And>s. I s \<Longrightarrow> d \<or> f s \<noteq> None) \<Longrightarrow> upholds d I (readM f)"
  by (fastforce simp: upholds_def wp_simps split: option.splits sum.splits)

lemma upholds_modM: "(\<And>s. I s \<Longrightarrow> I (f s)) \<Longrightarrow> upholds d I (modM f)"
  by (simp add: upholds_def wp_simps)

text \<open>What is known of the value that was read is known in the rest of the program, as long as the
  rest keeps it together with the invariant.\<close>

lemma upholds_learn:
  assumes "upholds d I m" and "\<And>s x t. I s \<Longrightarrow> m s = Some (Inr x, t) \<Longrightarrow> I t \<Longrightarrow> F x t"
    and "\<And>x. upholds d (\<lambda>s. I s \<and> F x s) (k x)"
  shows "upholds d I (bindM m k)"
proof (rule upholdsI)
  fix s assume s: "I s"
  from upholdsD [OF assms(1) s] have "wp d m (\<lambda>x t. I t \<and> F x t) (\<lambda>_. I) s"
    using assms(2) [OF s] by (auto simp: wp_def split: option.splits sum.splits)
  moreover have "wp d (k x) (\<lambda>_. I) (\<lambda>_. I) t" if "I t \<and> F x t" for x t
    using upholdsD [OF assms(3) that] by (rule wp_mono) auto
  ultimately show "wp d (bindM m k) (\<lambda>_. I) (\<lambda>_. I) s"
    by (auto simp: wp_bindM elim: wp_mono)
qed

lemma upholds_bindM [keeps_intro]: "upholds d I m \<Longrightarrow> (\<And>x. upholds d I (k x)) \<Longrightarrow> upholds d I (bindM m k)"
  by (rule upholds_learn [where F = "\<lambda>_ _. True"]) simp_all

text \<open>A fact about the value alone.\<close>

lemma upholds_value:
  assumes "upholds d I m" and "\<And>s x t. m s = Some (Inr x, t) \<Longrightarrow> P x" and "\<And>x. P x \<Longrightarrow> upholds d I (k x)"
  shows "upholds d I (bindM m k)"
proof (rule upholds_learn [where F = "\<lambda>x _. P x"])
  show "upholds d (\<lambda>s. I s \<and> P x) (k x)" for x
    using assms(3) [of x] by (cases "P x") (simp_all add: upholds_def)
qed (use assms in auto)

lemma upholds_seqM [keeps_intro]: "upholds d I m \<Longrightarrow> upholds d I k \<Longrightarrow> upholds d I (seqM m k)"
  by (simp add: seqM_def upholds_bindM)

lemma upholds_whenM [keeps_intro]: "(b \<Longrightarrow> upholds d I m) \<Longrightarrow> upholds d I (whenM b m)"
  by (simp add: whenM_def upholds_simple)

lemma upholds_if [keeps_intro]:
  "(b \<Longrightarrow> upholds d I m) \<Longrightarrow> (\<not> b \<Longrightarrow> upholds d I n) \<Longrightarrow> upholds d I (if b then m else n)"
  by simp

lemma upholds_tryM [keeps_intro]:
  "upholds d I m \<Longrightarrow> (\<And>e. upholds d I (h e)) \<Longrightarrow> upholds d I (tryM p m h)"
  by (auto simp: upholds_def wp_simps elim!: wp_mono)

lemma upholds_case_option [keeps_intro]:
  "(x = None \<Longrightarrow> upholds d I m) \<Longrightarrow> (\<And>v. x = Some v \<Longrightarrow> upholds d I (k v)) \<Longrightarrow>
   upholds d I (case x of None \<Rightarrow> m | Some v \<Rightarrow> k v)"
  by (simp split: option.splits)

lemma upholds_case_list [keeps_intro]:
  "(x = [] \<Longrightarrow> upholds d I m) \<Longrightarrow> (\<And>v vs. x = v # vs \<Longrightarrow> upholds d I (k v vs)) \<Longrightarrow>
   upholds d I (case x of [] \<Rightarrow> m | v # vs \<Rightarrow> k v vs)"
  by (simp split: list.splits)

lemma upholds_case_sum [keeps_intro]:
  "(\<And>e. x = Inl e \<Longrightarrow> upholds d I (m e)) \<Longrightarrow> (\<And>v. x = Inr v \<Longrightarrow> upholds d I (k v)) \<Longrightarrow>
   upholds d I (case x of Inl e \<Rightarrow> m e | Inr v \<Rightarrow> k v)"
  by (simp split: sum.splits)

lemma upholds_case_prod [keeps_intro]:
  "(\<And>a b. x = (a, b) \<Longrightarrow> upholds d I (k a b)) \<Longrightarrow> upholds d I (case x of (a, b) \<Rightarrow> k a b)"
  by (simp split: prod.splits)

lemma upholds_let [keeps_intro]: "upholds d I (k v) \<Longrightarrow> upholds d I (let x = v in k x)"
  by simp

lemma upholds_forM [keeps_intro]: "(\<And>x. x \<in> set xs \<Longrightarrow> upholds d I (f x)) \<Longrightarrow> upholds d I (forM f xs)"
  by (induction xs) (auto intro: keeps_intro)

lemma upholds_foldM [keeps_intro]:
  "(\<And>x l. x \<in> set xs \<Longrightarrow> upholds d I (f x l)) \<Longrightarrow> upholds d I (foldM f xs l)"
  by (induction xs arbitrary: l) (auto intro: keeps_intro)

lemma upholds_filterM [keeps_intro]: "(\<And>x. x \<in> set xs \<Longrightarrow> upholds d I (p x)) \<Longrightarrow> upholds d I (filterM p xs)"
  by (induction xs) (auto intro!: keeps_intro)

lemma learn_filterM:
  "(\<And>x. x \<in> set xs \<Longrightarrow> upholds d I (p x)) \<Longrightarrow> (\<And>ys. set ys \<subseteq> set xs \<Longrightarrow> upholds d I (k ys)) \<Longrightarrow>
   upholds d I (bindM (filterM p xs) k)"
  by (rule upholds_value [OF upholds_filterM filterM_subset])

lemma upholds_firstM [keeps_intro]: "(\<And>x. x \<in> set xs \<Longrightarrow> upholds d I (f x)) \<Longrightarrow> upholds d I (firstM f xs)"
  by (induction xs) (auto intro!: keeps_intro)

lemma upholds_mapM [keeps_intro]: "(\<And>x. x \<in> set xs \<Longrightarrow> upholds d I (f x)) \<Longrightarrow> upholds d I (mapM f xs)"
  by (induction xs) (auto intro!: keeps_intro)

lemma keeps_whileM [keeps_intro]: "(\<And>l. keeps I (c l)) \<Longrightarrow> keeps I (whileM b c l)"
  by (auto simp: upholds_def intro!: wp_whileM [where J = "\<lambda>_. I"])

end
