(* ===== verification/PyText.thy ===== *)
theory PyText
  imports Prelude Complex_Main
begin

text \<open>
  The Python built-ins on text, numbers, lists and dictionaries that the sources use: \<open>str\<close> of
  integers and of lists of integers, \<open>join\<close>, \<open>split\<close>, indexing, \<open>list.index\<close>, \<open>round\<close>
  (half to even) and dictionaries in insertion order. A \<open>str\<close> is its UTF-8 text, a list of
  characters of 8 bits.
\<close>

section \<open>Printing\<close>

definition digit :: "nat \<Rightarrow> char" where
  "digit d = ''0123456789'' ! d"

fun show_nat :: "nat \<Rightarrow> string" where
  "show_nat n = (if n < 10 then [digit n] else show_nat (n div 10) @ [digit (n mod 10)])"

declare show_nat.simps [simp del]

definition show_int :: "int \<Rightarrow> string" where
  "show_int i = (if i < 0 then ''-'' @ show_nat (nat (- i)) else show_nat (nat i))"

fun join :: "string \<Rightarrow> string list \<Rightarrow> string" where
  "join sep [] = []"
| "join sep [x] = x"
| "join sep (x # y # zs) = x @ sep @ join sep (y # zs)"

definition show_path :: "nat list \<Rightarrow> string" where
  "show_path p = ''['' @ join '', '' (map show_nat p) @ '']''"

text \<open>Reading digits back, to see that printing loses nothing.\<close>

definition read_nat :: "string \<Rightarrow> nat" where
  "read_nat = foldl (\<lambda>a c. 10 * a + (of_char c - 48)) 0"

lemma of_char_digit [simp]: "d < 10 \<Longrightarrow> of_char (digit d) = 48 + d"
proof -
  assume "d < 10"
  then have "d = 0 \<or> d = 1 \<or> d = 2 \<or> d = 3 \<or> d = 4 \<or> d = 5 \<or> d = 6 \<or> d = 7 \<or> d = 8 \<or> d = 9" by arith
  then show ?thesis by (auto simp: digit_def)
qed

lemma read_show_nat [simp]: "read_nat (show_nat n) = n"
proof (induction n rule: show_nat.induct)
  case (1 n)
  show ?case
  proof (cases "n < 10")
    case True
    then show ?thesis by (subst show_nat.simps) (simp add: read_nat_def)
  next
    case False
    with "1" have "read_nat (show_nat (n div 10)) = n div 10" by simp
    with False show ?thesis by (subst show_nat.simps) (simp add: read_nat_def)
  qed
qed

lemma show_nat_inject [simp]: "show_nat m = show_nat n \<longleftrightarrow> m = n"
  using read_show_nat by metis

lemma show_nat_digits: "c \<in> set (show_nat n) \<Longrightarrow> 48 \<le> (of_char c :: nat) \<and> (of_char c :: nat) < 58"
proof (induction n rule: show_nat.induct)
  case (1 n)
  then show ?case by (subst (asm) (2) show_nat.simps) (auto split: if_splits)
qed

lemma show_nat_no_comma: "CHR '','' \<notin> set (show_nat n)"
  using show_nat_digits [of "CHR '',''" n] by auto

lemma show_nat_nonempty: "show_nat n \<noteq> []"
  by (subst show_nat.simps) simp

text \<open>Pieces without the first character of the separator can be read off a join.\<close>

lemma append_sep_inject:
  assumes "c \<notin> set x" and "c \<notin> set y" and "x @ c # r = y @ c # s"
  shows "x = y \<and> r = s"
proof -
  have "takeWhile ((\<noteq>) c) (x @ c # r) = x" "takeWhile ((\<noteq>) c) (y @ c # s) = y"
    using assms(1,2) by (auto simp: takeWhile_append)
  with assms(3) show ?thesis by auto
qed

lemma join_inject:
  assumes "\<forall>x \<in> set xs \<union> set ys. c \<notin> set x \<and> x \<noteq> []"
  shows "join (c # sep) xs = join (c # sep) ys \<longleftrightarrow> xs = ys"
  using assms
proof (induction xs arbitrary: ys)
  case Nil
  then show ?case by (cases ys rule: join.cases [of "(sep, ys)" for ys, simplified]) (auto elim!: join.elims)
next
  case (Cons x xs)
  show ?case
  proof (cases ys)
    case Nil
    with Cons.prems show ?thesis by (cases xs) auto
  next
    case ys: (Cons y ys')
    show ?thesis
    proof (cases xs)
      case Nil
      with ys Cons.prems show ?thesis by (cases ys') (auto dest: arg_cong [where f = set])
    next
      case xs: (Cons x2 xs2)
      show ?thesis
      proof (cases ys')
        case Nil
        with ys xs Cons.prems show ?thesis by (auto dest: arg_cong [where f = set])
      next
        case (Cons y2 ys2)
        with ys xs Cons.prems Cons.IH [of ys'] show ?thesis
          by (auto dest!: append_sep_inject [rotated 2])
      qed
    qed
  qed
qed

lemma show_path_inject [simp]: "show_path p = show_path q \<longleftrightarrow> p = q"
proof -
  have "\<forall>x \<in> set (map show_nat p) \<union> set (map show_nat q). CHR '','' \<notin> set x \<and> x \<noteq> []"
    by (auto simp: show_nat_no_comma show_nat_nonempty)
  from join_inject [OF this, of "'' ''"]
  have "join '', '' (map show_nat p) = join '', '' (map show_nat q) \<longleftrightarrow> map show_nat p = map show_nat q"
    by simp
  moreover have "map show_nat p = map show_nat q \<longleftrightarrow> p = q"
    by (rule inj_map_eq_map) (simp add: inj_def)
  ultimately show ?thesis by (simp add: show_path_def)
qed

section \<open>Splitting\<close>

text \<open>\<open>s.split(c)\<close> for a one-character separator, and \<open>s.split(c, 1)\<close>.\<close>

fun split_on :: "char \<Rightarrow> string \<Rightarrow> string list" where
  "split_on c [] = [[]]"
| "split_on c (x # xs) =
     (if x = c then [] # split_on c xs
      else (case split_on c xs of [] \<Rightarrow> [[x]] | p # ps \<Rightarrow> (x # p) # ps))"

fun split_once :: "char \<Rightarrow> string \<Rightarrow> (string \<times> string) option" where
  "split_once c [] = None"
| "split_once c (x # xs) =
     (if x = c then Some ([], xs) else map_option (\<lambda>(a, b). (x # a, b)) (split_once c xs))"

lemma split_on_nonempty [simp]: "split_on c s \<noteq> []"
  by (induction s) (auto split: list.splits)

lemma join_split_on: "join [c] (split_on c s) = s"
proof (induction s)
  case Nil
  then show ?case by simp
next
  case (Cons x xs)
  obtain p ps where sp: "split_on c xs = p # ps" by (cases "split_on c xs") auto
  with Cons show ?case by (cases ps) auto
qed

lemma split_on_join:
  assumes "xs \<noteq> []" and "\<forall>x \<in> set xs. c \<notin> set x"
  shows "split_on c (join [c] xs) = xs"
proof -
  have one: "split_on c x = [x]" if "c \<notin> set x" for x
    using that by (induction x) auto
  have more: "split_on c (x @ c # r) = x # split_on c r" if "c \<notin> set x" for x r
    using that by (induction x) auto
  show ?thesis
    using assms by (induction "[c]" xs rule: join.induct) (auto simp: one more)
qed

lemma split_once_Some: "split_once c s = Some (a, b) \<Longrightarrow> s = a @ c # b \<and> c \<notin> set a"
  by (induction s arbitrary: a) (auto split: if_splits)

lemma split_once_None: "split_once c s = None \<longleftrightarrow> c \<notin> set s"
  by (induction s) auto

section \<open>Lists\<close>

text \<open>\<open>xs[i]\<close>, with negative indices from the end, and \<open>xs.index(x)\<close>.\<close>

definition py_nth :: "'a list \<Rightarrow> int \<Rightarrow> exc + 'a" where
  "py_nth xs i =
     (let j = (if i < 0 then int (length xs) + i else i)
      in if 0 \<le> j \<and> j < int (length xs) then Inr (xs ! nat j) else Inl IndexError)"

fun index_of :: "'a \<Rightarrow> 'a list \<Rightarrow> nat option" where
  "index_of x [] = None"
| "index_of x (y # ys) = (if x = y then Some 0 else map_option Suc (index_of x ys))"

lemma index_of_None [simp]: "index_of x xs = None \<longleftrightarrow> x \<notin> set xs"
  by (induction xs) auto

lemma index_of_Some: "index_of x xs = Some i \<Longrightarrow> i < length xs \<and> xs ! i = x"
  by (induction xs arbitrary: i) (auto split: if_splits)

lemma index_of_nth: "distinct xs \<Longrightarrow> i < length xs \<Longrightarrow> index_of (xs ! i) xs = Some i"
  by (induction xs arbitrary: i) (auto simp: nth_Cons split: nat.splits)

lemma py_nth_nat: "py_nth xs (int i) = (if i < length xs then Inr (xs ! i) else Inl IndexError)"
  by (simp add: py_nth_def)

text \<open>\<open>list.remove\<close> and \<open>set.remove\<close> of an element that occurs at most once.\<close>

definition removed :: "'a \<Rightarrow> 'a list \<Rightarrow> exc + 'a list" where
  "removed x xs = (if x \<in> set xs then Inr (remove1 x xs) else Inl ValueError)"

section \<open>Numbers\<close>

text \<open>\<open>round(x)\<close> rounds half to even. Times and intervals are rationals.\<close>

definition py_round :: "rat \<Rightarrow> int" where
  "py_round x = (let f = \<lfloor>x\<rfloor>; r = x - of_int f in
     if r < 1 / 2 then f else if 1 / 2 < r then f + 1 else if even f then f else f + 1)"

lemma py_round_near: "\<bar>of_int (py_round x) - x\<bar> \<le> 1 / 2"
proof -
  have "of_int \<lfloor>x\<rfloor> \<le> x" and "x < of_int \<lfloor>x\<rfloor> + 1" by linarith+
  then show ?thesis unfolding py_round_def Let_def abs_if of_int_add of_int_1
    by (simp split: if_splits) linarith+
qed

section \<open>Dictionaries\<close>

text \<open>A dictionary is the list of its items in insertion order; a new value for an old key
  stays in the old key's place.\<close>

type_synonym 'v dict = "(string \<times> 'v) list"

fun dict_set :: "string \<Rightarrow> 'v \<Rightarrow> 'v dict \<Rightarrow> 'v dict" where
  "dict_set k v [] = [(k, v)]"
| "dict_set k v ((k', v') # d) = (if k = k' then (k, v) # d else (k', v') # dict_set k v d)"

definition dict_update :: "'v dict \<Rightarrow> 'v dict \<Rightarrow> 'v dict" where
  "dict_update d e = foldl (\<lambda>d (k, v). dict_set k v d) d e"

definition dict_del :: "string \<Rightarrow> 'v dict \<Rightarrow> 'v dict" where
  "dict_del k d = filter (\<lambda>(k', _). k' \<noteq> k) d"

definition has_key :: "string \<Rightarrow> 'v dict \<Rightarrow> bool" where
  "has_key k d = (map_of d k \<noteq> None)"

lemma map_of_dict_set [simp]: "map_of (dict_set k v d) = (map_of d)(k \<mapsto> v)"
  by (induction d) (auto simp: fun_eq_iff)

lemma map_of_dict_del [simp]: "map_of (dict_del k d) = (map_of d)(k := None)"
  by (induction d) (auto simp: dict_del_def fun_eq_iff)

lemma keys_dict_set [simp]: "fst ` set (dict_set k v d) = insert k (fst ` set d)"
  by (induction k v d rule: dict_set.induct) (simp_all add: insert_commute)

lemma distinct_dict_set: "distinct (map fst d) \<Longrightarrow> distinct (map fst (dict_set k v d))"
  by (induction k v d rule: dict_set.induct) simp_all

lemma distinct_dict_del: "distinct (map fst d) \<Longrightarrow> distinct (map fst (dict_del k d))"
  by (induction d) (auto simp: dict_del_def)

lemma dict_set_append: "k \<notin> fst ` set d \<Longrightarrow> dict_set k v d = d @ [(k, v)]"
  by (induction d) auto

lemma map_of_dict_update: "map_of (dict_update d e) = map_of d ++ map_of (rev e)"
proof (induction e arbitrary: d)
  case (Cons p e)
  then show ?case by (cases p) (simp add: dict_update_def map_add_def fun_eq_iff split: option.splits)
qed (simp add: dict_update_def)

lemma has_key_iff: "has_key k d \<longleftrightarrow> k \<in> fst ` set d"
  by (simp add: has_key_def map_of_eq_None_iff)

end
