(* ===== verification/Net.thy ===== *)
theory Net
  imports PyText "HOL-Library.Word"
begin

text \<open>
  The message layer of \<open>server/net.py\<close>: a message is a header (a dictionary of short texts) and
  a payload. On the wire it is a 4-byte big-endian length, the header as length-prefixed keys and
  values closed by a zero byte, and the payload. \<open>frame\<close> and \<open>sock_write\<close> model
  \<open>Socket.write\<close>, \<open>sock_read\<close> models \<open>Socket.read\<close> on what arrives at a blocking socket: chunks of bytes, the
  peer's end of file, a failure. When nothing more arrives, \<open>recv\<close> does not return.
\<close>

type_synonym byte = "8 word"
type_synonym bytes = "8 word list"

section \<open>Values and text\<close>

text \<open>The values that the server puts in a header or a payload.\<close>

datatype pyval = VStr string | VInt int | VPath "nat list"

text \<open>\<open>str(item)\<close>, and \<open>Socket._bytes\<close>: the UTF-8 bytes of it.\<close>

fun py_str :: "pyval \<Rightarrow> string" where
  "py_str (VStr s) = s"
| "py_str (VInt i) = show_int i"
| "py_str (VPath p) = show_path p"

definition encode :: "string \<Rightarrow> bytes" where
  "encode s = map (\<lambda>c. of_nat (of_char c)) s"

definition sock_bytes :: "pyval \<Rightarrow> bytes" where
  "sock_bytes v = encode (py_str v)"

text \<open>\<open>bytes.decode()\<close> accepts exactly the well-formed UTF-8 sequences.\<close>

definition between :: "byte \<Rightarrow> byte \<Rightarrow> byte \<Rightarrow> bool" where
  "between a x b = (a \<le> x \<and> x \<le> b)"

fun utf8_ok :: "bytes \<Rightarrow> bool" where
  "utf8_ok [] = True"
| "utf8_ok (b # bs) =
     (if b < 0x80 then utf8_ok bs
      else case bs of [] \<Rightarrow> False | c # cs \<Rightarrow>
        if between 0xC2 b 0xDF then between 0x80 c 0xBF \<and> utf8_ok cs
        else case cs of [] \<Rightarrow> False | d # ds \<Rightarrow>
          if between 0xE0 b 0xEF
          then between (if b = 0xE0 then 0xA0 else 0x80) c (if b = 0xED then 0x9F else 0xBF)
               \<and> between 0x80 d 0xBF \<and> utf8_ok ds
          else case ds of [] \<Rightarrow> False | e # es \<Rightarrow>
            between 0xF0 b 0xF4
            \<and> between (if b = 0xF0 then 0x90 else 0x80) c (if b = 0xF4 then 0x8F else 0xBF)
            \<and> between 0x80 d 0xBF \<and> between 0x80 e 0xBF \<and> utf8_ok es)"

definition decode :: "bytes \<Rightarrow> exc + string" where
  "decode bs = (if utf8_ok bs then Inr (map (\<lambda>b. char_of (unat b)) bs) else Inl UnicodeDecodeError)"

definition is_text :: "string \<Rightarrow> bool" where
  "is_text s = utf8_ok (encode s)"

lemma length_encode [simp]: "length (encode s) = length s"
  by (simp add: encode_def)

lemma encode_Nil [simp]: "encode s = [] \<longleftrightarrow> s = []"
  by (simp add: encode_def)

lemma char_of_of_char_byte [simp]: "char_of (unat (of_nat (of_char c) :: byte)) = c"
  by (simp add: unat_of_nat)

lemma decode_encode: "decode (encode s) = (if is_text s then Inr s else Inl UnicodeDecodeError)"
  by (simp add: decode_def encode_def is_text_def comp_def)

lemma decode_Inl: "decode bs = Inl e \<Longrightarrow> e = UnicodeDecodeError"
  by (auto simp: decode_def split: if_splits)

section \<open>\<open>Socket.write\<close>\<close>

text \<open>\<open>struct.pack('!B', n)\<close> and \<open>struct.pack('!I', n)\<close>, for \<open>n\<close> in range.\<close>

definition pack_B :: "nat \<Rightarrow> exc + bytes" where
  "pack_B n = (if n < 256 then Inr [of_nat n] else Inl StructError)"

definition pack_I :: "nat \<Rightarrow> bytes" where
  "pack_I n = [of_nat (n div 2 ^ 24), of_nat (n div 2 ^ 16), of_nat (n div 2 ^ 8), of_nat n]"

definition unpack_I :: "bytes \<Rightarrow> nat" where
  "unpack_I bs = foldl (\<lambda>a b. 256 * a + unat b) 0 bs"

text \<open>One length-prefixed item, and the loop over the header's items.\<close>

definition dump_item :: "bytes \<Rightarrow> exc + bytes" where
  "dump_item bs = (case pack_B (length bs) of Inl e \<Rightarrow> Inl e | Inr n \<Rightarrow> Inr (n @ bs))"

fun dump_header :: "pyval dict \<Rightarrow> exc + bytes" where
  "dump_header [] = Inr []"
| "dump_header ((k, v) # h) =
     (if encode k = [] then Inl ValueError
      else case dump_item (encode k) of Inl e \<Rightarrow> Inl e
      | Inr kb \<Rightarrow> (case dump_item (sock_bytes v) of Inl e \<Rightarrow> Inl e
      | Inr vb \<Rightarrow> (case dump_header h of Inl e \<Rightarrow> Inl e | Inr d \<Rightarrow> Inr (kb @ vb @ d))))"

text \<open>\<open>frame\<close> gives the two byte strings that \<open>Socket.write\<close> hands to \<open>send\<close>.\<close>

definition frame :: "pyval dict \<Rightarrow> pyval \<Rightarrow> exc + (bytes \<times> bytes)" where
  "frame h pl =
     (case dump_header h of Inl e \<Rightarrow> Inl e
      | Inr d \<Rightarrow> (let dump = d @ [0] @ sock_bytes pl; n = length dump in
          if 2 ^ 32 \<le> n then Inl ValueError else Inr (pack_I n, dump)))"

text \<open>
  \<open>send\<close> takes some prefix of what it is given and returns its length, which \<open>write\<close> ignores:
  \<open>a1\<close> and \<open>a2\<close> are the lengths that the two calls take.
\<close>

definition sock_write :: "nat \<Rightarrow> nat \<Rightarrow> pyval dict \<Rightarrow> pyval \<Rightarrow> exc + bytes" where
  "sock_write a1 a2 h pl =
     (case frame h pl of Inl e \<Rightarrow> Inl e | Inr (n, d) \<Rightarrow> Inr (take a1 n @ take a2 d))"

section \<open>\<open>Socket.read\<close>\<close>

text \<open>What arrives at the socket. After the last one of a list nothing arrives for ever, and \<open>recv\<close> blocks (\<open>None\<close>). A chunk that
  arrives is not empty; an empty one would be read as the end.\<close>

datatype arrival = Bytes bytes | Eof | Fault exc

text \<open>\<open>recv(n)\<close>: at most \<open>n\<close> bytes of the next chunk; an empty result once the peer has closed, an exception when
  the connection fails.\<close>

definition recv :: "nat \<Rightarrow> (arrival list, bytes) prog" where
  "recv n ars = (case ars of [] \<Rightarrow> None
     | a # rest \<Rightarrow> (case a of
         Bytes c \<Rightarrow> Some (Inr (take n c), if length c \<le> n then rest else Bytes (drop n c) # rest)
       | Eof \<Rightarrow> Some (Inr [], ars)
       | Fault e \<Rightarrow> Some (Inl e, rest)))"

definition recv_all :: "nat \<Rightarrow> (arrival list, bytes) prog" where
  "recv_all n = whileM (\<lambda>content. length content < n)
     (\<lambda>content. bindM (recv (n - length content))
        (\<lambda>buffer. if buffer = [] then raiseM ConnectionAborted else retM (content @ buffer))) []"

text \<open>One length-prefixed item at \<open>content[i:]\<close>; the slice of the item may be short.\<close>

fun read_item :: "bytes \<Rightarrow> exc + (bytes \<times> bytes)" where
  "read_item [] = Inl StructError"
| "read_item (n # r) = Inr (take (unat n) r, drop (unat n) r)"

lemma read_item_shorter: "read_item r = Inr (x, r') \<Longrightarrow> length r' < length r"
  by (cases r) auto

text \<open>The header loop on \<open>r = content[i:]\<close>: it stops at a zero byte and returns what follows.\<close>

function read_header :: "bytes \<Rightarrow> string dict \<Rightarrow> exc + (string dict \<times> bytes)" where
  "read_header r h =
     (if take 1 r = [0] then Inr (h, drop 1 r)
      else case read_item r of Inl e \<Rightarrow> Inl e
      | Inr (k, r1) \<Rightarrow> (case read_item r1 of Inl e \<Rightarrow> Inl e
      | Inr (v, r2) \<Rightarrow> (case decode v of Inl e \<Rightarrow> Inl e
      | Inr vs \<Rightarrow> (case decode k of Inl e \<Rightarrow> Inl e
      | Inr ks \<Rightarrow> read_header r2 (dict_set ks vs h)))))"
  by pat_completeness auto
termination
  by (relation "measure (\<lambda>(r, h). length r)") (auto dest!: read_item_shorter)

declare read_header.simps [simp del]

definition sock_read :: "(arrival list, string dict \<times> bytes) prog" where
  "sock_read = bindM (recv 4) (\<lambda>l.
     if length l = 4
     then bindM (recv_all (unpack_I l)) (\<lambda>content.
            case read_header content [] of Inl e \<Rightarrow> raiseM e | Inr m \<Rightarrow> retM m)
     else raiseM ConnectionAborted)"

section \<open>Lengths\<close>

lemma length_pack_I [simp]: "length (pack_I n) = 4"
  by (simp add: pack_I_def)

lemma unpack_pack_I: "n < 2 ^ 32 \<Longrightarrow> unpack_I (pack_I n) = n"
proof -
  assume n: "n < 2 ^ 32"
  define a b c d where "a = n div 2 ^ 24" and "b = n div 2 ^ 16" and "c = n div 2 ^ 8" and "d = n"
  have "unpack_I (pack_I n) = ((a mod 256 * 256 + b mod 256) * 256 + c mod 256) * 256 + d mod 256"
    by (simp add: unpack_I_def pack_I_def a_def b_def c_def d_def unat_of_nat take_bit_eq_mod algebra_simps)
  moreover have "a mod 256 = a" using n by (simp add: a_def)
  moreover have "a = b div 256" "b = c div 256" "c = d div 256"
    by (simp_all add: a_def b_def c_def d_def div_mult2_eq [symmetric])
  then have "a * 256 + b mod 256 = b" "b * 256 + c mod 256 = c" "c * 256 + d mod 256 = d"
    by (simp_all add: mult.commute)
  ultimately have "unpack_I (pack_I n) = d" by (simp only:)
  then show ?thesis by (simp add: d_def)
qed

section \<open>When a message can be written\<close>

lemma dump_item_iff: "dump_item bs = Inr r \<longleftrightarrow> length bs < 256 \<and> r = of_nat (length bs) # bs"
  by (auto simp: dump_item_def pack_B_def)

lemma dump_item_err: "dump_item bs = Inl e \<longleftrightarrow> 256 \<le> length bs \<and> e = StructError"
  by (auto simp: dump_item_def pack_B_def)

definition short_header :: "pyval dict \<Rightarrow> bool" where
  "short_header h = (\<forall>(k, v) \<in> set h. k \<noteq> [] \<and> length k < 256 \<and> length (py_str v) < 256)"

lemma dump_header_ok: "(\<exists>d. dump_header h = Inr d) \<longleftrightarrow> short_header h"
proof (induction h rule: dump_header.induct)
  case (2 k v h)
  then show ?case
    by (auto simp: short_header_def dump_item_iff dump_item_err sock_bytes_def split: sum.splits)
qed (simp add: short_header_def)

lemma read_item_dump: "dump_item bs = Inr r \<Longrightarrow> read_item (r @ rest) = Inr (bs, rest)"
  by (auto simp: dump_item_iff unat_of_nat take_bit_nat_eq_self)

lemma frame_ok_iff:
  "(\<exists>n d. frame h pl = Inr (n, d)) \<longleftrightarrow>
     short_header h \<and> (\<forall>d. dump_header h = Inr d \<longrightarrow> length d + 1 + length (sock_bytes pl) < 2 ^ 32)"
  using dump_header_ok [of h] by (auto simp: frame_def Let_def split: sum.splits)

lemma dump_header_err: "dump_header h = Inl e \<Longrightarrow> e = ValueError \<or> e = StructError"
  by (induction h rule: dump_header.induct) (auto simp: dump_item_err split: if_splits sum.splits)

lemma length_dump_header:
  "dump_header h = Inr d \<Longrightarrow> length d = (\<Sum>(k, v) \<leftarrow> h. 2 + length k + length (py_str v))"
  by (induction h arbitrary: d rule: dump_header.induct)
    (auto simp: dump_item_iff sock_bytes_def split: if_splits sum.splits)

section \<open>Reading back what was written\<close>

definition text_header :: "pyval dict \<Rightarrow> bool" where
  "text_header h = (\<forall>(k, v) \<in> set h. is_text k \<and> is_text (py_str v))"

definition str_header :: "pyval dict \<Rightarrow> string dict" where
  "str_header h = map (\<lambda>(k, v). (k, py_str v)) h"

lemma read_header_dump:
  "dump_header h = Inr d \<Longrightarrow> text_header h \<Longrightarrow>
   read_header (d @ 0 # rest) acc = Inr (dict_update acc (str_header h), rest)"
proof (induction h arbitrary: d acc rule: dump_header.induct)
  case 1
  then show ?case by (subst read_header.simps) (simp add: dict_update_def str_header_def)
next
  case (2 k v h)
  from "2.prems"(1) obtain kb vb d' where k: "k \<noteq> []" and kb: "dump_item (encode k) = Inr kb"
    and vb: "dump_item (sock_bytes v) = Inr vb" and d': "dump_header h = Inr d'" and d: "d = kb @ vb @ d'"
    by (auto split: if_splits sum.splits)
  from kb have len: "length k < 256" and kb': "kb = of_nat (length k) # encode k"
    by (simp_all add: dump_item_iff)
  from k len have "\<not> 256 dvd length k" by (auto dest: dvd_imp_le)
  with len kb' obtain b where b: "kb = b # encode k" "b \<noteq> 0" "unat b = length k"
    by (simp add: word_of_nat_eq_0_iff unat_of_nat)
  moreover have "read_header (d' @ 0 # rest) (dict_set k (py_str v) acc)
      = Inr (dict_update (dict_set k (py_str v) acc) (str_header h), rest)"
    using "2.IH" k kb vb d' "2.prems"(2) by (auto simp: text_header_def)
  moreover have "decode (encode k) = Inr k" "decode (sock_bytes v) = Inr (py_str v)"
    using "2.prems"(2) by (auto simp: decode_encode sock_bytes_def text_header_def)
  ultimately show ?case
    using vb d by (subst read_header.simps) (simp add: read_item_dump str_header_def dict_update_def)
qed

lemma dict_update_fresh:
  "distinct (map fst (d @ e)) \<Longrightarrow> dict_update d e = d @ e"
proof (induction e arbitrary: d)
  case (Cons p e)
  obtain k v where p: "p = (k, v)" by (cases p)
  from Cons.prems p have "dict_set k v d = d @ [(k, v)]"
    by (intro dict_set_append) auto
  with Cons.IH [of "d @ [p]"] Cons.prems p show ?case by (simp add: dict_update_def)
qed (simp add: dict_update_def)

lemma map_fst_str_header [simp]: "map fst (str_header h) = map fst h"
  by (induction h) (auto simp: str_header_def)

section \<open>What a read does with what arrives\<close>

text \<open>The bytes up to the first end or failure, what that is (\<open>None\<close> when it stays away), and the first chunk. (The
  system never gives an empty chunk; \<open>Socket.read\<close> would take one for the end.)\<close>

fun stream_bytes :: "arrival list \<Rightarrow> bytes" where
  "stream_bytes [] = []"
| "stream_bytes (a # ars) = (case a of Bytes c \<Rightarrow> if c = [] then [] else c @ stream_bytes ars | _ \<Rightarrow> [])"

fun stream_end :: "arrival list \<Rightarrow> arrival option" where
  "stream_end [] = None"
| "stream_end (a # ars) = (case a of Bytes c \<Rightarrow> if c = [] then Some Eof else stream_end ars | _ \<Rightarrow> Some a)"

fun first_chunk :: "arrival list \<Rightarrow> bytes" where
  "first_chunk (Bytes c # ars) = c"
| "first_chunk ars = []"

definition recv_failure :: "arrival \<Rightarrow> exc" where
  "recv_failure a = (case a of Fault e \<Rightarrow> e | _ \<Rightarrow> ConnectionAborted)"

lemma received_chunks [simp]: "[] \<notin> set cs \<Longrightarrow> stream_bytes (map Bytes cs @ ars) = concat cs @ stream_bytes ars"
  "[] \<notin> set cs \<Longrightarrow> stream_end (map Bytes cs @ ars) = stream_end ars"
  by (induction cs) auto

lemma first_chunk_map: "cs \<noteq> [] \<Longrightarrow> first_chunk (map Bytes cs @ ars) = hd cs"
  by (cases cs) simp_all

lemma recv_failure_in: "stream_end ars = Some a \<Longrightarrow> recv_failure a = ConnectionAborted \<or> Fault (recv_failure a) \<in> set ars"
  by (induction ars) (auto simp: recv_failure_def split: arrival.splits if_splits)

abbreviation recv_step :: "nat \<Rightarrow> bytes \<Rightarrow> (arrival list, bytes) prog" where
  "recv_step n content \<equiv> bindM (recv (n - length content))
     (\<lambda>buffer. if buffer = [] then raiseM ConnectionAborted else retM (content @ buffer))"

abbreviation recv_loop :: "nat \<Rightarrow> bytes \<Rightarrow> (arrival list, bytes) prog" where
  "recv_loop n \<equiv> whileM (\<lambda>content. length content < n) (recv_step n)"

text \<open>A read of \<open>n\<close> bytes gives the next \<open>n\<close> bytes when they arrive; when they do not, it fails as the stream does, or
  blocks.\<close>

lemma recv_loop_run:
  "length x \<le> n \<Longrightarrow>
   (n \<le> length x + length (stream_bytes ars) \<longrightarrow> (\<exists>t. recv_loop n x ars = Some (Inr (x @ take (n - length x) (stream_bytes ars)), t)
      \<and> stream_bytes t = drop (n - length x) (stream_bytes ars) \<and> stream_end t = stream_end ars))
   \<and> (length x + length (stream_bytes ars) < n \<longrightarrow> (case stream_end ars of None \<Rightarrow> recv_loop n x ars = None
      | Some a \<Rightarrow> \<exists>t. recv_loop n x ars = Some (Inl (recv_failure a), t)))"
proof (induction ars arbitrary: x)
  case Nil
  show ?case
  proof (cases "length x = n")
    case False
    with Nil have "recv_loop n x [] = None" by (subst whileM.simps) (simp add: bindM_def recv_def)
    with Nil False show ?thesis by simp
  qed (simp add: whileM_stop)
next
  case (Cons a ars)
  show ?case
  proof (cases "length x = n")
    case True
    then show ?thesis by (simp add: whileM_stop)
  next
    case False
    with Cons.prems have lt: "length x < n" by simp
    show ?thesis
    proof (cases a)
      case (Bytes c)
      show ?thesis
      proof (cases "c = []")
        case True
        with Bytes lt have "recv_step n x (a # ars) = Some (Inl ConnectionAborted, ars)" by (simp add: bindM_def recv_def run_simps)
        with lt Bytes True show ?thesis by (auto simp: whileM_raise recv_failure_def)
      next
        case c: False
        show ?thesis
        proof (cases "length c \<le> n - length x")
          case True
          with Bytes c have "recv_step n x (a # ars) = Some (Inr (x @ c), ars)" by (simp add: bindM_def recv_def run_simps)
          then have next': "recv_loop n x (a # ars) = recv_loop n (x @ c) ars" using lt by (simp add: whileM_next)
          from True lt have "length (x @ c) \<le> n" by simp
          with Cons.IH [OF this] c Bytes True lt show ?thesis unfolding next' by (auto simp: add.assoc)
        next
          case more: False
          let ?r = "Bytes (drop (n - length x) c) # ars"
          from more Bytes c lt have "recv_step n x (a # ars) = Some (Inr (x @ take (n - length x) c), ?r)"
            by (auto simp: bindM_def recv_def run_simps)
          then have "recv_loop n x (a # ars) = Some (Inr (x @ take (n - length x) c), ?r)"
            using lt more by (simp add: whileM_next whileM_stop)
          with Bytes c more lt show ?thesis by auto
        qed
      qed
    next
      case Eof
      with lt have "recv_step n x (a # ars) = Some (Inl ConnectionAborted, a # ars)" by (simp add: bindM_def recv_def run_simps)
      with lt Eof show ?thesis by (auto simp: whileM_raise recv_failure_def)
    next
      case (Fault e)
      with lt have "recv_step n x (a # ars) = Some (Inl e, ars)" by (simp add: bindM_def recv_def run_simps)
      with lt Fault show ?thesis by (auto simp: whileM_raise recv_failure_def)
    qed
  qed
qed

lemma recv_all_run:
  "n \<le> length (stream_bytes ars) \<Longrightarrow> \<exists>t. recv_all n ars = Some (Inr (take n (stream_bytes ars)), t)
     \<and> stream_bytes t = drop n (stream_bytes ars) \<and> stream_end t = stream_end ars"
  "length (stream_bytes ars) < n \<Longrightarrow> stream_end ars = None \<Longrightarrow> recv_all n ars = None"
  "length (stream_bytes ars) < n \<Longrightarrow> stream_end ars = Some a \<Longrightarrow> \<exists>t. recv_all n ars = Some (Inl (recv_failure a), t)"
  using recv_loop_run [of "[]" n ars] unfolding recv_all_def by auto

text \<open>The announced length of the message, when the first \<open>recv\<close> gives the four bytes.\<close>

definition announced :: "arrival list \<Rightarrow> nat" where
  "announced ars = unpack_I (take 4 (first_chunk ars))"

lemma first_recv:
  assumes "4 \<le> length (first_chunk ars)"
  obtains t where "recv 4 ars = Some (Inr (take 4 (stream_bytes ars)), t)" "stream_bytes t = drop 4 (stream_bytes ars)" "stream_end t = stream_end ars"
    "length (take 4 (stream_bytes ars)) = 4" "unpack_I (take 4 (stream_bytes ars)) = announced ars"
proof -
  from assms obtain c rest where ars: "ars = Bytes c # rest" "c \<noteq> []" by (cases ars rule: first_chunk.cases) force+
  with assms show ?thesis by (intro that [of "if length c \<le> 4 then rest else Bytes (drop 4 c) # rest"]) (auto simp: recv_def announced_def)
qed

lemma sock_read_whole:
  assumes "4 \<le> length (first_chunk ars)" and "4 + announced ars \<le> length (stream_bytes ars)"
  shows "\<exists>t. sock_read ars = Some (read_header (take (announced ars) (drop 4 (stream_bytes ars))) [], t)
    \<and> stream_bytes t = drop (4 + announced ars) (stream_bytes ars) \<and> stream_end t = stream_end ars"
proof -
  from first_recv [OF assms(1)] obtain t where t: "recv 4 ars = Some (Inr (take 4 (stream_bytes ars)), t)" "stream_bytes t = drop 4 (stream_bytes ars)"
    "stream_end t = stream_end ars" "length (take 4 (stream_bytes ars)) = 4" "unpack_I (take 4 (stream_bytes ars)) = announced ars" .
  have "announced ars \<le> length (stream_bytes t)" using assms(2) t(2) by simp
  from recv_all_run(1) [OF this] t(2) obtain u where
    "recv_all (announced ars) t = Some (Inr (take (announced ars) (drop 4 (stream_bytes ars))), u)"
    "stream_bytes u = drop (4 + announced ars) (stream_bytes ars)" "stream_end u = stream_end t" by (auto simp: add.commute)
  with t show ?thesis by (auto simp: sock_read_def bindM_def run_simps split: sum.split)
qed

lemma sock_read_cut:
  assumes "4 \<le> length (first_chunk ars)" and "length (stream_bytes ars) < 4 + announced ars"
  shows "stream_end ars = None \<Longrightarrow> sock_read ars = None" and "stream_end ars = Some a \<Longrightarrow> \<exists>t. sock_read ars = Some (Inl (recv_failure a), t)"
proof -
  from first_recv [OF assms(1)] obtain t where t: "recv 4 ars = Some (Inr (take 4 (stream_bytes ars)), t)" "stream_bytes t = drop 4 (stream_bytes ars)"
    "stream_end t = stream_end ars" "length (take 4 (stream_bytes ars)) = 4" "unpack_I (take 4 (stream_bytes ars)) = announced ars" .
  from t(2,4) assms(2) have lt: "length (stream_bytes t) < announced ars" by simp
  note cut = recv_all_run(2,3) [OF lt]
  show "sock_read ars = None" if "stream_end ars = None"
    using cut(1) that t by (simp add: sock_read_def bindM_def)
  show "\<exists>t. sock_read ars = Some (Inl (recv_failure a), t)" if "stream_end ars = Some a"
    using cut(2) [of a] that t by (auto simp: sock_read_def bindM_def)
qed

lemma sock_read_short:
  "length (first_chunk ars) < 4 \<Longrightarrow> ars \<noteq> [] \<Longrightarrow> \<exists>t. sock_read ars = Some (Inl (recv_failure (hd ars)), t)"
  by (cases ars rule: first_chunk.cases) (auto simp: sock_read_def bindM_def recv_def run_simps recv_failure_def)

lemma sock_read_nothing: "sock_read [] = None" and sock_read_end: "sock_read (Eof # ars) = Some (Inl ConnectionAborted, Eof # ars)"
  by (simp_all add: sock_read_def bindM_def recv_def run_simps)

lemma read_header_err: "read_header r h = Inl e \<Longrightarrow> e = StructError \<or> e = UnicodeDecodeError"
proof (induction r h rule: read_header.induct)
  case (1 r h)
  have "read_item x = Inl e \<Longrightarrow> e = StructError" for x by (cases x) auto
  with 1 show ?case
    by (subst (asm) (2) read_header.simps) (auto dest!: decode_Inl split: if_splits sum.splits)
qed

text \<open>The reader waits for ever: nothing arrives at all, or a message begins, stays short, and the connection stays
  open.\<close>

definition starved :: "arrival list \<Rightarrow> bool" where
  "starved ars = (ars = [] \<or> 4 \<le> length (first_chunk ars) \<and> stream_end ars = None \<and> length (stream_bytes ars) < 4 + announced ars)"

lemma sock_read_None: "sock_read ars = None \<longleftrightarrow> starved ars"
proof (cases "4 \<le> length (first_chunk ars)")
  case True
  show ?thesis
  proof (cases "4 + announced ars \<le> length (stream_bytes ars)")
    case False
    with sock_read_cut [OF True] True show ?thesis by (cases "stream_end ars") (auto simp: starved_def)
  qed (use sock_read_whole [OF True] True in \<open>auto simp: starved_def\<close>)
next
  case False
  with sock_read_short [of ars] sock_read_nothing show ?thesis by (cases "ars = []") (auto simp: starved_def)
qed

lemma sock_read_raises:
  assumes "sock_read ars = Some (Inl e, t)"
  shows "e \<in> {ConnectionAborted, StructError, UnicodeDecodeError} \<or> Fault e \<in> set ars"
proof (cases "4 \<le> length (first_chunk ars)")
  case True
  show ?thesis
  proof (cases "4 + announced ars \<le> length (stream_bytes ars)")
    case False
    with sock_read_cut [OF True] assms recv_failure_in [of ars] show ?thesis by (cases "stream_end ars") auto
  qed (use sock_read_whole [OF True] assms read_header_err in fastforce)
next
  case False
  with sock_read_short [of ars] sock_read_nothing assms show ?thesis
    by (cases ars rule: first_chunk.cases) (auto simp: recv_failure_def)
qed

section \<open>Streams of messages\<close>

text \<open>
  The contract of a framing: decoding the front of a stream gives back the message that was
  encoded there, whatever follows. A stream of messages is then read back in order, and two
  different sequences of messages never have the same bytes.
\<close>

primrec decode_n :: "('b list \<Rightarrow> ('m \<times> 'b list) option) \<Rightarrow> nat \<Rightarrow> 'b list \<Rightarrow> ('m list \<times> 'b list) option" where
  "decode_n dec 0 bs = Some ([], bs)"
| "decode_n dec (Suc n) bs = (case dec bs of None \<Rightarrow> None
     | Some (m, r) \<Rightarrow> map_option (\<lambda>(ms, r'). (m # ms, r')) (decode_n dec n r))"

locale framing =
  fixes enc :: "'m \<Rightarrow> 'b list" and dec :: "'b list \<Rightarrow> ('m \<times> 'b list) option" and valid :: "'m \<Rightarrow> bool"
  assumes dec_enc: "valid m \<Longrightarrow> dec (enc m @ rest) = Some (m, rest)"
    and enc_nonempty: "valid m \<Longrightarrow> enc m \<noteq> []"
begin

lemma enc_prefix_free: "valid m \<Longrightarrow> valid m' \<Longrightarrow> enc m @ r = enc m' @ r' \<Longrightarrow> m = m' \<and> r = r'"
proof -
  assume "valid m" "valid m'" and eq: "enc m @ r = enc m' @ r'"
  then have "Some (m, r) = dec (enc m @ r)" by (intro dec_enc [symmetric])
  also have "\<dots> = dec (enc m' @ r')" by (simp only: eq)
  also have "\<dots> = Some (m', r')" by (rule dec_enc) fact
  finally show ?thesis by simp
qed

lemma decode_stream:
  "\<forall>m \<in> set ms. valid m \<Longrightarrow> decode_n dec (length ms) (concat (map enc ms) @ rest) = Some (ms, rest)"
proof (induction ms)
  case (Cons m ms)
  then have "decode_n dec (length ms) (concat (map enc ms) @ rest) = Some (ms, rest)" "valid m"
    by simp_all
  then show ?case by (simp add: dec_enc)
qed simp

lemma stream_unique:
  "\<forall>m \<in> set ms \<union> set ms'. valid m \<Longrightarrow> concat (map enc ms) = concat (map enc ms') \<Longrightarrow> ms = ms'"
proof (induction ms arbitrary: ms')
  case Nil
  then show ?case by (cases ms') (auto simp: enc_nonempty)
next
  case (Cons m ms)
  then have m: "valid m" "enc m \<noteq> []" by (simp_all add: enc_nonempty)
  with Cons.prems(2) obtain m' ms2 where ms': "ms' = m' # ms2" by (cases ms') simp_all
  with Cons.prems(1) have m': "valid m'" by simp
  from Cons.prems(2) ms' have "enc m @ concat (map enc ms) = enc m' @ concat (map enc ms2)" by simp
  with m(1) m' have "m = m' \<and> concat (map enc ms) = concat (map enc ms2)" by (rule enc_prefix_free)
  with Cons.IH [of ms2] Cons.prems(1) ms' show ?case by simp
qed

end

text \<open>The messages of the server as texts, their wire form, and reading one from bytes that have
  arrived in one chunk.\<close>

type_synonym message = "string dict \<times> string"

definition wire :: "message \<Rightarrow> bytes" where
  "wire m = (case frame (map (\<lambda>(k, v). (k, VStr v)) (fst m)) (VStr (snd m)) of
     Inl e \<Rightarrow> [] | Inr (n, d) \<Rightarrow> n @ d)"

definition unwire :: "bytes \<Rightarrow> (message \<times> bytes) option" where
  "unwire bs = (case sock_read [Bytes bs] of
     Some (Inr (h, p), t) \<Rightarrow> Some ((h, map (\<lambda>b. char_of (unat b)) p), stream_bytes t) | _ \<Rightarrow> None)"

definition sendable :: "message \<Rightarrow> bool" where
  "sendable m = (distinct (map fst (fst m)) \<and> (\<forall>(k, v) \<in> set (fst m). is_text k \<and> is_text v)
     \<and> (\<exists>n d. frame (map (\<lambda>(k, v). (k, VStr v)) (fst m)) (VStr (snd m)) = Inr (n, d)))"

lemma frame_parts:
  assumes "frame h pl = Inr (n, d)"
  obtains dh where "dump_header h = Inr dh" "d = dh @ 0 # sock_bytes pl" "n = pack_I (length d)"
    "length d < 2 ^ 32"
  using assms by (auto simp: frame_def Let_def split: sum.splits if_splits)

lemma frame_length: "frame h pl = Inr (n, d) \<Longrightarrow> length n = 4 \<and> unpack_I n = length d"
  by (auto simp: unpack_pack_I elim!: frame_parts)

lemma sock_read_frame:
  assumes fr: "frame h pl = Inr (n, d)" and keys: "distinct (map fst h)" and texts: "text_header h"
    and bytes: "stream_bytes ars = n @ d @ rest" "4 \<le> length (first_chunk ars)"
  shows "\<exists>t. sock_read ars = Some (Inr (str_header h, sock_bytes pl), t) \<and> stream_bytes t = rest \<and> stream_end t = stream_end ars"
proof -
  from fr obtain dh where dh: "dump_header h = Inr dh" and d: "d = dh @ 0 # sock_bytes pl" by (rule frame_parts)
  have hdr: "read_header d [] = Inr (str_header h, sock_bytes pl)"
    using read_header_dump [OF dh texts, of "sock_bytes pl" "[]"] dict_update_fresh [of "[]" "str_header h"] keys
    by (simp add: d)
  from first_recv [OF bytes(2)] have "unpack_I (take 4 (stream_bytes ars)) = announced ars" by blast
  then have "announced ars = length d" using frame_length [OF fr] bytes(1) by simp
  with sock_read_whole [OF bytes(2)] bytes(1) frame_length [OF fr] hdr show ?thesis by simp
qed

lemma text_header_VStr: "text_header (map (\<lambda>(k, v). (k, VStr v)) h) \<longleftrightarrow> (\<forall>(k, v) \<in> set h. is_text k \<and> is_text v)"
  by (auto simp: text_header_def)

lemma str_header_VStr: "str_header (map (\<lambda>(k, v). (k, VStr v)) h) = h"
  by (induction h) (auto simp: str_header_def)

lemma unwire_wire: "sendable m \<Longrightarrow> unwire (wire m @ rest) = Some (m, rest)"
proof -
  assume m: "sendable m"
  let ?h = "map (\<lambda>(k, v). (k, VStr v)) (fst m)"
  from m obtain n d where fr: "frame ?h (VStr (snd m)) = Inr (n, d)" by (auto simp: sendable_def)
  then have n: "length n = 4" by (auto elim!: frame_parts)
  have "\<exists>t. sock_read [Bytes (n @ d @ rest)] = Some (Inr (str_header ?h, sock_bytes (VStr (snd m))), t)
      \<and> stream_bytes t = rest \<and> stream_end t = stream_end [Bytes (n @ d @ rest)]"
  proof (rule sock_read_frame [OF fr])
    show "distinct (map fst ?h)" using m by (simp add: sendable_def comp_def case_prod_unfold)
    show "text_header ?h" using m unfolding sendable_def text_header_VStr by blast
  qed (use n in auto)
  with fr show ?thesis
    by (auto simp: unwire_def wire_def str_header_VStr sock_bytes_def encode_def comp_def)
qed

lemma wire_nonempty: "sendable m \<Longrightarrow> wire m \<noteq> []"
proof -
  assume "sendable m"
  then obtain n d where fr: "frame (map (\<lambda>(k, v). (k, VStr v)) (fst m)) (VStr (snd m)) = Inr (n, d)"
    by (auto simp: sendable_def)
  then have "length n = 4" by (auto elim!: frame_parts)
  with fr show ?thesis by (auto simp: wire_def)
qed

interpretation net: framing wire unwire sendable
  by unfold_locales (rule unwire_wire wire_nonempty, assumption)+

section \<open>Properties of the message layer\<close>

text \<open>C12: What \<open>Socket.write\<close> puts on the wire, \<open>Socket.read\<close> turns back into the header's texts and the payload,
  when the kernel takes both \<open>send\<close>s whole and the first \<open>recv\<close> gets the four length bytes at once; after them the stream
  may be cut into chunks in any way. The bytes that follow are left unread, whatever comes then. (What happens without the
  two conditions is \<open>short_transfers_lose_the_message\<close>.)\<close>

theorem write_then_read:
  assumes "sock_write a1 a2 h pl = Inr w" and "4 \<le> a1" and "2 ^ 32 \<le> a2"
    and "distinct (map fst h)" and "text_header h"
    and "concat cs = w @ rest" and "[] \<notin> set cs" and "4 \<le> length (hd cs)"
  shows "\<exists>t. sock_read (map Bytes cs @ more) = Some (Inr (str_header h, sock_bytes pl), t)
    \<and> stream_bytes t = rest @ stream_bytes more \<and> stream_end t = stream_end more"
proof -
  from assms(1) obtain n d where fr: "frame h pl = Inr (n, d)" and w: "w = take a1 n @ take a2 d"
    by (auto simp: sock_write_def split: sum.splits)
  then have "w = n @ d" using assms(2,3) by (auto elim!: frame_parts)
  moreover have "cs \<noteq> []" using assms(6) fr frame_length [OF fr] calculation by auto
  ultimately show ?thesis
    using sock_read_frame [OF fr assms(4,5), of "map Bytes cs @ more" "rest @ stream_bytes more"] assms(6-8)
    by (simp add: first_chunk_map)
qed

theorem write_then_read_witness:
  "\<exists>t. sock_read [Bytes [0, 0, 0, 12, 4], Bytes [110, 111, 100, 101, 3, 91], Bytes [48, 93, 0, 104, 105, 7]]
     = Some (Inr ([(''node'', ''[0]'')], [104, 105]), t) \<and> stream_bytes t = [7] \<and> stream_end t = None"
  using write_then_read [of 4 "2 ^ 32" "[(''node'', VPath [0])]" "VStr ''hi''"
      "[0, 0, 0, 12, 4, 110, 111, 100, 101, 3, 91, 48, 93, 0, 104, 105]"
      "[[0, 0, 0, 12, 4], [110, 111, 100, 101, 3, 91], [48, 93, 0, 104, 105, 7]]" "[7]" "[]"]
  by (simp add: sock_write_def frame_def dump_item_def pack_B_def sock_bytes_def encode_def
      show_path_def show_nat.simps digit_def pack_I_def text_header_def is_text_def between_def
      str_header_def Let_def)

text \<open>C13: A sequence of messages, written one after the other, is read back as the same sequence,
  with what follows it left in the stream.\<close>

theorem message_stream:
  "\<forall>m \<in> set ms. sendable m \<Longrightarrow>
   decode_n unwire (length ms) (concat (map wire ms) @ rest) = Some (ms, rest)"
  by (rule net.decode_stream)

theorem message_stream_witness:
  "decode_n unwire (Suc (Suc 0)) (wire ([(''command'', ''stop'')], []) @ wire ([], ''x'') @ [1])
     = Some ([([(''command'', ''stop'')], []), ([], ''x'')], [1])"
  using message_stream [of "[([(''command'', ''stop'')], []), ([], ''x'')]" "[1]"]
  by (simp add: sendable_def frame_def dump_item_def pack_B_def sock_bytes_def encode_def
      is_text_def between_def Let_def)

text \<open>C28: \<open>Socket.write\<close> accepts a message exactly when every key is non-empty, every key and every
  printed value has at most 255 bytes, and the whole dump is shorter than \<open>2^32\<close> bytes.\<close>

theorem write_accepts_iff:
  "(\<exists>n d. frame h pl = Inr (n, d)) \<longleftrightarrow>
     short_header h \<and> (\<Sum>(k, v) \<leftarrow> h. 2 + length k + length (py_str v)) + 1 + length (py_str pl) < 2 ^ 32"
proof -
  obtain r where "dump_header h = r" by simp
  then show ?thesis
    using frame_ok_iff [of h pl] dump_header_ok [of h] length_dump_header [of h]
    by (cases r) (auto simp: sock_bytes_def)
qed

text \<open>C29: The outcomes of \<open>Socket.read\<close>. It blocks for ever in exactly one situation: nothing arrives, or the four
  length bytes arrive at once and the announced bytes do not all follow while the connection stays open. Otherwise it
  returns or raises, and what it can raise is the exception of a closed or cut-off connection, of a malformed item length, of text
  that is not UTF-8, and whatever \<open>recv\<close> itself raised.\<close>

theorem read_outcomes:
  "(sock_read ars = None \<longleftrightarrow> ars = [] \<or> 4 \<le> length (first_chunk ars) \<and> stream_end ars = None
      \<and> length (stream_bytes ars) < 4 + unpack_I (take 4 (first_chunk ars)))
   \<and> {e. \<exists>t. sock_read ars = Some (Inl e, t)} \<subseteq> {ConnectionAborted, StructError, UnicodeDecodeError} \<union> {e. Fault e \<in> set ars}"
  using sock_read_None [of ars] sock_read_raises [of ars] by (auto simp: starved_def announced_def)

text \<open>C30: The 4 length bytes are read with a single \<open>recv\<close>, and \<open>send\<close>'s result is ignored. So a
  correct message whose first segment holds only one to three bytes is taken for a closed
  connection, and a message of which \<open>send\<close> took only a part is written without an exception
  although the receiver can only give up on it when the connection ends, and waits for the rest until then.\<close>

theorem short_transfers_lose_the_message:
  assumes "frame h pl = Inr (n, d)" and "0 < k" and "k < 4" and "a2 < length d"
  shows "(\<exists>t. sock_read [Bytes (take k n), Bytes (drop k n @ d)] = Some (Inl ConnectionAborted, t))
    \<and> sock_write 4 a2 h pl = Inr (n @ take a2 d)
    \<and> (\<exists>t. sock_read [Bytes (n @ take a2 d), Eof] = Some (Inl ConnectionAborted, t))
    \<and> sock_read [Bytes (n @ take a2 d)] = None"
proof (intro conjI)
  from frame_length [OF assms(1)] have n: "length n = 4" and un: "unpack_I n = length d" by simp_all
  show "\<exists>t. sock_read [Bytes (take k n), Bytes (drop k n @ d)] = Some (Inl ConnectionAborted, t)"
    using assms(3) n sock_read_short [of "[Bytes (take k n), Bytes (drop k n @ d)]"] by (simp add: recv_failure_def)
  show "sock_write 4 a2 h pl = Inr (n @ take a2 d)"
    using assms(1) n by (simp add: sock_write_def)
  have ne: "n \<noteq> []" using n by auto
  have four: "4 \<le> length (first_chunk (Bytes (n @ take a2 d) # ars))"
    "length (stream_bytes [Bytes (n @ take a2 d), Eof]) < 4 + announced [Bytes (n @ take a2 d), Eof]"
    "length (stream_bytes [Bytes (n @ take a2 d)]) < 4 + announced [Bytes (n @ take a2 d)]" for ars
    using n un assms(4) ne by (simp_all add: announced_def)
  show "\<exists>t. sock_read [Bytes (n @ take a2 d), Eof] = Some (Inl ConnectionAborted, t)"
    using sock_read_cut(2) [OF four(1) four(2), of Eof] ne by (simp add: recv_failure_def)
  show "sock_read [Bytes (n @ take a2 d)] = None"
    using sock_read_cut(1) [OF four(1) four(3)] ne by simp
qed

theorem short_transfers_lose_the_message_witness:
  "sock_write 4 2 [(''name'', VStr ''a'')] (VStr ''x'') = Inr ([0, 0, 0, 9] @ [4, 110])"
  using short_transfers_lose_the_message
    [of "[(''name'', VStr ''a'')]" "VStr ''x''" "[0, 0, 0, 9]" "[4, 110, 97, 109, 101, 1, 97, 0, 120]" 1 2]
  by (simp add: frame_def dump_item_def pack_B_def sock_bytes_def encode_def pack_I_def Let_def)

end
