(* ===== verification/Constants.thy ===== *)
theory Constants
  imports Main
begin

text \<open>
  The protocol's key and command names, \<open>server/constant.py\<close>: the module as the table of its variables, and the names
  that the other theories use for the values.
\<close>

definition protocol_names :: "(string \<times> string) list" where
  "protocol_names = [
     (''SOLVE'', ''solve''),
     (''COMMAND'', ''command''),
     (''INCREMENTAL'', ''incremental''),
     (''PARTITION'', ''partition''),
     (''PARTITIONS'', ''partitions''),
     (''SOLVER'', ''solver''),
     (''EVAL'', ''eval''),
     (''LEMMAS'', ''lemmas''),
     (''HEADER'', ''header''),
     (''PAYLOAD'', ''payload''),
     (''PIPENAME'', ''pipename''),
     (''CNF_CLAUSES'', ''cnf-clauses''),
     (''CNF_LEARNTS'', ''cnf-learnts''),
     (''QUERY'', ''query''),
     (''MAX_MEMORY'', ''max_memory''),
     (''LOG_MODE'', ''enableLog''),
     (''LEMMA_AMOUNT'', ''lemma_amount''),
     (''STOP'', ''stop''),
     (''TERMINATE'', ''terminate''),
     (''LEMMA_PUSH_MIN'', ''lemma_push_min''),
     (''LEMMA_PULL_MIN'', ''lemma_pull_min''),
     (''LEMMA_PUSH_MAX'', ''lemma_push_max''),
     (''LEMMA_PULL_MAX'', ''lemma_pull_max''),
     (''CHECK_SAT'', ''(check-sat)''),
     (''REPORT'', ''report''),
     (''NODE'', ''node''),
     (''NODE_'', ''node_''),
     (''NAME'', ''name'')]"

abbreviation SOLVE :: string where "SOLVE \<equiv> ''solve''"
abbreviation COMMAND :: string where "COMMAND \<equiv> ''command''"
abbreviation INCREMENTAL :: string where "INCREMENTAL \<equiv> ''incremental''"
abbreviation PARTITION :: string where "PARTITION \<equiv> ''partition''"
abbreviation PARTITIONS :: string where "PARTITIONS \<equiv> ''partitions''"
abbreviation SOLVER :: string where "SOLVER \<equiv> ''solver''"
abbreviation EVAL :: string where "EVAL \<equiv> ''eval''"
abbreviation LEMMAS :: string where "LEMMAS \<equiv> ''lemmas''"
abbreviation HEADER :: string where "HEADER \<equiv> ''header''"
abbreviation PAYLOAD :: string where "PAYLOAD \<equiv> ''payload''"
abbreviation PIPENAME :: string where "PIPENAME \<equiv> ''pipename''"
abbreviation CNF_CLAUSES :: string where "CNF_CLAUSES \<equiv> ''cnf-clauses''"
abbreviation CNF_LEARNTS :: string where "CNF_LEARNTS \<equiv> ''cnf-learnts''"
abbreviation QUERY :: string where "QUERY \<equiv> ''query''"
abbreviation MAX_MEMORY :: string where "MAX_MEMORY \<equiv> ''max_memory''"
abbreviation LOG_MODE :: string where "LOG_MODE \<equiv> ''enableLog''"
abbreviation LEMMA_AMOUNT :: string where "LEMMA_AMOUNT \<equiv> ''lemma_amount''"
abbreviation STOP :: string where "STOP \<equiv> ''stop''"
abbreviation TERMINATE :: string where "TERMINATE \<equiv> ''terminate''"
abbreviation LEMMA_PUSH_MIN :: string where "LEMMA_PUSH_MIN \<equiv> ''lemma_push_min''"
abbreviation LEMMA_PULL_MIN :: string where "LEMMA_PULL_MIN \<equiv> ''lemma_pull_min''"
abbreviation LEMMA_PUSH_MAX :: string where "LEMMA_PUSH_MAX \<equiv> ''lemma_push_max''"
abbreviation LEMMA_PULL_MAX :: string where "LEMMA_PULL_MAX \<equiv> ''lemma_pull_max''"
abbreviation CHECK_SAT :: string where "CHECK_SAT \<equiv> ''(check-sat)''"
abbreviation REPORT :: string where "REPORT \<equiv> ''report''"
abbreviation NODE :: string where "NODE \<equiv> ''node''"
abbreviation NODE' :: string where "NODE' \<equiv> ''node_''"
abbreviation NAME :: string where "NAME \<equiv> ''name''"

text \<open>No two names stand for the same text, so that keys and commands are told apart.\<close>

lemma protocol_names_distinct: "distinct (map fst protocol_names)" "distinct (map snd protocol_names)"
  by (simp_all add: protocol_names_def)

end
