(* ===== verification/SmtJson.thy ===== *)
theory SmtJson
  imports PyText
begin

text \<open>
  The translation between SMT-LIB text and nested lists of \<open>server/utils.py\<close>. \<open>smt2json\<close> turns
  the text into JSON by a chain of regular-expression substitutions and loads it; each pass is a
  function here, in the order of the code. Text is ASCII for the whitespace class \<open>\s\<close>; the loaded
  JSON holds strings and arrays only, as every token is quoted by the fourth pass, and anything
  else is the decoder's \<open>ValueError\<close>.
\<close>

datatype jval = JStr string | JArr "jval list"

section \<open>The substitutions\<close>

definition is_space :: "char \<Rightarrow> bool" where
  "is_space c = (c \<in> set [CHR '' '', CHR 0x09, CHR 0x0A, CHR 0x0B, CHR 0x0C, CHR 0x0D,
     CHR 0x1C, CHR 0x1D, CHR 0x1E, CHR 0x1F])"

text \<open>\<open>;.*\<close> is removed.\<close>

fun strip_comments :: "bool \<Rightarrow> string \<Rightarrow> string" where
  "strip_comments skip [] = []"
| "strip_comments skip (c # cs) =
     (if c = CHR 0x0A then c # strip_comments False cs
      else if skip \<or> c = CHR '';'' then strip_comments True cs
      else c # strip_comments False cs)"

text \<open>\<open>add_string\<close>: a quoted piece is replaced by \<open>{n}\<close> and kept as the escaped text.\<close>

definition str_key :: "nat \<Rightarrow> string" where
  "str_key n = ''{'' @ show_nat n @ ''}''"

definition hex_digit :: "nat \<Rightarrow> char" where
  "hex_digit d = ''0123456789abcdef'' ! d"

definition json_esc :: "char \<Rightarrow> string" where
  "json_esc c = (case map_of [(CHR 0x22, CHR 0x22), (CHR 0x5C, CHR 0x5C), (CHR 0x0A, CHR ''n''),
        (CHR 0x0D, CHR ''r''), (CHR 0x09, CHR ''t''), (CHR 0x08, CHR ''b''), (CHR 0x0C, CHR ''f'')] c of
       Some d \<Rightarrow> [CHR 0x5C, d]
     | None \<Rightarrow> (let n = of_char c :: nat in
         if n < 32 \<or> n = 127 then [CHR 0x5C] @ ''u00'' @ [hex_digit (n div 16), hex_digit (n mod 16)]
         else [c]))"

definition json_escape :: "string \<Rightarrow> string" where
  "json_escape s = concat (map json_esc s)"

text \<open>The pieces between bars.\<close>

function bar_strings :: "string list \<Rightarrow> string \<Rightarrow> string list \<times> string" where
  "bar_strings strs [] = (strs, [])"
| "bar_strings strs (c # cs) =
     (if c = CHR ''|''
      then case split_once CHR ''|'' cs of
          Some (a, b) \<Rightarrow>
            (let (strs', r) = bar_strings (strs @ [json_escape (''|'' @ a @ ''|'')]) b
             in (strs', str_key (length strs) @ r))
        | None \<Rightarrow> (let (strs', r) = bar_strings strs cs in (strs', c # r))
      else (let (strs', r) = bar_strings strs cs in (strs', c # r)))"
  by pat_completeness auto
termination
  by (relation "measure (\<lambda>(_, s). length s)") (auto dest!: split_once_Some)

text \<open>The rest of a double-quoted literal, up to its closing quote.\<close>

fun match_quote :: "string \<Rightarrow> (string \<times> string) option" where
  "match_quote [] = None"
| "match_quote (c # cs) =
     (if c = CHR 0x22 then Some ([c], cs)
      else if c = CHR 0x5C then
        (case cs of [] \<Rightarrow> None
         | d # ds \<Rightarrow> map_option (\<lambda>(a, b). (c # d # a, b)) (match_quote ds))
      else map_option (\<lambda>(a, b). (c # a, b)) (match_quote cs))"

lemma match_quote_shorter: "match_quote s = Some (a, b) \<Longrightarrow> length b < length s"
proof (induction s arbitrary: a rule: match_quote.induct)
  case (2 c cs)
  then show ?case by (cases cs) (fastforce split: if_splits)+
qed simp

function quote_strings :: "string list \<Rightarrow> string \<Rightarrow> string list \<times> string" where
  "quote_strings strs [] = (strs, [])"
| "quote_strings strs (c # cs) =
     (if c = CHR 0x22
      then case match_quote cs of
          Some (a, b) \<Rightarrow>
            (let (strs', r) = quote_strings (strs @ [json_escape (c # a)]) b
             in (strs', str_key (length strs) @ r))
        | None \<Rightarrow> (let (strs', r) = quote_strings strs cs in (strs', c # r))
      else (let (strs', r) = quote_strings strs cs in (strs', c # r)))"
  by pat_completeness auto
termination
  by (relation "measure (\<lambda>(_, s). length s)") (auto dest!: match_quote_shorter)

text \<open>A maximal run of other characters becomes a quoted token and a comma.\<close>

definition token :: "string \<Rightarrow> string" where
  "token w = (if w = [] then [] else [CHR 0x22] @ w @ [CHR 0x22] @ '', '')"

fun quote_words :: "string \<Rightarrow> string \<Rightarrow> string" where
  "quote_words w [] = token w"
| "quote_words w (c # cs) =
     (if c = CHR 0x22 \<or> is_space c \<or> c = CHR ''('' \<or> c = CHR '')'' then token w @ c # quote_words [] cs
      else quote_words (w @ [c]) cs)"

text \<open>\<open>,\s*\)\<close> becomes \<open>)\<close>; \<open>\)\s*[(]\<close> becomes \<open>), (\<close>.\<close>

definition after_spaces :: "string \<Rightarrow> string" where
  "after_spaces s = dropWhile is_space s"

lemma after_spaces_le: "length (after_spaces s) \<le> length s"
  by (simp add: after_spaces_def length_dropWhile_le)

lemma less_Suc_minus: "a \<le> b \<Longrightarrow> a - k < Suc b"
  by simp

function drop_commas :: "string \<Rightarrow> string" where
  "drop_commas [] = []"
| "drop_commas (c # cs) =
     (if c = CHR '','' \<and> take 1 (after_spaces cs) = '')''
      then CHR '')'' # drop_commas (drop 1 (after_spaces cs)) else c # drop_commas cs)"
  by pat_completeness auto
termination
  by (relation "measure length") (auto intro: less_Suc_minus after_spaces_le)

function join_lists :: "string \<Rightarrow> string" where
  "join_lists [] = []"
| "join_lists (c # cs) =
     (if c = CHR '')'' \<and> take 1 (after_spaces cs) = ''(''
      then ''), ('' @ join_lists (drop 1 (after_spaces cs)) else c # join_lists cs)"
  by pat_completeness auto
termination
  by (relation "measure length") (auto intro: less_Suc_minus after_spaces_le)

text \<open>A closing parenthesis that no comma or parenthesis follows gets a comma.\<close>

fun close_lists :: "string \<Rightarrow> string" where
  "close_lists [] = []"
| "close_lists (c # cs) =
     (if c = CHR '')'' \<and> take 1 (after_spaces cs) \<notin> {'','', '')''}
      then ''), '' @ close_lists cs else c # close_lists cs)"

fun drop_last_comma :: "string \<Rightarrow> string" where
  "drop_last_comma [] = []"
| "drop_last_comma (c # cs) = (if c = CHR '','' \<and> after_spaces cs = [] then [] else c # drop_last_comma cs)"

definition bracket :: "char \<Rightarrow> char" where
  "bracket c = (if c = CHR ''('' then CHR ''['' else if c = CHR '')'' then CHR '']'' else c)"

text \<open>The kept strings come back; a number that was never a key is a \<open>KeyError\<close>.\<close>

definition is_digit :: "char \<Rightarrow> bool" where
  "is_digit c = (48 \<le> (of_char c :: nat) \<and> (of_char c :: nat) \<le> 57)"

function put_strings :: "string dict \<Rightarrow> string \<Rightarrow> exc + string" where
  "put_strings d [] = Inr []"
| "put_strings d (c # cs) =
     (if c = CHR ''{'' \<and> take 1 (dropWhile is_digit cs) = ''}''
      then case map_of d (''{'' @ takeWhile is_digit cs @ ''}'') of None \<Rightarrow> Inl KeyError
        | Some s \<Rightarrow> map_sum id (\<lambda>r. s @ r) (put_strings d (drop 1 (dropWhile is_digit cs)))
      else map_sum id (\<lambda>r. c # r) (put_strings d cs))"
  by pat_completeness auto
termination
  by (relation "measure (\<lambda>(_, s). length s)") (auto intro: less_Suc_minus length_dropWhile_le)

section \<open>\<open>json.loads\<close> on strings and arrays\<close>

definition json_space :: "char \<Rightarrow> bool" where
  "json_space c = (c \<in> set [CHR '' '', CHR 0x09, CHR 0x0A, CHR 0x0D])"

definition hex_val :: "char \<Rightarrow> nat option" where
  "hex_val c = (let n = of_char c :: nat in
     if 48 \<le> n \<and> n \<le> 57 then Some (n - 48)
     else if 97 \<le> n \<and> n \<le> 102 then Some (n - 87)
     else if 65 \<le> n \<and> n \<le> 70 then Some (n - 55) else None)"

text \<open>The UTF-8 text of a code point of the basic plane.\<close>

definition utf8_of :: "nat \<Rightarrow> string" where
  "utf8_of n = (if n < 0x80 then [char_of n]
     else if n < 0x800 then [char_of (0xC0 + n div 64), char_of (0x80 + n mod 64)]
     else [char_of (0xE0 + n div 4096), char_of (0x80 + n div 64 mod 64), char_of (0x80 + n mod 64)])"

fun json_string :: "string \<Rightarrow> (string \<times> string) option" where
  "json_string [] = None"
| "json_string (c # cs) =
     (if c = CHR 0x22 then Some ([], cs)
      else if c = CHR 0x5C then
        (case cs of [] \<Rightarrow> None
         | d # ds \<Rightarrow>
            if d = CHR ''u'' then
              (case ds of a # b # e # f # r \<Rightarrow>
                 (case (hex_val a, hex_val b, hex_val e, hex_val f) of
                    (Some a', Some b', Some e', Some f') \<Rightarrow>
                      map_option (\<lambda>(s, t). (utf8_of (((a' * 16 + b') * 16 + e') * 16 + f') @ s, t)) (json_string r)
                  | _ \<Rightarrow> None)
               | _ \<Rightarrow> None)
            else (case map_of [(CHR 0x22, CHR 0x22), (CHR 0x5C, CHR 0x5C), (CHR ''/'', CHR ''/''),
                    (CHR ''b'', CHR 0x08), (CHR ''f'', CHR 0x0C), (CHR ''n'', CHR 0x0A),
                    (CHR ''r'', CHR 0x0D), (CHR ''t'', CHR 0x09)] d of
                None \<Rightarrow> None
              | Some e \<Rightarrow> map_option (\<lambda>(s, t). (e # s, t)) (json_string ds)))
      else if (of_char c :: nat) < 32 then None
      else map_option (\<lambda>(s, t). (c # s, t)) (json_string cs))"

text \<open>A value, and the items of an array after the first; the fuel is the length of the text,
  and each call is for a shorter rest.\<close>

fun json_value :: "nat \<Rightarrow> string \<Rightarrow> (jval \<times> string) option"
  and json_items :: "nat \<Rightarrow> string \<Rightarrow> (jval list \<times> string) option" where
  "json_value 0 s = None"
| "json_value (Suc k) s =
     (case s of [] \<Rightarrow> None
      | c # cs \<Rightarrow>
          if c = CHR 0x22 then map_option (\<lambda>(v, r). (JStr v, r)) (json_string cs)
          else if c = CHR ''['' then
            (case dropWhile json_space cs of
               [] \<Rightarrow> None
             | d # ds \<Rightarrow> if d = CHR '']'' then Some (JArr [], ds)
                 else map_option (\<lambda>(vs, r). (JArr vs, r)) (json_items k (d # ds)))
          else None)"
| "json_items 0 s = None"
| "json_items (Suc k) s =
     (case json_value k s of None \<Rightarrow> None
      | Some (v, r) \<Rightarrow>
          (case dropWhile json_space r of [] \<Rightarrow> None
           | d # ds \<Rightarrow> if d = CHR '']'' then Some ([v], ds)
               else if d = CHR '','' then
                 map_option (\<lambda>(vs, r'). (v # vs, r')) (json_items k (dropWhile json_space ds))
               else None))"

definition json_loads :: "string \<Rightarrow> exc + jval" where
  "json_loads s = (let t = dropWhile json_space s in
     case json_value (Suc (2 * length t)) t of
       Some (v, r) \<Rightarrow> (if list_all json_space r then Inr v else Inl ValueError)
     | None \<Rightarrow> Inl ValueError)"

section \<open>The two translations\<close>

definition smt2json_text :: "string \<Rightarrow> exc + string" where
  "smt2json_text smt =
     (let s0 = strip_comments False (''('' @ smt @ '')'');
          (bars, s1) = bar_strings [] s0;
          (strs, s2) = quote_strings bars s1;
          s3 = drop_commas (quote_words [] s2);
          s4 = drop_last_comma (close_lists (join_lists s3));
          s5 = map bracket s4
      in put_strings (zip (map str_key [0..<length strs]) strs) s5)"

definition smt2json :: "string \<Rightarrow> exc + jval" where
  "smt2json smt = (case smt2json_text smt of Inl e \<Rightarrow> Inl e | Inr s \<Rightarrow> json_loads s)"

fun smt_of :: "jval \<Rightarrow> string" where
  "smt_of (JStr s) = s"
| "smt_of (JArr xs) = ''('' @ join '' '' (map smt_of xs) @ '')''"

definition json2smt :: "jval list \<Rightarrow> string" where
  "json2smt obj = join [CHR 0x0A] (map smt_of obj)"

end
