(* ===== verification/SmtJsonPasses.thy ===== *)
theory SmtJsonPasses
  imports SmtJson
begin

text \<open>
  \<open>smt2json\<close> reads back what \<open>json2smt\<close> prints. The printed text is a stream of tokens; each regular-expression pass of
  \<open>smt2json\<close> changes how the stream is written (\<open>out\<close>, by the number of passes that are done), and the last writing is
  JSON, which the decoder reads in \<open>SmtJsonSpec\<close>.
\<close>

section \<open>Words\<close>

text \<open>A word of a script: a symbol, a symbol between bars, or a string literal (which ends at its first quote without a
  backslash); in ASCII, and without a semicolon, since comments are removed first of all.\<close>

definition plain_char :: "char \<Rightarrow> bool" where
  "plain_char c = (\<not> is_space c \<and> 32 \<le> (of_char c :: nat) \<and> (of_char c :: nat) < 127 \<and> c \<notin> set ''()|,;{}'' \<and> c \<noteq> CHR 0x22 \<and> c \<noteq> CHR 0x5C)"

definition plain_word :: "string \<Rightarrow> bool" where
  "plain_word w = (w \<noteq> [] \<and> list_all plain_char w)"

definition ascii_word :: "string \<Rightarrow> bool" where
  "ascii_word w = list_all (\<lambda>c. (of_char c :: nat) < 128 \<and> c \<noteq> CHR '';'') w"

definition bar_word :: "string \<Rightarrow> bool" where
  "bar_word w = (ascii_word w \<and> take 1 w = ''|'' \<and> map_option snd (split_once CHR ''|'' (drop 1 w)) = Some [])"

definition quote_word :: "string \<Rightarrow> bool" where
  "quote_word w = (ascii_word w \<and> CHR ''|'' \<notin> set w \<and> take 1 w = [CHR 0x22] \<and> match_quote (drop 1 w) = Some (drop 1 w, []))"

definition word_ok :: "string \<Rightarrow> bool" where
  "word_ok w = (plain_word w \<or> bar_word w \<or> quote_word w)"

primrec words_of :: "jval \<Rightarrow> string set" where
  "words_of (JStr w) = {w}"
| "words_of (JArr xs) = \<Union> (set (map words_of xs))"

section \<open>The stream of tokens\<close>

datatype tok = LP | RP | Sep char | Word string

fun sep_join :: "tok \<Rightarrow> tok list list \<Rightarrow> tok list" where
  "sep_join s [] = []"
| "sep_join s [x] = x"
| "sep_join s (x # y # zs) = x @ s # sep_join s (y # zs)"

fun toks :: "jval \<Rightarrow> tok list" where
  "toks (JStr w) = [Word w]"
| "toks (JArr xs) = LP # sep_join (Sep CHR '' '') (map toks xs) @ [RP]"

definition top_toks :: "jval list \<Rightarrow> tok list" where
  "top_toks xs = LP # sep_join (Sep CHR 0x0A) (map toks xs) @ [RP]"

text \<open>Where the stream is cut into characters: separators stand between a word or a list and a word or a list.\<close>

definition opens :: "tok list \<Rightarrow> bool" where
  "opens ts = (case ts of LP # _ \<Rightarrow> True | Word _ # _ \<Rightarrow> True | _ \<Rightarrow> False)"

fun stream :: "tok list \<Rightarrow> bool" where
  "stream [] = True"
| "stream (LP # ts) = ((opens ts \<or> (\<exists>r. ts = RP # r)) \<and> stream ts)"
| "stream (Sep c # ts) = (json_space c \<and> opens ts \<and> stream ts)"
| "stream (Word w # ts) = ((\<exists>c r. ts = Sep c # r \<or> ts = RP # r) \<and> stream ts)"
| "stream (RP # ts) = ((ts = [] \<or> (\<exists>c r. ts = Sep c # r \<or> ts = RP # r)) \<and> stream ts)"

definition next_RP :: "tok list \<Rightarrow> bool" where
  "next_RP ts = (case ts of RP # _ \<Rightarrow> True | _ \<Rightarrow> False)"

definition next_list :: "tok list \<Rightarrow> bool" where
  "next_list ts = (case ts of Sep _ # LP # _ \<Rightarrow> True | _ \<Rightarrow> False)"

text \<open>The text after \<open>k\<close> passes: 1 has the (\<lambda>w. w) words, 2 quotes them, 3 drops the comma before a parenthesis, 4 puts one
  between lists, 5 one after the other lists, 6 drops the last one, 7 has brackets.\<close>

definition par :: "nat \<Rightarrow> char \<Rightarrow> char \<Rightarrow> char" where
  "par k p b = (if 7 \<le> k then b else p)"

definition word_text :: "nat \<Rightarrow> bool \<Rightarrow> string \<Rightarrow> string" where
  "word_text k last' w = (if k < 2 then w else CHR 0x22 # w @ CHR 0x22 # (if 3 \<le> k \<and> last' then [] else '', ''))"

function out :: "nat \<Rightarrow> (string \<Rightarrow> string) \<Rightarrow> tok list \<Rightarrow> string" where
  "out k f [] = []"
| "out k f (LP # ts) = par k CHR ''('' CHR ''['' # out k f ts"
| "out k f (Sep c # ts) = c # out k f ts"
| "out k f (Word w # ts) = word_text k (next_RP ts) (f w) @ out k f ts"
| "out k f (RP # ts) = par k CHR '')'' CHR '']'' #
     (if 4 \<le> k \<and> next_list ts then '', '' @ out k f (tl ts)
      else (if k < 5 \<or> next_RP ts \<or> (ts = [] \<and> 6 \<le> k) then [] else '', '') @ out k f ts)"
  by pat_completeness auto
termination by (relation "measure (\<lambda>(_, _, ts). length ts)") auto

section \<open>The stream of a tree\<close>

lemma toks_opens [simp]: "opens (toks t @ r)"
  by (cases t) (simp_all add: opens_def)

lemma toks_nonempty [simp]: "toks t \<noteq> []"
  by (cases t) simp_all

lemma sep_join_Cons: "xs \<noteq> [] \<Longrightarrow> sep_join s (x # xs) = x @ s # sep_join s xs"
  by (cases xs) simp_all

lemma stream_sep_join:
  assumes "\<And>t r. t \<in> set ts \<Longrightarrow> stream r \<Longrightarrow> (\<exists>c r'. r = Sep c # r' \<or> r = RP # r') \<Longrightarrow> stream (toks t @ r)"
    and "json_space c" and "stream (RP # r)"
  shows "stream (sep_join (Sep c) (map toks ts) @ RP # r)"
  using assms(1)
proof (induction ts)
  case (Cons t ts)
  show ?case
  proof (cases "ts = []")
    case True
    with Cons.prems assms(3) show ?thesis by simp
  next
    case False
    then have "opens (sep_join (Sep c) (map toks ts) @ RP # r)" by (cases ts rule: list.exhaust) (cases "tl ts"; simp)+
    moreover have "stream (sep_join (Sep c) (map toks ts) @ RP # r)" using Cons by auto
    ultimately have "stream (Sep c # sep_join (Sep c) (map toks ts) @ RP # r)" using assms(2) by simp
    with Cons.prems False show ?thesis by (simp add: sep_join_Cons)
  qed
qed (use assms(3) in simp)

lemma stream_toks: "stream r \<Longrightarrow> (r = [] \<longrightarrow> (\<exists>xs. t = JArr xs)) \<Longrightarrow> r = [] \<or> (\<exists>c r'. r = Sep c # r' \<or> r = RP # r') \<Longrightarrow> stream (toks t @ r)"
proof (induction t arbitrary: r)
  case (JArr xs)
  then have "stream (RP # r)" by auto
  have "stream (sep_join (Sep CHR '' '') (map toks xs) @ RP # r)"
    by (rule stream_sep_join) (use JArr \<open>stream (RP # r)\<close> in \<open>auto simp: json_space_def\<close>)
  moreover have "opens (sep_join (Sep CHR '' '') (map toks xs) @ RP # r) \<or> xs = []"
    by (cases xs; cases "tl xs") auto
  ultimately show ?case by auto
qed auto

section \<open>The passes\<close>

definition clean :: "string \<Rightarrow> bool" where
  "clean w = (w \<noteq> [] \<and> list_all (\<lambda>c. c \<noteq> CHR 0x22 \<and> \<not> is_space c \<and> c \<notin> set ''(),'') w)"

definition all_words :: "(string \<Rightarrow> bool) \<Rightarrow> tok list \<Rightarrow> bool" where
  "all_words P ts = (\<forall>w. Word w \<in> set ts \<longrightarrow> P w)"

lemma all_words_simps [simp]:
  "all_words P []" "all_words P (Word w # ts) \<longleftrightarrow> P w \<and> all_words P ts" "all_words P (LP # ts) = all_words P ts"
  "all_words P (RP # ts) = all_words P ts" "all_words P (Sep c # ts) = all_words P ts"
  "all_words P (ts @ us) \<longleftrightarrow> all_words P ts \<and> all_words P us"
  by (auto simp: all_words_def)

lemma json_space_is_space: "json_space c \<Longrightarrow> is_space c"
  by (auto simp: json_space_def is_space_def)

lemma json_space_char: "json_space c \<Longrightarrow> c \<noteq> CHR '')'' \<and> c \<noteq> CHR ''('' \<and> c \<noteq> CHR '','' \<and> c \<noteq> CHR 0x22 \<and> c \<noteq> CHR ''|'' \<and> c \<noteq> CHR ''{'' \<and> c \<noteq> CHR '';''"
  by (auto simp: json_space_def)

lemmas next_simps = next_RP_def next_list_def opens_def par_def word_text_def

lemma quote_words_run:
  assumes "list_all (\<lambda>c. c \<noteq> CHR 0x22 \<and> \<not> is_space c \<and> c \<notin> set ''(),'') u" and "is_space c \<or> c = CHR '')''"
  shows "quote_words w (u @ c # s) = token (w @ u) @ c # quote_words [] s"
  using assms(1) by (induction u arbitrary: w) (use assms(2) in auto)

lemma words_quoted: "stream ts \<Longrightarrow> all_words clean ts \<Longrightarrow> quote_words [] (out 1 (\<lambda>w. w) ts) = out 2 (\<lambda>w. w) ts"
proof (induction ts rule: stream.induct)
  case (4 w ts)
  have "\<exists>c r. out 1 (\<lambda>w. w) ts = c # r \<and> (is_space c \<or> c = CHR '')'')"
    using "4.prems"(1) by (auto simp: next_simps dest: json_space_is_space)
  then obtain c r where c: "out 1 (\<lambda>w. w) ts = c # r" "is_space c \<or> c = CHR '')''" by blast
  have run: "quote_words [] (w @ c # r) = token w @ c # quote_words [] r"
    using "4.prems"(2) quote_words_run [OF _ c(2), of w "[]" r] by (simp add: clean_def)
  have "quote_words [] (c # r) = c # quote_words [] r" using c(2) by (auto simp: token_def)
  moreover have "w \<noteq> []" using "4.prems"(2) by (simp add: clean_def)
  ultimately show ?case using 4 c run by (simp add: word_text_def token_def del: quote_words.simps)
qed (auto simp: next_simps token_def dest: json_space_is_space json_space_char)

lemma drop_commas_run: "CHR '','' \<notin> set u \<Longrightarrow> drop_commas (u @ s) = u @ drop_commas s"
  by (induction u) auto

lemma after_opens: "stream ts \<Longrightarrow> opens ts \<Longrightarrow> k \<ge> 2 \<Longrightarrow> k < 7 \<Longrightarrow> \<exists>c r. out k f ts = c # r \<and> (c = CHR ''('' \<and> (\<exists>us. ts = LP # us) \<or> c = CHR 0x22 \<and> (\<exists>w us. ts = Word w # us))"
  by (cases ts rule: stream.cases) (auto simp: next_simps)

lemma clean_quoted: "clean w \<Longrightarrow> set (CHR 0x22 # w @ [CHR 0x22]) \<inter> set ''(),'' = {}"
  by (auto simp: clean_def list_all_iff)

lemma commas_dropped: "stream ts \<Longrightarrow> all_words clean ts \<Longrightarrow> drop_commas (out 2 (\<lambda>w. w) ts) = out 3 (\<lambda>w. w) ts"
proof (induction ts rule: stream.induct)
  case (4 w ts)
  then have "clean w" by simp
  from clean_quoted [OF this] have w: "CHR '','' \<notin> set (CHR 0x22 # w @ [CHR 0x22])" by auto
  from 4 consider c r where "ts = Sep c # r" | r where "ts = RP # r" by auto
  then show ?case
  proof cases
    case 1
    with 4 have "stream r" "opens r" "json_space c" by auto
    then obtain d u where d: "out 2 (\<lambda>w. w) r = d # u" "d = CHR ''('' \<or> d = CHR 0x22" using after_opens [of r 2 "\<lambda>w. w"] by auto
    have "drop_commas ('', '' @ out 2 (\<lambda>w. w) ts) = '', '' @ drop_commas (out 2 (\<lambda>w. w) ts)"
      using 1 d json_space_is_space [OF \<open>json_space c\<close>] by (auto simp: after_spaces_def is_space_def)
    with 1 4 drop_commas_run [OF w, of "'', '' @ out 2 (\<lambda>w. w) ts"] show ?thesis by (simp add: next_simps)
  next
    case 2
    have "drop_commas ('', '' @ out 2 (\<lambda>w. w) ts) = drop_commas (out 2 (\<lambda>w. w) ts)"
      using 2 by (simp add: after_spaces_def is_space_def next_simps)
    with 2 4 drop_commas_run [OF w, of "'', '' @ out 2 (\<lambda>w. w) ts"] show ?thesis by (simp add: next_simps)
  qed
qed (auto simp: next_simps dest: json_space_char)

lemma join_lists_run: "CHR '')'' \<notin> set u \<Longrightarrow> join_lists (u @ s) = u @ join_lists s"
  by (induction u) auto

lemma close_lists_run: "CHR '')'' \<notin> set u \<Longrightarrow> close_lists (u @ s) = u @ close_lists s"
  by (induction u) auto

lemma word_text_closed: "clean w \<Longrightarrow> CHR '')'' \<notin> set (word_text k b w)"
  using clean_quoted [of w] by (auto simp: word_text_def)

lemma after_spaces_Cons [simp]: "after_spaces [] = []" "after_spaces (c # s) = (if is_space c then after_spaces s else c # s)"
  by (simp_all add: after_spaces_def)

lemma word_text_same: "word_text 4 b w = word_text 3 b w" "word_text 5 b w = word_text 3 b w" "word_text 6 b w = word_text 3 b w"
  "word_text 7 b w = word_text 3 b w"
  by (simp_all add: word_text_def)

text \<open>What a separator leads to.\<close>

lemma after_sep:
  assumes "stream (Sep c # ts)" and "k \<ge> 2" and "k < 7"
  shows "(\<exists>us. ts = LP # us \<and> after_spaces (c # out k f ts) = CHR ''('' # out k f us)
    \<or> (\<exists>w us r. ts = Word w # us \<and> after_spaces (c # out k f ts) = CHR 0x22 # r)"
  using assms by (cases ts rule: stream.cases) (auto simp: next_simps is_space_def json_space_is_space dest: json_space_is_space)

lemma lists_joined: "stream ts \<Longrightarrow> all_words clean ts \<Longrightarrow> join_lists (out 3 (\<lambda>w. w) ts) = out 4 (\<lambda>w. w) ts"
proof (induction ts rule: stream.induct)
  case (4 w ts)
  with join_lists_run [OF word_text_closed, of w] show ?case by (simp add: word_text_same)
next
  case (5 ts)
  then consider "ts = []" | r where "ts = RP # r" | c r where "ts = Sep c # r" by auto
  then show ?case
  proof cases
    case 3
    with 5 have "stream (Sep c # r)" "json_space c" by auto
    from after_sep [OF this(1), of 3 "\<lambda>w. w"] 3 5 json_space_char [OF this(2)] show ?thesis
      by (auto simp: next_simps)
  qed (use 5 in \<open>simp_all add: next_simps is_space_def\<close>)
qed (auto simp: next_simps dest: json_space_char)

lemma lists_closed: "stream ts \<Longrightarrow> all_words clean ts \<Longrightarrow> close_lists (out 4 (\<lambda>w. w) ts) = out 5 (\<lambda>w. w) ts"
proof (induction ts rule: stream.induct)
  case (4 w ts)
  with close_lists_run [OF word_text_closed, of w] show ?case by (simp add: word_text_same)
next
  case (5 ts)
  then consider "ts = []" | r where "ts = RP # r" | c r where "ts = Sep c # r" by auto
  then show ?case
  proof cases
    case 3
    with 5 have "stream (Sep c # r)" "json_space c" by auto
    note c = this json_space_char [OF this(2)] json_space_is_space [OF this(2)]
    from 5 have IH: "close_lists (out 4 (\<lambda>w. w) ts) = out 5 (\<lambda>w. w) ts" by simp
    have "2 \<le> (4::nat)" "(4::nat) < 7" by simp_all
    from after_sep [OF c(1) this, of "\<lambda>w. w"]
    consider us where "r = LP # us" | w us s where "r = Word w # us" "after_spaces (c # out 4 (\<lambda>w. w) r) = CHR 0x22 # s" by blast
    then show ?thesis
    proof cases
      case 1
      with 3 IH c(3) show ?thesis by (simp add: next_simps is_space_def)
    next
      case 2
      have "take 1 (after_spaces (out 4 (\<lambda>w. w) ts)) = [CHR 0x22]" using 2 3 by simp
      moreover have "\<not> next_list ts" "\<not> next_RP ts" "ts \<noteq> []" using 2(1) 3 by (simp_all add: next_simps)
      ultimately show ?thesis using IH by (simp add: par_def)
    qed
  qed (use 5 in \<open>simp_all add: next_simps is_space_def\<close>)
qed (auto simp: next_simps dest: json_space_char)

lemma drop_last_comma_end: "drop_last_comma (v @ ''), '') = v @ '')''"
proof (induction v)
  case (Cons c v)
  have "after_spaces (v @ ''), '') \<noteq> []" by (induction v) (auto simp: is_space_def)
  with Cons show ?case by simp
qed (simp add: is_space_def)

lemma out_ends_list:
  assumes "next_list us" and "\<exists>v. out 5 f (tl us) = v @ ''), '' \<and> out 6 f (tl us) = v @ '')''"
  shows "\<exists>v. out 5 f (RP # us) = v @ ''), '' \<and> out 6 f (RP # us) = v @ '')''"
proof -
  from assms(2) obtain v where v: "out 5 f (tl us) = v @ ''), ''" "out 6 f (tl us) = v @ '')''" by blast
  show ?thesis by (rule exI [of _ "''), '' @ v"]) (use v assms(1) in \<open>simp add: par_def\<close>)
qed

lemma out_ends_rest:
  assumes "\<not> next_list us" "us \<noteq> []" and "\<exists>v. out 5 f us = v @ ''), '' \<and> out 6 f us = v @ '')''"
  shows "\<exists>v. out 5 f (t # us) = v @ ''), '' \<and> out 6 f (t # us) = v @ '')''"
proof -
  from assms(3) obtain v where v: "out 5 f us = v @ ''), ''" "out 6 f us = v @ '')''" by blast
  show ?thesis
    by (rule exI [of _ "(case t of LP \<Rightarrow> ''('' | RP \<Rightarrow> '')'' @ (if next_RP us then [] else '', '')
        | Sep c \<Rightarrow> [c] | Word w \<Rightarrow> word_text 6 (next_RP us) (f w)) @ v"])
      (use v assms(1,2) in \<open>simp add: par_def word_text_def split: tok.split\<close>)
qed

lemma out_ends: "ts \<noteq> [] \<Longrightarrow> last ts = RP \<Longrightarrow> \<exists>v. out 5 f ts = v @ ''), '' \<and> out 6 f ts = v @ '')''"
proof (induction ts rule: length_induct)
  case (1 ts)
  then obtain t us where ts: "ts = t # us" by (cases ts) auto
  consider "us = []" | "us \<noteq> []" "t = RP" "next_list us" | "us \<noteq> []" "t = RP" "\<not> next_list us" | "us \<noteq> []" "t \<noteq> RP" by blast
  then show ?case
  proof cases
    case 1
    with ts "1.prems" have "ts = [RP]" by simp
    then show ?thesis by (simp add: next_simps)
  next
    case 2
    then have "tl us \<noteq> []" by (auto simp: next_list_def split: list.splits tok.splits)
    with 1 ts 2 have "\<exists>v. out 5 f (tl us) = v @ ''), '' \<and> out 6 f (tl us) = v @ '')''" by (simp add: last_tl)
    with 2 ts out_ends_list show ?thesis by blast
  next
    case 3
    with 1 ts have "\<exists>v. out 5 f us = v @ ''), '' \<and> out 6 f us = v @ '')''" by simp
    with 3 ts out_ends_rest show ?thesis by blast
  next
    case 4
    with 1 ts have "\<exists>v. out 5 f us = v @ ''), '' \<and> out 6 f us = v @ '')''" by simp
    then obtain v where v: "out 5 f us = v @ ''), ''" "out 6 f us = v @ '')''" by blast
    show ?thesis unfolding ts
      by (rule exI [of _ "(case t of LP \<Rightarrow> ''('' | RP \<Rightarrow> [] | Sep c \<Rightarrow> [c] | Word w \<Rightarrow> word_text 6 (next_RP us) (f w)) @ v"])
        (use v 4 in \<open>simp add: par_def word_text_def split: tok.split\<close>)
  qed
qed

lemma bracket_clean: "CHR ''('' \<notin> set u \<Longrightarrow> CHR '')'' \<notin> set u \<Longrightarrow> map bracket u = u"
  by (induction u) (auto simp: bracket_def)

lemma brackets: "stream ts \<Longrightarrow> all_words clean ts \<Longrightarrow> map bracket (out 6 (\<lambda>w. w) ts) = out 7 (\<lambda>w. w) ts"
proof (induction ts rule: stream.induct)
  case (4 w ts)
  then have "map bracket (word_text 3 (next_RP ts) w) = word_text 3 (next_RP ts) w"
    by (intro bracket_clean word_text_closed) (auto simp: word_text_def clean_def list_all_iff)
  with 4 show ?case by (simp add: word_text_same)
next
  case (5 ts)
  then consider "ts = []" | r where "ts = RP # r" | c r where "ts = Sep c # r" by auto
  then show ?case
  proof cases
    case 3
    with 5 have "stream (Sep c # r)" "json_space c" by auto
    from after_sep [OF this(1), of 6 "\<lambda>w. w"] 3 5 json_space_char [OF this(2)] show ?thesis
      by (auto simp: next_simps bracket_def)
  qed (use 5 in \<open>simp_all add: next_simps bracket_def\<close>)
qed (auto simp: next_simps bracket_def dest: json_space_char)

text \<open>All of them.\<close>

lemma passes:
  assumes "stream ts" "all_words clean ts" "ts \<noteq> []" "last ts = RP"
  shows "map bracket (drop_last_comma (close_lists (join_lists (drop_commas (quote_words [] (out 1 (\<lambda>w. w) ts))))))
    = out 7 (\<lambda>w. w) ts"
proof -
  obtain v where v: "out 5 (\<lambda>w. w) ts = v @ ''), ''" "out 6 (\<lambda>w. w) ts = v @ '')''" using out_ends [OF assms(3,4)] by blast
  have "drop_last_comma (out 5 (\<lambda>w. w) ts) = out 6 (\<lambda>w. w) ts" unfolding v by (rule drop_last_comma_end)
  with assms(1,2) show ?thesis by (simp only: words_quoted commas_dropped lists_joined lists_closed brackets)
qed

end
