(* ===== verification/SmtJsonSpec.thy ===== *)
theory SmtJsonSpec
  imports SmtJsonPasses
begin

text \<open>
  The second part of the round trip of \<open>json2smt\<close> and \<open>smt2json\<close>: the stream with keys in place of the kept strings
  (\<open>key\<close>), how it stands for the original stream (\<open>coded\<close>), the decoder on the last writing (\<open>reads\<close>), and the
  property itself.
\<close>

section \<open>The kept strings\<close>

definition starts :: "char \<Rightarrow> string \<Rightarrow> bool" where
  "starts c w = (take 1 w = [c])"

fun key :: "char \<Rightarrow> nat \<Rightarrow> tok list \<Rightarrow> tok list" where
  "key c n [] = []"
| "key c n (Word w # ts) = (if starts c w then Word (str_key n) # key c (Suc n) ts else Word w # key c n ts)"
| "key c n (t # ts) = t # key c n ts"

fun picked :: "char \<Rightarrow> tok list \<Rightarrow> string list" where
  "picked c [] = []"
| "picked c (Word w # ts) = (if starts c w then w # picked c ts else picked c ts)"
| "picked c (t # ts) = picked c ts"

lemma next_key [simp]: "next_RP (key c n ts) = next_RP ts" "opens (key c n ts) = opens ts" "key c n ts = [] \<longleftrightarrow> ts = []"
  by (cases ts rule: stream.cases; simp add: next_simps)+

lemma key_sep: "(\<exists>d r. key c n ts = Sep d # r \<or> key c n ts = RP # r) = (\<exists>d r. ts = Sep d # r \<or> ts = RP # r)"
  "(\<exists>r. key c n ts = RP # r) = (\<exists>r. ts = RP # r)"
  by (cases ts rule: stream.cases; simp)+

lemma stream_key: "stream ts \<Longrightarrow> stream (key c n ts)"
  by (induction ts arbitrary: n rule: stream.induct) (simp_all add: key_sep)

lemma last_key: "ts \<noteq> [] \<Longrightarrow> last ts = RP \<Longrightarrow> last (key c n ts) = RP"
  by (induction ts arbitrary: n rule: stream.induct) (auto split: if_splits)

lemma all_words_key: "all_words P ts \<Longrightarrow> (\<And>w. P w \<Longrightarrow> \<not> starts c w \<Longrightarrow> Q w) \<Longrightarrow> (\<And>n. Q (str_key n)) \<Longrightarrow> all_words Q (key c n ts)"
  by (induction ts arbitrary: n rule: stream.induct) simp_all

lemma bar_strings_run: "CHR ''|'' \<notin> set u \<Longrightarrow> bar_strings strs (u @ s) = (let (a, r) = bar_strings strs s in (a, u @ r))"
  by (induction u) (auto simp: split: prod.splits)

lemma quote_strings_run: "CHR 0x22 \<notin> set u \<Longrightarrow> quote_strings strs (u @ s) = (let (a, r) = quote_strings strs s in (a, u @ r))"
  by (induction u) (auto simp: split: prod.splits)

lemma split_once_append: "split_once c u = Some (a, b) \<Longrightarrow> split_once c (u @ s) = Some (a, b @ s)"
  by (induction u arbitrary: a) (auto split: if_splits)

lemma match_quote_append: "match_quote u = Some (a, b) \<Longrightarrow> match_quote (u @ s) = Some (a, b @ s)"
proof (induction u arbitrary: a rule: match_quote.induct)
  case (2 c cs)
  then show ?case by (cases cs) (fastforce split: if_splits)+
qed simp

lemma bar_word_split:
  assumes "bar_word w"
  obtains u where "w = CHR ''|'' # u" "\<And>s. split_once CHR ''|'' (u @ s) = Some (butlast u, s)" "''|'' @ butlast u @ ''|'' = w"
proof -
  obtain u where w: "w = CHR ''|'' # u" using assms by (cases w) (auto simp: bar_word_def)
  with assms obtain a where a: "split_once CHR ''|'' u = Some (a, [])" by (auto simp: bar_word_def)
  from split_once_Some [OF a] split_once_append [OF a] have "u = a @ ''|''" "\<And>s. split_once CHR ''|'' (u @ s) = Some (butlast u, s)" by auto
  with w that show ?thesis by auto
qed

lemma bar_strings_out:
  "stream ts \<Longrightarrow> all_words (\<lambda>w. CHR ''|'' \<notin> set w \<or> bar_word w) ts \<Longrightarrow>
   bar_strings strs (out 1 (\<lambda>w. w) ts) = (strs @ map json_escape (picked CHR ''|'' ts), out 1 (\<lambda>w. w) (key CHR ''|'' (length strs) ts))"
proof (induction ts arbitrary: strs rule: stream.induct)
  case (4 w ts)
  show ?case
  proof (cases "bar_word w")
    case True
    then obtain u where u: "w = CHR ''|'' # u" "\<And>s. split_once CHR ''|'' (u @ s) = Some (butlast u, s)" "''|'' @ butlast u @ ''|'' = w"
      using bar_word_split by blast
    have "bar_strings strs (w @ s) = (let (a, r) = bar_strings (strs @ [json_escape w]) s in (a, str_key (length strs) @ r))" for s
      using u(2) [of s] u(3) by (simp add: u(1))
    with 4 True show ?thesis by (simp add: word_text_def starts_def bar_word_def)
  next
    case False
    with 4 have "CHR ''|'' \<notin> set w" by simp
    moreover from this have "\<not> starts CHR ''|'' w" by (cases w) (auto simp: starts_def)
    ultimately show ?thesis using 4 by (simp add: word_text_def bar_strings_run)
  qed
qed (auto simp: par_def dest: json_space_char)

lemma quote_strings_out:
  "stream ts \<Longrightarrow> all_words (\<lambda>w. CHR 0x22 \<notin> set w \<or> quote_word w) ts \<Longrightarrow>
   quote_strings strs (out 1 (\<lambda>w. w) ts) = (strs @ map json_escape (picked CHR 0x22 ts), out 1 (\<lambda>w. w) (key CHR 0x22 (length strs) ts))"
proof (induction ts arbitrary: strs rule: stream.induct)
  case (4 w ts)
  show ?case
  proof (cases "quote_word w")
    case True
    then obtain u where u: "w = CHR 0x22 # u" "match_quote u = Some (u, [])" by (cases w) (auto simp: quote_word_def)
    have "quote_strings strs (w @ s) = (let (a, r) = quote_strings (strs @ [json_escape w]) s in (a, str_key (length strs) @ r))" for s
      using match_quote_append [OF u(2), of s] by (simp add: u(1))
    with 4 True show ?thesis by (simp add: word_text_def starts_def quote_word_def)
  next
    case False
    with 4 have "CHR 0x22 \<notin> set w" by simp
    moreover from this have "\<not> starts CHR 0x22 w" by (cases w) (auto simp: starts_def)
    ultimately show ?thesis using 4 by (simp add: word_text_def quote_strings_run)
  qed
qed (auto simp: par_def dest: json_space_char)

text \<open>How the coded stream stands for the stream.\<close>

fun coded :: "string dict \<Rightarrow> tok \<Rightarrow> tok \<Rightarrow> bool" where
  "coded d (Word w) x = (x = Word w \<and> plain_word w \<or> (\<exists>n. x = Word (str_key n) \<and> map_of d (str_key n) = Some (json_escape w)))"
| "coded d t x = (x = t)"

lemma json_esc_plain: "plain_char c \<Longrightarrow> json_esc c = [c]"
proof -
  assume p: "plain_char c"
  then have n: "32 \<le> (of_char c :: nat)" "(of_char c :: nat) < 127" "c \<noteq> CHR 0x22" "c \<noteq> CHR 0x5C" by (simp_all add: plain_char_def)
  from n(1) have "c \<noteq> CHR 0x0A" "c \<noteq> CHR 0x0D" "c \<noteq> CHR 0x09" "c \<noteq> CHR 0x08" "c \<noteq> CHR 0x0C" by auto
  with n show ?thesis by (simp add: json_esc_def)
qed

lemma json_escape_plain: "plain_word w \<Longrightarrow> json_escape w = w"
proof -
  assume "plain_word w"
  then have "list_all plain_char w" by (simp add: plain_word_def)
  then show ?thesis by (induction w) (simp_all add: json_escape_def json_esc_plain)
qed

lemma put_strings_run: "CHR ''{'' \<notin> set u \<Longrightarrow> put_strings d (u @ s) = map_sum id (\<lambda>r. u @ r) (put_strings d s)"
  by (cases "put_strings d s"; induction u) auto

lemma show_nat_is_digit: "c \<in> set (show_nat n) \<Longrightarrow> is_digit c"
  using show_nat_digits [of c n] by (simp add: is_digit_def)

lemma put_strings_key:
  assumes "map_of d (str_key n) = Some e"
  shows "put_strings d (str_key n @ s) = map_sum id (\<lambda>r. e @ r) (put_strings d s)"
proof -
  have brace: "\<not> is_digit CHR ''}''" by (simp add: is_digit_def)
  have "dropWhile is_digit (show_nat n @ CHR ''}'' # s) = CHR ''}'' # s" "takeWhile is_digit (show_nat n @ CHR ''}'' # s) = show_nat n"
    using brace by (simp_all add: dropWhile_append2 takeWhile_append2 show_nat_is_digit)
  with assms show ?thesis by (simp add: str_key_def)
qed

lemma put_strings_word:
  assumes "coded d (Word w) (Word x)"
  shows "put_strings d (x @ s) = map_sum id (\<lambda>r. json_escape w @ r) (put_strings d s)"
proof (cases "x = w \<and> plain_word w")
  case True
  then have "CHR ''{'' \<notin> set w" by (auto simp: plain_word_def plain_char_def list_all_iff)
  with True show ?thesis by (simp add: put_strings_run json_escape_plain)
next
  case False
  with assms show ?thesis by (auto simp: put_strings_key)
qed

lemma coded_inv: "coded d t LP \<longleftrightarrow> t = LP" "coded d t RP \<longleftrightarrow> t = RP" "coded d t (Sep c) \<longleftrightarrow> t = Sep c"
  by (cases t; auto)+

lemma next_iff: "next_RP ts \<longleftrightarrow> (\<exists>r. ts = RP # r)" "next_list ts \<longleftrightarrow> (\<exists>c r. ts = Sep c # LP # r)"
  by (auto simp: next_simps split: list.splits tok.splits)

lemma coded_same:
  assumes "list_all2 (coded d) ts xs"
  shows "next_RP xs = next_RP ts" "next_list xs = next_list ts" "xs = [] \<longleftrightarrow> ts = []"
  using assms by (auto simp: next_iff list_all2_Cons1 list_all2_Cons2 coded_inv)

lemma strings_put: "stream ts \<Longrightarrow> list_all2 (coded d) ts xs \<Longrightarrow> put_strings d (out 7 (\<lambda>w. w) xs) = Inr (out 7 json_escape ts)"
proof (induction ts arbitrary: xs rule: stream.induct)
  case (4 w ts)
  then obtain x ys where xs: "xs = Word x # ys" "coded d (Word w) (Word x)" "list_all2 (coded d) ts ys"
    by (auto simp: list_all2_Cons1)
  with 4 have "put_strings d (out 7 (\<lambda>w. w) ys) = Inr (out 7 json_escape ts)" by simp
  with put_strings_word [OF xs(2)] coded_same [OF xs(3)] show ?case by (simp add: xs(1) word_text_def)
next
  case (5 ts)
  then obtain ys where xs: "xs = RP # ys" "list_all2 (coded d) ts ys" by (auto simp: list_all2_Cons1)
  with 5 have IH: "put_strings d (out 7 (\<lambda>w. w) ys) = Inr (out 7 json_escape ts)" by simp
  show ?case
  proof (cases "next_list ts")
    case True
    then obtain c r where r: "ts = Sep c # LP # r" by (auto simp: next_iff)
    with xs(2) obtain zs where z: "ys = Sep c # LP # zs" by (auto simp: list_all2_Cons1)
    have "c \<noteq> CHR ''{''" using 5 r json_space_char by auto
    with IH r z have "put_strings d (out 7 (\<lambda>w. w) (LP # zs)) = Inr (out 7 json_escape (LP # r))"
      by (cases "put_strings d (out 7 (\<lambda>w. w) zs)") (auto simp: par_def)
    with r z show ?thesis by (simp add: xs(1) par_def next_list_def)
  next
    case False
    with IH coded_same [OF xs(2)] show ?thesis by (simp add: xs(1) par_def)
  qed
next
  case (3 c ts)
  then have "c \<noteq> CHR ''{''" using json_space_char by auto
  with 3 show ?case by (auto simp: list_all2_Cons1)
qed (auto simp: list_all2_Cons1 par_def)

text \<open>The two coding passes, and the dictionary of the kept strings.\<close>

fun code1 :: "string dict \<Rightarrow> char \<Rightarrow> tok \<Rightarrow> tok \<Rightarrow> bool" where
  "code1 d c (Word w) x = (if starts c w then \<exists>n. x = Word (str_key n) \<and> map_of d (str_key n) = Some (json_escape w) else x = Word w)"
| "code1 d c t x = (x = t)"

lemma key_codes:
  "(\<And>i. i < length (picked c ts) \<Longrightarrow> map_of d (str_key (n + i)) = Some (json_escape (picked c ts ! i))) \<Longrightarrow>
   list_all2 (code1 d c) ts (key c n ts)"
proof (induction ts arbitrary: n rule: stream.induct)
  case (4 w ts)
  show ?case
  proof (cases "starts c w")
    case True
    have "map_of d (str_key (Suc n + i)) = Some (json_escape (picked c ts ! i))" if "i < length (picked c ts)" for i
      using "4.prems" [of "Suc i"] that True by simp
    with "4.IH" [of "Suc n"] "4.prems" [of 0] True show ?thesis by auto
  qed (use 4 in simp)
qed simp_all

lemma code1_twice:
  assumes "code1 d CHR ''|'' t y" "code1 d CHR 0x22 y x" "\<And>w. t = Word w \<Longrightarrow> word_ok w"
  shows "coded d t x"
proof (cases t)
  case (Word w)
  have k: "\<not> starts CHR 0x22 (str_key n)" for n by (simp add: starts_def str_key_def)
  have "plain_word w" if "\<not> starts CHR ''|'' w" "\<not> starts CHR 0x22 w"
    using that assms(3) Word by (auto simp: word_ok_def starts_def bar_word_def quote_word_def)
  with assms Word k show ?thesis by (auto split: if_splits)
qed (use assms in auto)

lemma str_key_inject [simp]: "str_key m = str_key n \<longleftrightarrow> m = n"
  by (simp add: str_key_def)

definition kept :: "string list \<Rightarrow> string dict" where
  "kept strs = zip (map str_key [0..<length strs]) strs"

lemma kept_nth: "i < length strs \<Longrightarrow> map_of (kept strs) (str_key i) = Some (strs ! i)"
proof -
  assume i: "i < length strs"
  have "distinct (map str_key [0..<length strs])" by (simp add: distinct_map inj_on_def)
  from map_of_zip_nth [OF _ this i] i show ?thesis by (simp add: kept_def)
qed

lemma streams_coded:
  assumes "all_words word_ok ts"
  defines "ts' \<equiv> key CHR ''|'' 0 ts"
  defines "bars \<equiv> map json_escape (picked CHR ''|'' ts)"
  defines "strs \<equiv> bars @ map json_escape (picked CHR 0x22 ts')"
  shows "list_all2 (coded (kept strs)) ts (key CHR 0x22 (length bars) ts')"
proof -
  have 1: "list_all2 (code1 (kept strs) CHR ''|'') ts ts'" unfolding ts'_def
    by (rule key_codes) (simp add: kept_nth strs_def bars_def nth_append)
  have 2: "list_all2 (code1 (kept strs) CHR 0x22) ts' (key CHR 0x22 (length bars) ts')"
    by (rule key_codes) (simp add: kept_nth strs_def nth_append)
  have "list_all2 (code1 (kept strs) CHR ''|'' OO code1 (kept strs) CHR 0x22) ts (key CHR 0x22 (length bars) ts')"
    using 1 2 by (auto simp: list.rel_compp)
  then show ?thesis
    by (rule list.rel_mono_strong) (use assms(1) in \<open>auto simp: all_words_def intro: code1_twice\<close>)
qed

section \<open>The JSON\<close>

lemma hex_val_digit: "d < 16 \<Longrightarrow> hex_val (hex_digit d) = Some d"
proof -
  have "list_all (\<lambda>d. hex_val (hex_digit d) = Some d) [0..<16]" by code_simp
  then show "d < 16 \<Longrightarrow> hex_val (hex_digit d) = Some d" by (simp add: list_all_iff)
qed

lemma json_string_esc:
  assumes "(of_char c :: nat) < 128"
  shows "json_string (json_esc c @ s) = map_option (\<lambda>(a, t). (c # a, t)) (json_string s)"
proof -
  consider "c \<in> set [CHR 0x22, CHR 0x5C, CHR 0x0A, CHR 0x0D, CHR 0x09, CHR 0x08, CHR 0x0C]"
    | "c \<notin> set [CHR 0x22, CHR 0x5C, CHR 0x0A, CHR 0x0D, CHR 0x09, CHR 0x08, CHR 0x0C]" "(of_char c :: nat) < 32 \<or> (of_char c :: nat) = 127"
    | "c \<notin> set [CHR 0x22, CHR 0x5C, CHR 0x0A, CHR 0x0D, CHR 0x09, CHR 0x08, CHR 0x0C]" "\<not> ((of_char c :: nat) < 32 \<or> (of_char c :: nat) = 127)" by blast
  then show ?thesis
  proof cases
    case 1
    then show ?thesis by (auto simp: json_esc_def)
  next
    case 2
    let ?n = "of_char c :: nat"
    have e: "json_esc c = [CHR 0x5C] @ ''u00'' @ [hex_digit (?n div 16), hex_digit (?n mod 16)]" using 2 by (simp add: json_esc_def Let_def)
    have h: "hex_val (hex_digit (?n div 16)) = Some (?n div 16)" "hex_val (hex_digit (?n mod 16)) = Some (?n mod 16)"
      using assms by (simp_all add: hex_val_digit)
    have z: "hex_val CHR ''0'' = Some 0" by code_simp
    have u: "utf8_of (?n div 16 * 16 + ?n mod 16) = [c]" using assms by (simp add: utf8_of_def)
    from e h z u show ?thesis by simp
  next
    case 3
    then have "json_esc c = [c]" by (simp add: json_esc_def)
    with 3 show ?thesis by simp
  qed
qed

lemma json_string_escape: "list_all (\<lambda>c. (of_char c :: nat) < 128) s \<Longrightarrow> json_string (json_escape s @ CHR 0x22 # r) = Some (s, r)"
proof (induction s)
  case (Cons c s)
  then show ?case using json_string_esc [of c "json_escape s @ CHR 0x22 # r"] by (simp add: json_escape_def)
qed (simp add: json_escape_def)

text \<open>What the decoder leaves after a value: the end, a bracket, or a comma and the next item.\<close>

definition rest_ok :: "tok list \<Rightarrow> string \<Rightarrow> bool" where
  "rest_ok r s = (if r = [] \<or> next_RP r then s = out 7 json_escape r
     else \<exists>sp. s = CHR '','' # sp @ out 7 json_escape (tl r) \<and> list_all json_space sp)"

abbreviation ascii :: "string \<Rightarrow> bool" where
  "ascii \<equiv> list_all (\<lambda>c. (of_char c :: nat) < 128)"

definition reads :: "jval \<Rightarrow> bool" where
  "reads t = (\<forall>r k. stream (toks t @ r) \<longrightarrow> length (toks t) \<le> k \<longrightarrow>
     (\<exists>s. json_value k (out 7 json_escape (toks t @ r)) = Some (t, s) \<and> rest_ok r s))"

lemma readsD:
  "reads t \<Longrightarrow> stream (toks t @ r) \<Longrightarrow> length (toks t) \<le> k \<Longrightarrow>
   \<exists>s. json_value k (out 7 json_escape (toks t @ r)) = Some (t, s) \<and> rest_ok r s"
  by (simp add: reads_def)

lemma stream_append: "stream (a @ b) \<Longrightarrow> stream b"
proof (induction a)
  case (Cons t a)
  then show ?case by (cases t) auto
qed simp

lemma reads_word: "ascii w \<Longrightarrow> reads (JStr w)"
  unfolding reads_def
proof (intro allI impI)
  fix r k assume w: "ascii w" and r: "stream (toks (JStr w) @ r)" and "length (toks (JStr w)) \<le> k"
  then obtain k' where k: "k = Suc k'" by (cases k) auto
  let ?s = "(if next_RP r then [] else '', '') @ out 7 json_escape r"
  have "json_value k (out 7 json_escape (toks (JStr w) @ r)) = Some (JStr w, ?s)"
    using json_string_escape [OF w, of ?s] k by (simp add: word_text_def)
  moreover have "rest_ok r ?s"
  proof (cases "next_RP r")
    case False
    then obtain c u where "r = Sep c # u" "json_space c" using r by (auto simp: next_iff)
    moreover from this have "?s = CHR '','' # [CHR '' '', c] @ out 7 json_escape u" using False by simp
    ultimately show ?thesis unfolding rest_ok_def
      by (auto simp: next_iff json_space_def intro!: exI [of _ "[CHR '' '', c]"])
  qed (simp add: rest_ok_def)
  ultimately show "\<exists>s. json_value k (out 7 json_escape (toks (JStr w) @ r)) = Some (JStr w, s) \<and> rest_ok r s" by blast
qed

lemma after_RP:
  assumes "stream (RP # r)"
  shows "\<exists>s. out 7 json_escape (RP # r) = CHR '']'' # s \<and> rest_ok r s"
proof -
  have "r = [] \<or> next_RP r \<or> (\<exists>c u. r = Sep c # u \<and> json_space c)" using assms by (auto simp: next_iff)
  then consider "r = [] \<or> next_RP r" | "next_list r" | c u where "r = Sep c # u" "\<not> next_list r" "json_space c" by blast
  then show ?thesis
  proof cases
    case 1
    then have "\<not> next_list r" by (auto simp: next_iff)
    with 1 show ?thesis by (auto simp: par_def rest_ok_def)
  next
    case 2
    then have "r \<noteq> [] \<and> \<not> next_RP r" by (auto simp: next_iff)
    with 2 show ?thesis by (auto simp: par_def rest_ok_def json_space_def intro!: exI [of _ "'' ''"])
  next
    case 3
    then show ?thesis by (auto simp: par_def rest_ok_def json_space_def next_RP_def intro!: exI [of _ "[CHR '' '', c]"])
  qed
qed

lemma opens_char: "stream ts \<Longrightarrow> opens ts \<Longrightarrow> \<exists>d ds. out 7 f ts = d # ds \<and> \<not> json_space d \<and> d \<noteq> CHR '']''"
  by (cases ts rule: stream.cases) (auto simp: next_simps json_space_def)

lemma opens_sep_join [simp]: "ts \<noteq> [] \<Longrightarrow> opens (sep_join s (map toks ts) @ r)"
  by (cases ts; cases "tl ts") simp_all

lemma drop_spaces: "list_all json_space sp \<Longrightarrow> stream ts \<Longrightarrow> opens ts \<Longrightarrow> dropWhile json_space (sp @ out 7 f ts) = out 7 f ts"
  using opens_char [of ts f] by (induction sp) auto

lemma json_items_toks:
  assumes "\<And>t. t \<in> set ts \<Longrightarrow> reads t" and "ts \<noteq> []"
    and "stream (sep_join (Sep c) (map toks ts) @ RP # r)" and "length (sep_join (Sep c) (map toks ts)) < k"
  shows "\<exists>s. json_items k (out 7 json_escape (sep_join (Sep c) (map toks ts) @ RP # r)) = Some (ts, s) \<and> rest_ok r s"
  using assms
proof (induction ts arbitrary: k)
  case (Cons t ts)
  then obtain k' where k: "k = Suc k'" by (cases k) auto
  have t: "reads t" using Cons.prems by simp
  have bracket: "\<not> json_space CHR '']''" "\<not> json_space CHR '',''" by (simp_all add: json_space_def)
  show ?case
  proof (cases "ts = []")
    case True
    with Cons.prems readsD [OF t, of "RP # r" k'] k
    obtain s where s: "json_value k' (out 7 json_escape (toks t @ RP # r)) = Some (t, s)" "rest_ok (RP # r) s" by auto
    have "stream (RP # r)" using Cons.prems(3) stream_append by blast
    from after_RP [OF this] obtain u where "out 7 json_escape (RP # r) = CHR '']'' # u" "rest_ok r u" by blast
    moreover from this s(2) have "s = CHR '']'' # u" by (simp add: rest_ok_def next_RP_def)
    ultimately show ?thesis using True k s bracket by simp
  next
    case False
    let ?rest = "sep_join (Sep c) (map toks ts) @ RP # r"
    have str: "stream (toks t @ Sep c # ?rest)" using Cons.prems(3) False by (simp add: sep_join_Cons)
    then have st: "stream ?rest" using stream_append [of "toks t @ [Sep c]" ?rest] by simp
    have len: "length (toks t) \<le> k'" "length (sep_join (Sep c) (map toks ts)) < k'"
      using Cons.prems(4) False k by (cases "toks t"; simp add: sep_join_Cons)+
    with readsD [OF t str]
    obtain s where s: "json_value k' (out 7 json_escape (toks t @ Sep c # ?rest)) = Some (t, s)" "rest_ok (Sep c # ?rest) s" by auto
    from s(2) obtain sp where sp: "s = CHR '','' # sp @ out 7 json_escape ?rest" "list_all json_space sp"
      by (auto simp: rest_ok_def next_RP_def)
    have "dropWhile json_space (sp @ out 7 json_escape ?rest) = out 7 json_escape ?rest"
      by (rule drop_spaces [OF sp(2) st]) (use False in simp)
    moreover from Cons.IH [OF _ False st len(2)] Cons.prems(1) obtain u
      where u: "json_items k' (out 7 json_escape ?rest) = Some (ts, u)" "rest_ok r u" by auto
    ultimately show ?thesis using s sp k False bracket by (simp add: sep_join_Cons)
  qed
qed simp

lemma json_list_toks:
  assumes "\<And>t. t \<in> set ts \<Longrightarrow> reads t" and st: "stream (LP # sep_join (Sep c) (map toks ts) @ RP # r)"
    and "Suc (Suc (length (sep_join (Sep c) (map toks ts)))) \<le> k"
  shows "\<exists>s. json_value k (out 7 json_escape (LP # sep_join (Sep c) (map toks ts) @ RP # r)) = Some (JArr ts, s) \<and> rest_ok r s"
proof -
  obtain k' where k: "k = Suc k'" using assms(3) by (cases k) auto
  let ?inner = "sep_join (Sep c) (map toks ts) @ RP # r"
  show ?thesis
  proof (cases "ts = []")
    case True
    with st have "stream (RP # r)" by simp
    from after_RP [OF this] True k show ?thesis by (auto simp: par_def json_space_def)
  next
    case False
    have str: "stream ?inner" "opens ?inner" using st False by simp_all
    from opens_char [OF this] obtain d ds where d: "out 7 json_escape ?inner = d # ds" "\<not> json_space d" "d \<noteq> CHR '']''" by blast
    from json_items_toks [OF assms(1) False str(1), of k'] assms(3) k
    obtain u where "json_items k' (out 7 json_escape ?inner) = Some (ts, u)" "rest_ok r u" by auto
    with d k show ?thesis by (auto simp: par_def)
  qed
qed

lemma reads_all: "(\<And>w. w \<in> words_of t \<Longrightarrow> ascii w) \<Longrightarrow> reads t"
proof (induction t)
  case (JArr xs)
  then have "\<And>t. t \<in> set xs \<Longrightarrow> reads t" by auto
  from json_list_toks [OF this, where c = "CHR '' ''"] show ?case by (simp add: reads_def)
qed (simp add: reads_word)

section \<open>Reading back what was printed\<close>

lemma out_join:
  assumes "\<And>t r. t \<in> set ts \<Longrightarrow> out 1 (\<lambda>w. w) (toks t @ r) = smt_of t @ out 1 (\<lambda>w. w) r"
  shows "out 1 (\<lambda>w. w) (sep_join (Sep c) (map toks ts) @ r) = join [c] (map smt_of ts) @ out 1 (\<lambda>w. w) r"
  using assms
proof (induction ts)
  case (Cons t ts)
  show ?case
  proof (cases "ts = []")
    case False
    then obtain u us where "ts = u # us" by (cases ts) auto
    with Cons show ?thesis by simp
  qed (use Cons in simp)
qed simp

lemma out_toks: "out 1 (\<lambda>w. w) (toks t @ r) = smt_of t @ out 1 (\<lambda>w. w) r"
proof (induction t arbitrary: r)
  case (JArr xs)
  then show ?case using out_join [of xs "CHR '' ''" "RP # r"] by (simp add: par_def)
qed (simp add: word_text_def)

lemma all_words_sep_join: "all_words P (sep_join (Sep c) (map toks ts)) \<longleftrightarrow> (\<forall>t \<in> set ts. all_words P (toks t))"
proof (induction ts)
  case (Cons t ts)
  then show ?case by (cases "ts = []") (simp_all add: sep_join_Cons)
qed simp

lemma all_words_toks: "all_words P (toks t) \<longleftrightarrow> (\<forall>w \<in> words_of t. P w)"
  by (induction t) (simp_all add: all_words_sep_join)

lemma strip_comments_none: "CHR '';'' \<notin> set s \<Longrightarrow> strip_comments False s = s"
  by (induction s) auto

lemma out_no_comment: "stream ts \<Longrightarrow> all_words (\<lambda>w. CHR '';'' \<notin> set w) ts \<Longrightarrow> CHR '';'' \<notin> set (out 1 (\<lambda>w. w) ts)"
  by (induction ts rule: stream.induct) (auto simp: par_def word_text_def dest: json_space_char)

lemma length_out: "length ts \<le> length (out 7 json_escape ts)"
proof -
  have "7 \<le> k \<Longrightarrow> length ts \<le> length (out k f ts)" for k f
  proof (induction k f ts rule: out.induct)
    case (5 k f ts)
    show ?case
    proof (cases "next_list ts")
      case True
      with 5 have "length (tl ts) \<le> length (out k f (tl ts))" by simp
      with True 5 show ?thesis by simp
    next
      case False
      with 5 have "length ts \<le> length (out k f ts)" by simp
      with False show ?thesis by simp
    qed
  qed (auto simp: word_text_def)
  then show ?thesis by simp
qed

lemma plain_word_char: "plain_word w \<Longrightarrow> c \<in> set w \<Longrightarrow> plain_char c"
  by (simp add: plain_word_def list_all_iff)

lemma plain_char_not: "plain_char c \<Longrightarrow> (of_char c :: nat) < 128 \<and> c \<noteq> CHR '';'' \<and> c \<noteq> CHR ''|'' \<and> c \<noteq> CHR 0x22"
  by (simp add: plain_char_def)

lemma plain_word_not: "plain_word w \<Longrightarrow> CHR ''|'' \<notin> set w" "plain_word w \<Longrightarrow> CHR 0x22 \<notin> set w" "plain_word w \<Longrightarrow> ascii_word w"
  unfolding ascii_word_def list_all_iff by (blast dest: plain_word_char plain_char_not)+

lemma word_ok_ascii_word: "word_ok w \<Longrightarrow> ascii_word w"
  unfolding word_ok_def using plain_word_not(3) [of w] by (auto simp: bar_word_def quote_word_def)

lemma word_ok_ascii: "word_ok w \<Longrightarrow> ascii w" "word_ok w \<Longrightarrow> CHR '';'' \<notin> set w"
  by (drule word_ok_ascii_word, force simp: ascii_word_def list_all_iff)+

lemma word_ok_bars: "word_ok w \<Longrightarrow> CHR ''|'' \<notin> set w \<or> bar_word w"
  unfolding word_ok_def using plain_word_not(1) [of w] by (auto simp: quote_word_def)

lemma word_ok_quotes: "word_ok w \<Longrightarrow> \<not> starts CHR ''|'' w \<Longrightarrow> CHR 0x22 \<notin> set w \<or> quote_word w"
  unfolding word_ok_def using plain_word_not(2) [of w] by (auto simp: bar_word_def starts_def)

lemma digit_clean: "is_digit c \<Longrightarrow> c \<noteq> CHR 0x22 \<and> \<not> is_space c \<and> c \<notin> set ''(),''"
  by (auto simp: is_digit_def is_space_def)

lemma str_key_clean: "clean (str_key n)"
proof -
  have "list_all (\<lambda>c. c \<noteq> CHR 0x22 \<and> \<not> is_space c \<and> c \<notin> set ''(),'') (show_nat n)"
    using digit_clean show_nat_is_digit by (fastforce simp: list_all_iff)
  then show ?thesis by (simp add: clean_def str_key_def is_space_def)
qed

lemma str_key_quote: "CHR 0x22 \<notin> set (str_key n)"
  using str_key_clean [of n] by (auto simp: clean_def list_all_iff)

lemma plain_char_clean: "plain_char c \<Longrightarrow> c \<noteq> CHR 0x22 \<and> \<not> is_space c \<and> c \<notin> set ''(),''"
  by (simp add: plain_char_def)

lemma word_ok_clean: "word_ok w \<Longrightarrow> \<not> starts CHR ''|'' w \<Longrightarrow> \<not> starts CHR 0x22 w \<Longrightarrow> clean w"
proof -
  assume "word_ok w" "\<not> starts CHR ''|'' w" "\<not> starts CHR 0x22 w"
  then have "plain_word w" by (auto simp: word_ok_def bar_word_def quote_word_def starts_def)
  then show ?thesis using plain_char_clean by (simp add: plain_word_def clean_def list_all_iff)
qed

lemma stream_top: "stream (top_toks xs)"
proof -
  have e: "stream [RP]" by simp
  have "stream (sep_join (Sep CHR 0x0A) (map toks xs) @ RP # [])"
    by (rule stream_sep_join [OF _ _ e]) (auto intro: stream_toks simp: json_space_def)
  moreover have "opens (sep_join (Sep CHR 0x0A) (map toks xs) @ [RP]) \<or> xs = []" using opens_sep_join by blast
  ultimately show ?thesis by (auto simp: top_toks_def)
qed

definition words_ok :: "jval list \<Rightarrow> bool" where
  "words_ok xs = list_all (\<lambda>x. \<forall>w \<in> words_of x. word_ok w) xs"

lemma text_of_translation:
  assumes "words_ok xs"
  shows "smt2json_text (json2smt xs) = Inr (out 7 json_escape (top_toks xs))"
proof -
  let ?ts = "top_toks xs"
  let ?ts' = "key CHR ''|'' 0 ?ts"
  let ?bars = "map json_escape (picked CHR ''|'' ?ts)"
  let ?us = "key CHR 0x22 (length ?bars) ?ts'"
  let ?strs = "?bars @ map json_escape (picked CHR 0x22 ?ts')"
  have st: "stream ?ts" by (rule stream_top)
  have ok: "all_words word_ok ?ts" using assms by (simp add: top_toks_def all_words_sep_join all_words_toks words_ok_def list_all_iff)
  have first: "''('' @ json2smt xs @ '')'' = out 1 (\<lambda>w. w) ?ts"
    using out_join [OF out_toks, where ts = xs and c = "CHR 0x0A" and r = "[RP]"] by (simp add: top_toks_def json2smt_def par_def)
  have "all_words (\<lambda>w. CHR '';'' \<notin> set w) ?ts" using ok word_ok_ascii(2) by (auto simp: all_words_def)
  then have strip: "strip_comments False (out 1 (\<lambda>w. w) ?ts) = out 1 (\<lambda>w. w) ?ts" by (intro strip_comments_none out_no_comment st)
  have "all_words (\<lambda>w. CHR ''|'' \<notin> set w \<or> bar_word w) ?ts" using ok word_ok_bars by (auto simp: all_words_def)
  from bar_strings_out [OF st this, of "[]"]
  have bars: "bar_strings [] (out 1 (\<lambda>w. w) ?ts) = (?bars, out 1 (\<lambda>w. w) ?ts')" by simp
  have st': "stream ?ts'" using st by (rule stream_key)
  have "all_words (\<lambda>w. word_ok w \<and> \<not> starts CHR ''|'' w \<or> (\<exists>n. w = str_key n)) ?ts'"
    by (rule all_words_key [OF ok]) auto
  then have w': "all_words (\<lambda>w. CHR 0x22 \<notin> set w \<or> quote_word w) ?ts'" "all_words (\<lambda>w. \<not> starts CHR 0x22 w \<longrightarrow> clean w) ?ts'"
    using word_ok_quotes str_key_quote word_ok_clean str_key_clean unfolding all_words_def by blast+
  from quote_strings_out [OF st' w'(1), of ?bars]
  have quotes: "quote_strings ?bars (out 1 (\<lambda>w. w) ?ts') = (?strs, out 1 (\<lambda>w. w) ?us)" .
  have "all_words clean ?us" by (rule all_words_key [OF w'(2)]) (auto simp: str_key_clean)
  moreover have "last ?us = RP" by (intro last_key) (auto simp: top_toks_def)
  moreover have "stream ?us" using st' by (rule stream_key)
  moreover have "?us \<noteq> []" by (simp add: top_toks_def)
  ultimately have out: "map bracket (drop_last_comma (close_lists (join_lists (drop_commas (quote_words [] (out 1 (\<lambda>w. w) ?us))))))
    = out 7 (\<lambda>w. w) ?us" by (intro passes)
  have put: "put_strings (kept ?strs) (out 7 (\<lambda>w. w) ?us) = Inr (out 7 json_escape ?ts)"
    by (rule strings_put [OF st]) (rule streams_coded [OF ok])
  show ?thesis
    unfolding smt2json_text_def first strip bars Let_def prod.case quotes out using put by (simp only: kept_def)
qed

lemma translation_reads_back:
  assumes "words_ok xs"
  shows "smt2json (json2smt xs) = Inr (JArr xs)"
proof -
  let ?ts = "top_toks xs"
  let ?t = "out 7 json_escape ?ts"
  have "word_ok w" if "x \<in> set xs" "w \<in> words_of x" for x w using assms that by (auto simp: words_ok_def list_all_iff)
  then have "reads x" if "x \<in> set xs" for x using reads_all word_ok_ascii(1) that by blast
  from json_list_toks [OF this, where c = "CHR 0x0A" and r = "[]" and k = "Suc (2 * length ?t)"] stream_top length_out [of ?ts]
  have "json_value (Suc (2 * length ?t)) ?t = Some (JArr xs, [])" by (simp add: top_toks_def rest_ok_def)
  moreover have "dropWhile json_space ?t = ?t" by (simp add: top_toks_def par_def json_space_def)
  ultimately show ?thesis using text_of_translation [OF assms] by (simp add: smt2json_def json_loads_def Let_def)
qed

text \<open>C14: \<open>smt2json\<close> reads back what \<open>json2smt\<close> prints. For every list of commands whose words are
  symbols, symbols between bars or string literals, in ASCII, without a semicolon, and in a literal without a bar (between the bars and the
  quotes spaces, parentheses, line ends, commas and keys like \<open>{0}\<close> may stand, and a literal may hold escaped quotes), the
  printed script goes through all the substitutions without a \<open>KeyError\<close>, the decoder accepts the text, and the value is the list of
  commands itself. A comment sign between bars or quotes and a bar between quotes are not covered: the comments are cut, and the pieces between bars are
  kept, before the string literals are (\<open>semicolon_in_symbol\<close>, \<open>bars_in_literals\<close>). The nesting is within the interpreter's
  recursion limit, which is no part of the model.
\<close>

theorem scripts_read_back:
  assumes "words_ok xs"
  shows "smt2json (json2smt xs) = Inr (JArr xs)"
  by (rule translation_reads_back [OF assms])

definition sample_commands :: "jval list" where
  "sample_commands = [JArr [JStr ''assert'', JArr [JStr ''='', JStr ''|a ( b|'', JStr [CHR 0x22, CHR ''x'', CHR 0x5C, CHR 0x22, CHR 0x22]]],
     JArr [JArr [], JArr [JStr ''check-sat'']]]"

theorem scripts_read_back_witness: "smt2json (json2smt sample_commands) = Inr (JArr sample_commands)"
proof (rule scripts_read_back)
  show "words_ok sample_commands"
    by (simp add: words_ok_def sample_commands_def word_ok_def plain_word_def plain_char_def is_space_def bar_word_def quote_word_def
      ascii_word_def)
qed

text \<open>With a semicolon between bars the text from it to the end of the line is gone, and the parentheses no longer match.\<close>

lemma semicolon_in_symbol: "smt2json (json2smt [JStr ''|a;b|'']) = Inl ValueError"
  by code_simp

text \<open>With a bar in each of two literals what is between the bars is kept as one symbol, and the two literals come back as one word, which
  even has a key in it.\<close>

lemma bars_in_literals:
  "smt2json (json2smt [JArr [JStr [CHR 0x22, CHR ''a'', CHR ''|'', CHR ''b'', CHR 0x22], JStr [CHR 0x22, CHR ''c'', CHR ''|'', CHR ''d'', CHR 0x22]]])
     = Inr (JArr [JArr [JStr [CHR 0x22, CHR ''a'', CHR ''{'', CHR ''0'', CHR ''}'', CHR ''d'', CHR 0x22]]])"
  by code_simp

end
