(* ===== verification/Tree.thy ===== *)
theory Tree
  imports SmtJson Constants "HOL-Library.AList"
begin

text \<open>
  The partition tree of \<open>server/framework.py\<close>: \<open>AndNode\<close>s (an instance or a partition of it)
  alternate with \<open>OrNode\<close>s (one way of splitting the \<open>AndNode\<close> above it). Nodes are objects that
  solvers and the scheduler share and change, so they live in a heap: a map from references to
  node records. A \<open>Node\<close> has a \<open>__len__\<close>, hence a node without children is false where Python
  tests it (\<open>while node.parent\<close>, \<open>if self.parent\<close>). The last four fields of a node are those of
  a root: its name and class, and what a \<open>Fixedpoint\<close> keeps of its script.
\<close>

section \<open>Nodes\<close>

datatype solve_status = Unknown | Sat | Unsat

datatype node_class = AndNode | OrNode

datatype root_class = SMT | Fixedpoint | MCMT

type_synonym nid = nat

record node =
  n_class :: node_class
  n_parent :: "nid option"
  n_root :: nid
  n_smt :: string
  n_children :: "nid list"
  n_status :: solve_status
  n_started :: "rat option"
  n_assumed_timout :: bool
  n_partitioning :: bool
  n_processed :: bool
  n_is_timeout :: bool
  n_name :: string
  n_kind :: root_class
  n_json :: "jval list"
  n_query :: jval

record heap =
  cells :: "(nid \<times> node) list"
  fresh :: nid

definition blank :: node where
  "blank = \<lparr>n_class = AndNode, n_parent = None, n_root = 0, n_smt = [], n_children = [],
     n_status = Unknown, n_started = None, n_assumed_timout = False, n_partitioning = False,
     n_processed = False, n_is_timeout = False, n_name = [], n_kind = SMT,
     n_json = [], n_query = JStr []\<rparr>"

definition empty_heap :: heap where
  "empty_heap = \<lparr>cells = [], fresh = 0\<rparr>"

text \<open>Looking a node up (references are always to allocated nodes), writing one, changing one.\<close>

definition cell :: "heap \<Rightarrow> nid \<Rightarrow> node" where
  "cell h n = (case map_of (cells h) n of None \<Rightarrow> blank | Some x \<Rightarrow> x)"

definition put :: "nid \<Rightarrow> node \<Rightarrow> heap \<Rightarrow> heap" where
  "put n x h = h\<lparr>cells := AList.update n x (cells h)\<rparr>"

definition upd :: "nid \<Rightarrow> (node \<Rightarrow> node) \<Rightarrow> heap \<Rightarrow> heap" where
  "upd n f h = put n (f (cell h n)) h"

lemma cell_put [simp]: "cell (put n x h) = (cell h)(n := x)"
  by (auto simp: cell_def put_def update_conv fun_eq_iff)

lemma cell_upd [simp]: "cell (upd n f h) = (cell h)(n := f (cell h n))"
  by (simp add: upd_def)

lemma cell_fresh [simp]: "cell (h\<lparr>fresh := k\<rparr>) = cell h"
  by (simp add: cell_def fun_eq_iff)

lemma fresh_put [simp]: "fresh (put n x h) = fresh h"
  by (simp add: put_def)

lemma fresh_upd [simp]: "fresh (upd n f h) = fresh h"
  by (simp add: upd_def)

definition status_name :: "solve_status \<Rightarrow> string" where
  "status_name s = (case s of Unknown \<Rightarrow> ''unknown'' | Sat \<Rightarrow> ''sat'' | Unsat \<Rightarrow> ''unsat'')"

definition status_of_name :: "string \<Rightarrow> solve_status option" where
  "status_of_name s = map_of [(''unknown'', Unknown), (''sat'', Sat), (''unsat'', Unsat)] s"

section \<open>Constructors\<close>

text \<open>\<open>Node.__init__\<close>: the new node is appended to its parent's children and takes its root.\<close>

definition node_init :: "node_class \<Rightarrow> nid option \<Rightarrow> string \<Rightarrow> (heap, nid) prog" where
  "node_init k parent smt = bindM (getM fresh) (\<lambda>n. bindM (getM cell) (\<lambda>c.
     let r = (case parent of None \<Rightarrow> n | Some p \<Rightarrow> n_root (c p));
         new = blank\<lparr>n_class := k, n_parent := parent, n_root := r, n_smt := smt\<rparr>
     in seqM (modM (\<lambda>h. (case parent of None \<Rightarrow> h
               | Some p \<Rightarrow> upd p (\<lambda>x. x\<lparr>n_children := n_children x @ [n]\<rparr>) h)))
       (seqM (modM (\<lambda>h. (put n new h)\<lparr>fresh := Suc n\<rparr>)) (retM n))))"

definition and_node :: "nid option \<Rightarrow> string \<Rightarrow> (heap, nid) prog" where
  "and_node parent smt = bindM (getM cell) (\<lambda>c.
     if (case parent of None \<Rightarrow> True | Some p \<Rightarrow> n_class (c p) = OrNode)
     then node_init AndNode parent smt else raiseM TypeError)"

definition or_node :: "nid option \<Rightarrow> string \<Rightarrow> (heap, nid) prog" where
  "or_node parent smt = bindM (getM cell) (\<lambda>c.
     if (case parent of None \<Rightarrow> False | Some p \<Rightarrow> n_class (c p) = AndNode)
     then node_init OrNode parent smt else raiseM TypeError)"

definition root_node :: "root_class \<Rightarrow> string \<Rightarrow> string \<Rightarrow> (heap, nid) prog" where
  "root_node k name smt = bindM (and_node None smt) (\<lambda>n.
     seqM (modM (upd n (\<lambda>x. x\<lparr>n_name := name, n_kind := k\<rparr>))) (retM n))"

definition clear :: "nid \<Rightarrow> (heap, unit) prog" where
  "clear n = modM (upd n (\<lambda>x. x\<lparr>n_children := []\<rparr>))"

section \<open>Position in the tree\<close>

partial_function (option) path_loop :: "nid \<Rightarrow> nat list \<Rightarrow> heap \<Rightarrow> (exc + nat list) option" where
  "path_loop n acc h = (case n_parent (cell h n) of None \<Rightarrow> Some (Inr acc)
     | Some p \<Rightarrow>
         (if n_children (cell h p) = [] then Some (Inr acc)
          else case index_of n (n_children (cell h p)) of None \<Rightarrow> Some (Inl ValueError)
            | Some i \<Rightarrow> path_loop p (acc @ [i]) h))"

definition path :: "nid \<Rightarrow> heap \<Rightarrow> (exc + nat list) option" where
  "path n h = map_option (map_sum id rev) (path_loop n [] h)"

text \<open>\<open>path(nodes=True)\<close> and \<open>path_to_node\<close>.\<close>

partial_function (option) path_nodes_loop :: "nid \<Rightarrow> nid list \<Rightarrow> heap \<Rightarrow> nid list option" where
  "path_nodes_loop n acc h = (case n_parent (cell h n) of None \<Rightarrow> Some acc
     | Some p \<Rightarrow> (if n_children (cell h p) = [] then Some acc else path_nodes_loop p (acc @ [p]) h))"

definition path_nodes :: "nid \<Rightarrow> heap \<Rightarrow> (exc + nid list) option" where
  "path_nodes n h = map_option (\<lambda>p. Inr (rev p)) (path_nodes_loop n [] h)"

partial_function (option) path_to_node_loop :: "nid \<Rightarrow> nid list \<Rightarrow> heap \<Rightarrow> nid list option" where
  "path_to_node_loop n acc h = (case n_parent (cell h n) of None \<Rightarrow> Some acc
     | Some p \<Rightarrow> (if n_children (cell h p) = [] then Some acc
         else path_to_node_loop p (if n_class (cell h p) = AndNode then acc @ [p] else acc) h))"

definition path_to_node :: "nid \<Rightarrow> heap \<Rightarrow> (exc + nid list) option" where
  "path_to_node n h = map_option (\<lambda>p. Inr (rev p)) (path_to_node_loop n [n] h)"

definition level :: "nid \<Rightarrow> heap \<Rightarrow> (exc + nat) option" where
  "level n h = map_option (map_sum id length) (path n h)"

definition is_ancestor :: "nid \<Rightarrow> nid \<Rightarrow> heap \<Rightarrow> (exc + bool) option" where
  "is_ancestor self n h =
     (if n_root (cell h self) \<noteq> n_root (cell h n) then Some (Inl ValueError)
      else case path self h of None \<Rightarrow> None | Some (Inl e) \<Rightarrow> Some (Inl e)
      | Some (Inr selfp) \<Rightarrow> (case path n h of None \<Rightarrow> None | Some (Inl e) \<Rightarrow> Some (Inl e)
        | Some (Inr nodep) \<Rightarrow>
            Some (Inr (if length nodep < length selfp then False
                       else list_all2 (=) selfp (take (length selfp) nodep)))))"

text \<open>\<open>all()\<close> is \<open>all_of\<close> on the one-element list: the node, then \<open>all()\<close> of its children.\<close>

partial_function (option) all_of :: "nid list \<Rightarrow> heap \<Rightarrow> nid list option" where
  "all_of ns h = (case ns of [] \<Rightarrow> Some []
     | n # r \<Rightarrow> Option.bind (all_of (n_children (cell h n)) h)
         (\<lambda>d. Option.bind (all_of r h) (\<lambda>e. Some (n # d @ e))))"

definition all_nodes :: "nid \<Rightarrow> heap \<Rightarrow> (exc + nid list) option" where
  "all_nodes n h = map_option Inr (all_of [n] h)"

text \<open>\<open>Root.child\<close> follows a path of indices.\<close>

fun child :: "nid \<Rightarrow> int list \<Rightarrow> heap \<Rightarrow> exc + nid" where
  "child n [] h = Inr n"
| "child n (i # p) h =
     (case py_nth (n_children (cell h n)) i of Inl e \<Rightarrow> Inl e | Inr c \<Rightarrow> child c p h)"

text \<open>\<open>AndNode.childeren\<close>: the unsolved partitions of the first split.\<close>

definition childeren :: "nid \<Rightarrow> heap \<Rightarrow> (exc + nid list) option" where
  "childeren n h = (case n_children (cell h n) of [] \<Rightarrow> Some (Inl IndexError)
     | o1 # _ \<Rightarrow> Some (Inr (filter (\<lambda>ch. n_status (cell h ch) = Unknown) (n_children (cell h o1)))))"

section \<open>Setting a status\<close>

text \<open>The \<open>_set_status\<close> of both classes: an \<open>OrNode\<close> always passes the status up, an \<open>AndNode\<close>
  when it is \<open>sat\<close> or when all its siblings have the same status.\<close>

partial_function (option) set_status :: "nid \<Rightarrow> solve_status \<Rightarrow> heap \<Rightarrow> ((exc + unit) \<times> heap) option" where
  "set_status n s h =
     (let h1 = upd n (\<lambda>x. x\<lparr>n_status := s\<rparr>) h in
      case n_class (cell h n) of
        OrNode \<Rightarrow> (case n_parent (cell h n) of None \<Rightarrow> Some (Inl AttributeError, h1)
          | Some p \<Rightarrow> set_status p s h1)
      | AndNode \<Rightarrow> (case n_parent (cell h n) of None \<Rightarrow> Some (Inr (), h1)
          | Some p \<Rightarrow>
              (if n_children (cell h1 p) \<noteq> []
                  \<and> (s = Sat \<or> (\<forall>c \<in> set (n_children (cell h1 p)). n_status (cell h1 c) = s))
               then set_status p s h1 else Some (Inr (), h1))))"

section \<open>The script of a node\<close>

text \<open>
  \<open>SMT.to_string(node, start)\<close>: pops from \<open>start\<close> up to the common ancestor, then a push and
  the node's text for every \<open>AndNode\<close> on the way down to \<open>node\<close>. A reference that may be Python's
  \<open>None\<close> is an option. \<open>self\<close> is the root.
\<close>

partial_function (option) pop_loop ::
    "nid \<Rightarrow> nid option \<Rightarrow> nat \<Rightarrow> heap \<Rightarrow> (exc + (nid option \<times> nat)) option" where
  "pop_loop node start n_pop h = (case start of None \<Rightarrow> Some (Inl AttributeError)
     | Some a \<Rightarrow> Option.bind (is_ancestor a node h) (\<lambda>r. case r of Inl e \<Rightarrow> Some (Inl e)
        | Inr b \<Rightarrow> (if b then Some (Inr (start, n_pop))
            else pop_loop node (n_parent (cell h a))
                   (if n_class (cell h a) = AndNode then Suc n_pop else n_pop) h)))"

partial_function (option) push_loop ::
    "nid \<Rightarrow> nid option \<Rightarrow> nid option \<Rightarrow> string list \<Rightarrow> heap \<Rightarrow> (exc + string list) option" where
  "push_loop self node start smt h =
     (if node = start then Some (Inr smt)
      else case node of None \<Rightarrow> Some (Inl AttributeError)
      | Some n \<Rightarrow> push_loop self (n_parent (cell h n)) start
          (if n_class (cell h n) = AndNode
           then smt @ [n_smt (cell h n)] @ (if n \<noteq> self then [''(push 1)''] else []) else smt) h)"

definition smt_lines :: "nid \<Rightarrow> nid \<Rightarrow> nid option \<Rightarrow> heap \<Rightarrow> (exc + string list) option" where
  "smt_lines self node start h =
     (case (case start of None \<Rightarrow> Some (Inr (None, 0)) | Some a \<Rightarrow> pop_loop node (Some a) 0 h) of
        None \<Rightarrow> None | Some (Inl e) \<Rightarrow> Some (Inl e)
      | Some (Inr (start', n_pop)) \<Rightarrow>
          (case push_loop self (Some node) start' [] h of
             None \<Rightarrow> None | Some (Inl e) \<Rightarrow> Some (Inl e)
           | Some (Inr smt) \<Rightarrow> Some (Inr (rev (smt @ replicate n_pop ''(pop 1)'')))))"

definition smt_to_string :: "nid \<Rightarrow> nid \<Rightarrow> nid option \<Rightarrow> heap \<Rightarrow> (exc + (string \<times> string)) option" where
  "smt_to_string self node start h =
     map_option (map_sum id (\<lambda>ls. (join [CHR 0x0A] ls, CHECK_SAT))) (smt_lines self node start h)"

text \<open>\<open>MCMT.to_string\<close> gives the whole text.\<close>

definition mcmt_to_string :: "nid \<Rightarrow> heap \<Rightarrow> (exc + (string \<times> string)) option" where
  "mcmt_to_string self h = Some (Inr (n_smt (cell h self), []))"

text \<open>The loops compute.\<close>

declare path_loop.simps [code]
declare path_nodes_loop.simps [code]
declare path_to_node_loop.simps [code]
declare all_of.simps [code]
declare set_status.simps [code]
declare pop_loop.simps [code]
declare push_loop.simps [code]

end
