(* ===== verification/TreeFacts.thy ===== *)
theory TreeFacts
  imports Tree
begin

text \<open>
  Positions in the partition tree: the heap invariant \<open>heap_wf\<close> and its preservation by the
  constructors, termination of the walks, paths as addresses, ancestors as prefixes and \<open>all()\<close>
  as the enumeration of a subtree.
\<close>

section \<open>The heap invariant\<close>

text \<open>A node points to an older node of the other class in the same tree, and is listed at most
  once, and only by its parent.\<close>

definition parent_ok :: "heap \<Rightarrow> nid \<Rightarrow> bool" where
  "parent_ok h n = (case n_parent (cell h n) of
       None \<Rightarrow> n_class (cell h n) = AndNode \<and> n_root (cell h n) = n
     | Some p \<Rightarrow> p < n \<and> n_class (cell h p) \<noteq> n_class (cell h n)
         \<and> n_root (cell h n) = n_root (cell h p))"

definition children_ok :: "heap \<Rightarrow> nid \<Rightarrow> bool" where
  "children_ok h n = (distinct (n_children (cell h n))
     \<and> (\<forall>c \<in> set (n_children (cell h n)). c < fresh h \<and> n_parent (cell h c) = Some n))"

definition heap_wf :: "heap \<Rightarrow> bool" where
  "heap_wf h = (\<forall>n < fresh h. parent_ok h n \<and> children_ok h n)"

lemma heap_wf_empty: "heap_wf empty_heap"
  by (simp add: heap_wf_def empty_heap_def)

lemma heap_wf_parent:
  "heap_wf h \<Longrightarrow> n < fresh h \<Longrightarrow> n_parent (cell h n) = Some p \<Longrightarrow>
   p < n \<and> p < fresh h \<and> n_class (cell h p) \<noteq> n_class (cell h n) \<and> n_root (cell h n) = n_root (cell h p)"
  by (fastforce simp: heap_wf_def parent_ok_def)

lemma heap_wf_child:
  "heap_wf h \<Longrightarrow> n < fresh h \<Longrightarrow> c \<in> set (n_children (cell h n)) \<Longrightarrow>
   n < c \<and> c < fresh h \<and> n_parent (cell h c) = Some n"
  by (meson children_ok_def heap_wf_def heap_wf_parent)

lemma heap_wf_distinct: "heap_wf h \<Longrightarrow> n < fresh h \<Longrightarrow> distinct (n_children (cell h n))"
  by (simp add: heap_wf_def children_ok_def)

lemma heap_wf_root:
  "heap_wf h \<Longrightarrow> n < fresh h \<Longrightarrow> n_parent (cell h n) = None \<Longrightarrow>
   n_class (cell h n) = AndNode \<and> n_root (cell h n) = n"
  by (fastforce simp: heap_wf_def parent_ok_def)

text \<open>Changes that keep the links keep the invariant.\<close>

definition same_links :: "node \<Rightarrow> node \<Rightarrow> bool" where
  "same_links x y = (n_class x = n_class y \<and> n_parent x = n_parent y \<and> n_root x = n_root y
     \<and> n_children x = n_children y \<and> n_smt x = n_smt y \<and> n_name x = n_name y \<and> n_kind x = n_kind y)"

definition same_shape :: "heap \<Rightarrow> heap \<Rightarrow> bool" where
  "same_shape h h' = (fresh h = fresh h' \<and> (\<forall>n. same_links (cell h n) (cell h' n)))"

lemma same_shape_refl [simp]: "same_shape h h"
  by (simp add: same_shape_def same_links_def)

lemma same_shape_sym: "same_shape h h' \<Longrightarrow> same_shape h' h"
  by (simp add: same_shape_def same_links_def)

lemma same_shape_trans [trans]: "same_shape h h' \<Longrightarrow> same_shape h' h'' \<Longrightarrow> same_shape h h''"
  by (simp add: same_shape_def same_links_def)

lemma same_shape_upd: "same_links (cell h n) (f (cell h n)) \<Longrightarrow> same_shape h (upd n f h)"
  by (simp add: same_shape_def same_links_def)

lemma same_shape_cell:
  assumes "same_shape h h'"
  shows "fresh h' = fresh h" "n_class (cell h' n) = n_class (cell h n)"
    "n_parent (cell h' n) = n_parent (cell h n)" "n_root (cell h' n) = n_root (cell h n)"
    "n_children (cell h' n) = n_children (cell h n)" "n_smt (cell h' n) = n_smt (cell h n)"
    "n_name (cell h' n) = n_name (cell h n)" "n_kind (cell h' n) = n_kind (cell h n)"
  using assms by (simp_all add: same_shape_def same_links_def)

lemma same_shape_ok:
  assumes "same_shape h h'"
  shows "parent_ok h' n = parent_ok h n" "children_ok h' n = children_ok h n"
  using same_shape_cell [OF assms] by (simp_all add: parent_ok_def children_ok_def split: option.split)

lemma same_shape_wf: "same_shape h h' \<Longrightarrow> heap_wf h \<Longrightarrow> heap_wf h'"
  by (simp add: heap_wf_def same_shape_ok same_shape_cell)

section \<open>The constructors\<close>

text \<open>What \<open>node_init\<close> leaves, written out.\<close>

definition grown :: "node_class \<Rightarrow> nid option \<Rightarrow> string \<Rightarrow> heap \<Rightarrow> heap" where
  "grown k parent smt h =
     (put (fresh h)
        (blank\<lparr>n_class := k, n_parent := parent,
           n_root := (case parent of None \<Rightarrow> fresh h | Some p \<Rightarrow> n_root (cell h p)), n_smt := smt\<rparr>)
        (case parent of None \<Rightarrow> h | Some p \<Rightarrow> upd p (\<lambda>x. x\<lparr>n_children := n_children x @ [fresh h]\<rparr>) h))
     \<lparr>fresh := Suc (fresh h)\<rparr>"

lemma node_init_run: "node_init k parent smt h = Some (Inr (fresh h), grown k parent smt h)"
  by (simp add: node_init_def grown_def run_simps Let_def split: option.splits)

lemma and_node_run:
  "and_node parent smt h =
     (if (case parent of None \<Rightarrow> True | Some p \<Rightarrow> n_class (cell h p) = OrNode)
      then Some (Inr (fresh h), grown AndNode parent smt h) else Some (Inl TypeError, h))"
  by (simp add: and_node_def run_simps node_init_run)

lemma or_node_run:
  "or_node parent smt h =
     (if (case parent of None \<Rightarrow> False | Some p \<Rightarrow> n_class (cell h p) = AndNode)
      then Some (Inr (fresh h), grown OrNode parent smt h) else Some (Inl TypeError, h))"
  by (simp add: or_node_def run_simps node_init_run)

lemma fresh_grown [simp]: "fresh (grown k parent smt h) = Suc (fresh h)"
  by (simp add: grown_def)

lemma cell_grown_new:
  "cell (grown k parent smt h) (fresh h) = blank\<lparr>n_class := k, n_parent := parent,
     n_root := (case parent of None \<Rightarrow> fresh h | Some p \<Rightarrow> n_root (cell h p)), n_smt := smt\<rparr>"
  by (simp add: grown_def split: option.splits)

lemma cell_grown_old:
  "n \<noteq> fresh h \<Longrightarrow> cell (grown k parent smt h) n =
     (if parent = Some n then (cell h n)\<lparr>n_children := n_children (cell h n) @ [fresh h]\<rparr> else cell h n)"
  by (simp add: grown_def split: option.splits)

lemma grown_wf:
  assumes wf: "heap_wf h" and par: "case parent of None \<Rightarrow> k = AndNode
      | Some p \<Rightarrow> p < fresh h \<and> n_class (cell h p) \<noteq> k"
  shows "heap_wf (grown k parent smt h)"
  unfolding heap_wf_def
proof (intro allI impI)
  fix n assume "n < fresh (grown k parent smt h)"
  then consider (new) "n = fresh h" | (old) "n < fresh h" "n \<noteq> fresh h" by auto linarith
  then show "parent_ok (grown k parent smt h) n \<and> children_ok (grown k parent smt h) n"
  proof cases
    case new
    then show ?thesis using par
      by (auto simp: parent_ok_def children_ok_def cell_grown_new cell_grown_old blank_def split: option.splits)
  next
    case old
    have "parent_ok (grown k parent smt h) n"
      using wf old heap_wf_root [OF wf old(1)] heap_wf_parent [OF wf old(1)]
      by (auto simp: parent_ok_def cell_grown_old split: option.splits if_splits)
    moreover have "children_ok (grown k parent smt h) n"
      using heap_wf_distinct [OF wf old(1)] heap_wf_child [OF wf old(1)] old
      by (fastforce simp: children_ok_def cell_grown_old cell_grown_new)
    ultimately show ?thesis ..
  qed
qed

lemma clear_wf:
  assumes "heap_wf h"
  shows "heap_wf (upd n (\<lambda>x. x\<lparr>n_children := []\<rparr>) h)" (is "heap_wf ?h")
proof -
  have "parent_ok ?h m = parent_ok h m" for m
    by (simp add: parent_ok_def split: option.split)
  moreover have "children_ok h m \<Longrightarrow> children_ok ?h m" for m
    by (auto simp: children_ok_def)
  ultimately show ?thesis using assms by (simp add: heap_wf_def)
qed

section \<open>Attached nodes\<close>

text \<open>A node is attached when it is listed by its parent, and so on up to a root. Nodes that a
  \<open>clear\<close> has cut off are not.\<close>

inductive attached :: "heap \<Rightarrow> nid \<Rightarrow> bool" for h where
  root: "n_parent (cell h n) = None \<Longrightarrow> attached h n"
| listed: "n_parent (cell h n) = Some p \<Longrightarrow> n \<in> set (n_children (cell h p)) \<Longrightarrow> attached h p \<Longrightarrow> attached h n"

inductive_simps attached_iff: "attached h n"

text \<open>\<open>anc h a b\<close>: \<open>a\<close> is on the parent chain of \<open>b\<close>, or \<open>b\<close> itself.\<close>

inductive anc :: "heap \<Rightarrow> nid \<Rightarrow> nid \<Rightarrow> bool" for h where
  self: "anc h a a"
| up: "n_parent (cell h b) = Some p \<Longrightarrow> anc h a p \<Longrightarrow> anc h a b"

inductive_simps anc_iff: "anc h a b"

lemma anc_trans: "anc h b c \<Longrightarrow> anc h a b \<Longrightarrow> anc h a c"
  by (induction rule: anc.induct) (auto intro: anc.intros)

lemma attached_anc: "anc h a b \<Longrightarrow> attached h b \<Longrightarrow> attached h a"
  by (induction rule: anc.induct) (auto elim: attached.cases)

lemma anc_le:
  "anc h a b \<Longrightarrow> heap_wf h \<Longrightarrow> b < fresh h \<Longrightarrow> a \<le> b"
  by (induction rule: anc.induct) (auto dest: heap_wf_parent)

lemma anc_root: "anc h a b \<Longrightarrow> heap_wf h \<Longrightarrow> b < fresh h \<Longrightarrow> n_root (cell h a) = n_root (cell h b)"
  by (induction rule: anc.induct) (auto dest: heap_wf_parent)

lemma anc_antisym: "anc h a b \<Longrightarrow> anc h b a \<Longrightarrow> heap_wf h \<Longrightarrow> a < fresh h \<Longrightarrow> b < fresh h \<Longrightarrow> a = b"
  by (meson anc_le le_antisym)

lemma attached_fresh:
  "attached h n \<Longrightarrow> heap_wf h \<Longrightarrow> n < fresh h \<Longrightarrow> m \<in> set (n_children (cell h n)) \<Longrightarrow> attached h m"
  by (metis attached.listed heap_wf_child)

text \<open>The chain from an allocated node ends at its root.\<close>

lemma anc_of_root:
  "heap_wf h \<Longrightarrow> n < fresh h \<Longrightarrow> anc h (n_root (cell h n)) n \<and> n_parent (cell h (n_root (cell h n))) = None"
proof (induction n rule: less_induct)
  case (less n)
  show ?case
  proof (cases "n_parent (cell h n)")
    case None
    with heap_wf_root [OF less.prems None] show ?thesis by (simp add: anc.self)
  next
    case (Some p)
    with heap_wf_parent [OF less.prems Some] less show ?thesis by (auto intro: anc.up)
  qed
qed

section \<open>Paths are addresses\<close>

lemma path_loop_attached: "attached h n \<Longrightarrow> \<exists>q. \<forall>acc. path_loop n acc h = Some (Inr (acc @ q))"
proof (induction rule: attached.induct)
  case (root n)
  then show ?case by (intro exI [of _ "[]"]) (simp add: path_loop.simps)
next
  case (listed n p)
  from listed.IH obtain q where "\<forall>acc. path_loop p acc h = Some (Inr (acc @ q))" ..
  moreover obtain i where "index_of n (n_children (cell h p)) = Some i"
    using listed.hyps(2) by (metis index_of_None not_Some_eq)
  moreover have "n_children (cell h p) \<noteq> []" using listed.hyps(2) by auto
  ultimately show ?case
    using listed.hyps(1) by (intro exI [of _ "i # q"]) (simp add: path_loop.simps [of n])
qed

text \<open>The path of an attached node as a value.\<close>

definition addr :: "heap \<Rightarrow> nid \<Rightarrow> nat list" where
  "addr h n = (case path n h of Some (Inr p) \<Rightarrow> p | _ \<Rightarrow> [])"

lemma path_attached: "attached h n \<Longrightarrow> path n h = Some (Inr (addr h n))"
  using path_loop_attached [of h n] by (auto simp: path_def addr_def)

lemma addr_root: "n_parent (cell h n) = None \<Longrightarrow> addr h n = []"
  by (simp add: addr_def path_def path_loop.simps)

lemma addr_listed:
  assumes "attached h p" and par: "n_parent (cell h n) = Some p"
    and i: "index_of n (n_children (cell h p)) = Some i"
  shows "addr h n = addr h p @ [i]"
proof -
  from i have "n_children (cell h p) \<noteq> []" by auto
  with par i have step: "path_loop n [] h = path_loop p ([] @ [i]) h" by (subst path_loop.simps) simp
  from path_loop_attached [OF assms(1)] obtain q where q: "\<forall>acc. path_loop p acc h = Some (Inr (acc @ q))" ..
  with step show ?thesis by (simp add: addr_def path_def)
qed

lemma attached_listed_cases:
  assumes "attached h n" and "n_parent (cell h n) = Some p"
  obtains i where "attached h p" "index_of n (n_children (cell h p)) = Some i" "addr h n = addr h p @ [i]"
proof -
  from assms have "attached h p" and n: "n \<in> set (n_children (cell h p))" by (auto elim: attached.cases)
  moreover from n obtain i where i: "index_of n (n_children (cell h p)) = Some i"
    by (metis index_of_None not_Some_eq)
  ultimately show ?thesis using that addr_listed [OF _ assms(2) i] by blast
qed

lemma child_append:
  "child n (p @ q) h = (case child n p h of Inl e \<Rightarrow> Inl e | Inr m \<Rightarrow> child m q h)"
  by (induction n p h rule: child.induct) (auto split: sum.splits)

lemma child_addr:
  "attached h n \<Longrightarrow> heap_wf h \<Longrightarrow> n < fresh h \<Longrightarrow> child (n_root (cell h n)) (map int (addr h n)) h = Inr n"
proof (induction rule: attached.induct)
  case (root n)
  then show ?case using heap_wf_root [of h n] by (simp add: addr_root)
next
  case (listed n p)
  obtain i where i: "index_of n (n_children (cell h p)) = Some i"
    using listed.hyps(2) by (metis index_of_None not_Some_eq)
  from heap_wf_parent [OF listed.prems listed.hyps(1)] listed.IH listed.prems(1)
  have "child (n_root (cell h n)) (map int (addr h p)) h = Inr p" by simp
  with addr_listed [OF listed.hyps(3,1) i] index_of_Some [OF i] show ?case
    by (simp add: child_append py_nth_nat)
qed

lemma addr_inject:
  assumes "heap_wf h" and "attached h a" and "attached h b" and "a < fresh h" and "b < fresh h"
    and "n_root (cell h a) = n_root (cell h b)" and "addr h a = addr h b"
  shows "a = b"
proof -
  have "Inr a = child (n_root (cell h a)) (map int (addr h a)) h"
    using child_addr assms(1,2,4) by simp
  also have "\<dots> = child (n_root (cell h b)) (map int (addr h b)) h" by (simp only: assms(6,7))
  also have "\<dots> = Inr b" using child_addr assms(1,3,5) by simp
  finally show ?thesis by simp
qed

text \<open>Walking down an address from a root comes out at the node of that address.\<close>

lemma child_attached:
  "child n p h = Inr m \<Longrightarrow> heap_wf h \<Longrightarrow> n < fresh h \<Longrightarrow> attached h n \<Longrightarrow> p = map int q \<Longrightarrow>
   m < fresh h \<and> attached h m \<and> anc h n m \<and> addr h m = addr h n @ q"
proof (induction n p h arbitrary: q rule: child.induct)
  case (1 n h)
  then show ?case by (simp add: anc.self)
next
  case (2 n i p h)
  from "2.prems"(5) obtain j q' where q: "q = j # q'" "i = int j" "p = map int q'" by (cases q) auto
  with "2.prems"(1) have j: "j < length (n_children (cell h n))"
    by (auto simp: py_nth_nat split: if_splits)
  let ?c = "n_children (cell h n) ! j"
  from j have c: "?c \<in> set (n_children (cell h n))" by simp
  from heap_wf_child [OF "2.prems"(2,3) c] have cf: "?c < fresh h" "n_parent (cell h ?c) = Some n" by auto
  from attached_fresh [OF "2.prems"(4,2,3) c] have ca: "attached h ?c" .
  have "index_of ?c (n_children (cell h n)) = Some j"
    using j heap_wf_distinct [OF "2.prems"(2,3)] by (simp add: index_of_nth)
  from addr_listed [OF "2.prems"(4) cf(2) this] have "addr h ?c = addr h n @ [j]" .
  moreover from "2.prems"(1) q j have "child ?c p h = Inr m" by (simp add: py_nth_nat)
  moreover from "2.IH" [of ?c q'] q j cf ca "2.prems"(2) calculation(2)
  have "m < fresh h \<and> attached h m \<and> anc h ?c m \<and> addr h m = addr h ?c @ q'"
    by (simp add: py_nth_nat)
  moreover have "anc h n ?c" using cf(2) anc.self by (rule anc.up)
  ultimately show ?case using q anc_trans [of h ?c m n] by simp
qed

section \<open>Ancestors are prefixes\<close>

lemma anc_addr_prefix: "anc h a b \<Longrightarrow> attached h b \<Longrightarrow> prefix (addr h a) (addr h b)"
proof (induction rule: anc.induct)
  case (self a)
  then show ?case by simp
next
  case (up b p)
  then obtain i where "attached h p" "addr h b = addr h p @ [i]"
    by (auto elim: attached_listed_cases)
  with up.IH show ?case by simp
qed

lemma addr_prefix_anc:
  "attached h b \<Longrightarrow> heap_wf h \<Longrightarrow> b < fresh h \<Longrightarrow> prefix q (addr h b) \<Longrightarrow>
   \<exists>a. anc h a b \<and> attached h a \<and> a < fresh h \<and> addr h a = q"
proof (induction rule: attached.induct)
  case (root b)
  then show ?case by (intro exI [of _ b]) (auto simp: addr_root intro: anc.self attached.root)
next
  case (listed b p)
  have b: "attached h b" using listed.hyps by (rule attached.listed)
  obtain i where ad: "addr h b = addr h p @ [i]"
    using attached_listed_cases [OF b listed.hyps(1)] by blast
  show ?case
  proof (cases "q = addr h b")
    case True
    with b listed.prems show ?thesis by (intro exI [of _ b]) (auto intro: anc.self)
  next
    case False
    with ad listed.prems(3) have "prefix q (addr h p)" by (auto simp: prefix_snoc)
    with listed heap_wf_parent [OF listed.prems(1,2) listed.hyps(1)] show ?thesis
      by (blast intro: anc.up)
  qed
qed

lemma is_ancestor_attached:
  assumes wf: "heap_wf h" and a: "attached h a" "a < fresh h" and b: "attached h b" "b < fresh h"
    and r: "n_root (cell h a) = n_root (cell h b)"
  shows "is_ancestor a b h = Some (Inr (anc h a b))"
proof -
  have "is_ancestor a b h = Some (Inr (prefix (addr h a) (addr h b)))"
    using a b r
    by (auto simp: is_ancestor_def path_attached list.rel_eq prefix_def)
      (metis append_take_drop_id)
  moreover have "prefix (addr h a) (addr h b) \<longleftrightarrow> anc h a b"
  proof
    assume "prefix (addr h a) (addr h b)"
    then obtain c where c: "anc h c b" "attached h c" "c < fresh h" "addr h c = addr h a"
      using addr_prefix_anc [OF b(1) wf b(2)] by blast
    from anc_root [OF c(1) wf b(2)] r have "n_root (cell h c) = n_root (cell h a)" by simp
    with addr_inject [OF wf c(2) a(1) c(3) a(2)] c show "anc h a b" by simp
  next
    assume "anc h a b"
    then show "prefix (addr h a) (addr h b)" using b(1) by (rule anc_addr_prefix)
  qed
  ultimately show ?thesis by simp
qed

section \<open>\<open>all()\<close> enumerates the subtree\<close>

inductive below :: "heap \<Rightarrow> nid \<Rightarrow> nid \<Rightarrow> bool" for h where
  here: "below h n n"
| kid: "c \<in> set (n_children (cell h n)) \<Longrightarrow> below h c m \<Longrightarrow> below h n m"

inductive_simps below_iff: "below h n m"

lemma below_anc:
  "below h n m \<Longrightarrow> heap_wf h \<Longrightarrow> n < fresh h \<Longrightarrow> anc h n m \<and> m < fresh h"
proof (induction rule: below.induct)
  case (here n)
  then show ?case by (simp add: anc.self)
next
  case (kid c n m)
  from heap_wf_child [OF kid.prems kid.hyps(1)] have "c < fresh h" "anc h n c"
    by (auto intro: anc.intros)
  with kid.IH [OF kid.prems(1)] anc_trans show ?case by blast
qed

lemma below_attached: "below h n m \<Longrightarrow> heap_wf h \<Longrightarrow> n < fresh h \<Longrightarrow> attached h n \<Longrightarrow> attached h m"
  by (induction rule: below.induct) (auto dest: heap_wf_child intro: attached_fresh)

lemma below_trans: "below h a b \<Longrightarrow> below h b c \<Longrightarrow> below h a c"
  by (induction rule: below.induct) (auto intro: below.kid)

lemma anc_below: "anc h n m \<Longrightarrow> attached h m \<Longrightarrow> below h n m"
proof (induction rule: anc.induct)
  case (self a)
  show ?case by (rule below.here)
next
  case (up b p)
  then have "b \<in> set (n_children (cell h p))" "attached h p" by (auto elim: attached.cases)
  with up.IH below.kid [OF _ below.here] show ?case by (blast intro: below_trans)
qed

lemma anc_linear: "anc h a m \<Longrightarrow> anc h b m \<Longrightarrow> anc h a b \<or> anc h b a"
proof (induction rule: anc.induct)
  case (self a)
  then show ?case by simp
next
  case (up m p)
  from up.prems up.hyps(1) have "b = m \<or> anc h b p" by (auto elim: anc.cases)
  with up show ?case by (auto intro: anc.up)
qed

lemma siblings_disjoint:
  assumes wf: "heap_wf h" "n < fresh h" and "a \<in> set (n_children (cell h n))" "b \<in> set (n_children (cell h n))"
    and "anc h a m" "anc h b m"
  shows "a = b"
proof -
  have no: "\<not> anc h x y" if "x \<in> set (n_children (cell h n))" "y \<in> set (n_children (cell h n))" "x \<noteq> y" for x y
  proof
    assume "anc h x y"
    with that heap_wf_child [OF wf that(2)] have "anc h x n" by (auto elim: anc.cases)
    from anc_le [OF this wf] heap_wf_child [OF wf that(1)] show False by simp
  qed
  from anc_linear [OF assms(5,6)] no assms(3,4) show ?thesis by blast
qed

lemma all_of_set:
  assumes wf: "heap_wf h"
  shows "\<forall>n \<in> set ns. k \<le> n \<and> n < fresh h \<Longrightarrow>
    \<exists>d. all_of ns h = Some d \<and> set d = {m. \<exists>n \<in> set ns. below h n m}"
proof (induction "fresh h - k" arbitrary: k ns rule: less_induct)
  case less
  note outer = less.hyps
  from less.prems show ?case
  proof (induction ns)
    case Nil
    then show ?case by (simp add: all_of.simps)
  next
    case (Cons n r)
    have n: "n < fresh h" "k \<le> n" using Cons.prems by auto
    have ks: "\<forall>c \<in> set (n_children (cell h n)). Suc k \<le> c \<and> c < fresh h"
      using heap_wf_child [OF wf n(1)] n(2) by fastforce
    from n have "fresh h - Suc k < fresh h - k" by simp
    from outer [OF this ks] obtain d where d: "all_of (n_children (cell h n)) h = Some d"
      "set d = {m. \<exists>c \<in> set (n_children (cell h n)). below h c m}" by blast
    from Cons.prems have "\<forall>n \<in> set r. k \<le> n \<and> n < fresh h" by simp
    from Cons.IH [OF this] obtain e where e: "all_of r h = Some e" "set e = {m. \<exists>n \<in> set r. below h n m}"
      by blast
    from d e show ?case by (subst all_of.simps) (auto simp: below_iff [of h n])
  qed
qed

lemma all_of_distinct:
  assumes wf: "heap_wf h"
  shows "\<forall>n \<in> set ns. k \<le> n \<and> n < fresh h \<Longrightarrow> distinct ns \<Longrightarrow>
    (\<forall>a \<in> set ns. \<forall>b \<in> set ns. \<forall>m. anc h a m \<longrightarrow> anc h b m \<longrightarrow> a = b) \<Longrightarrow>
    distinct (the (all_of ns h))"
proof (induction "fresh h - k" arbitrary: k ns rule: less_induct)
  case less
  note outer = less.hyps
  from less.prems show ?case
  proof (induction ns)
    case Nil
    then show ?case by (simp add: all_of.simps)
  next
    case (Cons n r)
    have n: "n < fresh h" "k \<le> n" using Cons.prems(1) by auto
    let ?ks = "n_children (cell h n)"
    have ks: "\<forall>c \<in> set ?ks. Suc n \<le> c \<and> c < fresh h" using heap_wf_child [OF wf n(1)] by fastforce
    from all_of_set [OF wf ks] obtain d where d: "all_of ?ks h = Some d"
      "set d = {m. \<exists>c \<in> set ?ks. below h c m}" by blast
    have r: "\<forall>x \<in> set r. k \<le> x \<and> x < fresh h" using Cons.prems(1) by auto
    from all_of_set [OF wf r] obtain e where e: "all_of r h = Some e"
      "set e = {m. \<exists>x \<in> set r. below h x m}" by blast
    have "distinct (the (all_of ?ks h))"
      using outer [of "Suc n" ?ks] ks n heap_wf_distinct [OF wf n(1)] siblings_disjoint [OF wf n(1)]
      by fastforce
    then have "distinct d" using d by simp
    moreover have "distinct e" using Cons.IH Cons.prems e by auto
    moreover have "n \<notin> set d" using d ks wf by (force dest: below_anc anc_le)
    moreover have an: "anc h n m" if "m \<in> set d" for m
      using that d ks wf n below_anc [of h n m] by (auto intro: below.kid)
    have ae: "\<exists>x \<in> set r. anc h x m" if "m \<in> set e" for m
      using that e r wf below_anc by blast
    have "m \<notin> set e" if "anc h n m" for m
      using ae [of m] that Cons.prems(2,3) by auto
    then have "n \<notin> set e" "set d \<inter> set e = {}" using an anc.self by auto
    ultimately show ?case using d e by (subst all_of.simps) simp
  qed
qed

lemma all_nodes_attached:
  assumes wf: "heap_wf h" and n: "n < fresh h" "attached h n"
  obtains d where "all_nodes n h = Some (Inr d)" "distinct d"
    "set d = {m. m < fresh h \<and> attached h m \<and> anc h n m}"
proof -
  have one: "\<forall>x \<in> set [n]. 0 \<le> x \<and> x < fresh h" using n by simp
  from all_of_set [OF wf one] obtain d where d: "all_of [n] h = Some d" "set d = {m. below h n m}" by auto
  from all_of_distinct [OF wf one] d have "distinct d" by simp
  moreover have "{m. below h n m} = {m. m < fresh h \<and> attached h m \<and> anc h n m}"
    using below_anc [OF _ wf n(1)] below_attached [OF _ wf n] anc_below by blast
  ultimately show ?thesis using that d by (simp add: all_nodes_def)
qed

end
