(* ===== verification/TreeStatus.thy ===== *)
theory TreeStatus
  imports TreeFacts
begin

text \<open>
  What the status setter of \<open>server/framework.py\<close> does to the tree: it always returns, changes
  statuses on the chain to the root only, and is sound and complete for the meaning of the tree
  (an \<open>OrNode\<close> stands for the disjunction of its children, each a strengthening of the node
  that was split).
\<close>

section \<open>Frame\<close>

text \<open>\<open>h'\<close> is \<open>h\<close> up to statuses.\<close>

definition status_change :: "heap \<Rightarrow> heap \<Rightarrow> bool" where
  "status_change h h' = (fresh h' = fresh h \<and>
     (\<forall>m. cell h' m = (cell h m)\<lparr>n_status := n_status (cell h' m)\<rparr>))"

lemma status_change_refl [simp]: "status_change h h"
  by (simp add: status_change_def)

lemma status_change_trans [trans]: "status_change h h' \<Longrightarrow> status_change h' h'' \<Longrightarrow> status_change h h''"
proof -
  assume 1: "status_change h h'" and 2: "status_change h' h''"
  have "cell h'' m = (cell h m)\<lparr>n_status := n_status (cell h'' m)\<rparr>" for m
  proof -
    obtain s where "cell h' m = (cell h m)\<lparr>n_status := s\<rparr>"
      using 1 unfolding status_change_def by blast
    moreover obtain s' where "cell h'' m = (cell h' m)\<lparr>n_status := s'\<rparr>"
      using 2 unfolding status_change_def by blast
    ultimately show ?thesis by simp
  qed
  with 1 2 show ?thesis unfolding status_change_def by metis
qed

lemma status_change_upd: "status_change h (upd n (\<lambda>x. x\<lparr>n_status := s\<rparr>) h)"
  by (simp add: status_change_def)

lemma status_change_cell:
  assumes "status_change h h'"
  shows "fresh h' = fresh h" "n_class (cell h' m) = n_class (cell h m)"
    "n_parent (cell h' m) = n_parent (cell h m)" "n_root (cell h' m) = n_root (cell h m)"
    "n_children (cell h' m) = n_children (cell h m)" "n_smt (cell h' m) = n_smt (cell h m)"
    "n_name (cell h' m) = n_name (cell h m)" "n_kind (cell h' m) = n_kind (cell h m)"
    "n_started (cell h' m) = n_started (cell h m)" "n_processed (cell h' m) = n_processed (cell h m)"
    "n_partitioning (cell h' m) = n_partitioning (cell h m)"
    "n_is_timeout (cell h' m) = n_is_timeout (cell h m)"
    "n_assumed_timout (cell h' m) = n_assumed_timout (cell h m)"
proof -
  obtain s where "cell h' m = (cell h m)\<lparr>n_status := s\<rparr>"
    using assms unfolding status_change_def by blast
  then show "n_class (cell h' m) = n_class (cell h m)"
    "n_parent (cell h' m) = n_parent (cell h m)" "n_root (cell h' m) = n_root (cell h m)"
    "n_children (cell h' m) = n_children (cell h m)" "n_smt (cell h' m) = n_smt (cell h m)"
    "n_name (cell h' m) = n_name (cell h m)" "n_kind (cell h' m) = n_kind (cell h m)"
    "n_started (cell h' m) = n_started (cell h m)" "n_processed (cell h' m) = n_processed (cell h m)"
    "n_partitioning (cell h' m) = n_partitioning (cell h m)"
    "n_is_timeout (cell h' m) = n_is_timeout (cell h m)"
    "n_assumed_timout (cell h' m) = n_assumed_timout (cell h m)"
    by simp_all
  show "fresh h' = fresh h" using assms unfolding status_change_def by blast
qed

lemma status_change_shape: "status_change h h' \<Longrightarrow> same_shape h h'"
  using status_change_cell by (simp add: same_shape_def same_links_def)

lemma same_shape_anc: "same_shape h h' \<Longrightarrow> anc h a b \<Longrightarrow> anc h' a b"
  by (rotate_tac, induction rule: anc.induct) (auto intro: anc.intros simp: same_shape_cell)

lemma same_shape_anc_iff: "same_shape h h' \<Longrightarrow> anc h' a b = anc h a b"
  using same_shape_anc same_shape_sym by blast

lemma same_shape_attached: "same_shape h h' \<Longrightarrow> attached h n \<Longrightarrow> attached h' n"
  by (rotate_tac, induction rule: attached.induct) (auto intro: attached.intros simp: same_shape_cell)

lemma same_shape_attached_iff: "same_shape h h' \<Longrightarrow> attached h' n = attached h n"
  using same_shape_attached same_shape_sym by blast

section \<open>Unfolding the setter\<close>

text \<open>Whether the status goes on to the parent.\<close>

definition passes_up :: "heap \<Rightarrow> nid \<Rightarrow> solve_status \<Rightarrow> nid \<Rightarrow> bool" where
  "passes_up h n s p = (n_class (cell h n) = OrNode \<or>
     (n_children (cell h p) \<noteq> [] \<and>
      (s = Sat \<or> (\<forall>c \<in> set (n_children (cell h p)). n_status (cell (upd n (\<lambda>x. x\<lparr>n_status := s\<rparr>) h) c) = s))))"

lemma set_status_step:
  assumes "n_class (cell h n) = OrNode \<Longrightarrow> n_parent (cell h n) \<noteq> None"
    and "n_parent (cell h n) \<noteq> Some n"
  shows "set_status n s h = (let h1 = upd n (\<lambda>x. x\<lparr>n_status := s\<rparr>) h in
     case n_parent (cell h n) of None \<Rightarrow> Some (Inr (), h1)
     | Some p \<Rightarrow> if passes_up h n s p then set_status p s h1 else Some (Inr (), h1))"
  using assms
  by (subst set_status.simps)
    (auto simp: Let_def passes_up_def split: node_class.splits option.splits)

lemma set_status_wf_step:
  assumes wf: "heap_wf h" and n: "n < fresh h"
  shows "set_status n s h = (let h1 = upd n (\<lambda>x. x\<lparr>n_status := s\<rparr>) h in
     case n_parent (cell h n) of None \<Rightarrow> Some (Inr (), h1)
     | Some p \<Rightarrow> if passes_up h n s p then set_status p s h1 else Some (Inr (), h1))"
  using heap_wf_root [OF wf n] heap_wf_parent [OF wf n]
  by (intro set_status_step) auto

text \<open>Induction along the chain that the setter climbs, for heaps that keep the invariant.\<close>

lemma set_status_induct [consumes 2, case_names stop climb]:
  assumes wf: "heap_wf h" and n: "n < fresh h"
    and stop: "\<And>h n. heap_wf h \<Longrightarrow> n < fresh h \<Longrightarrow>
      (case n_parent (cell h n) of None \<Rightarrow> True | Some p \<Rightarrow> \<not> passes_up h n s p) \<Longrightarrow>
      P n h (upd n (\<lambda>x. x\<lparr>n_status := s\<rparr>) h)"
    and climb: "\<And>h n p h'. heap_wf h \<Longrightarrow> n < fresh h \<Longrightarrow> n_parent (cell h n) = Some p \<Longrightarrow>
      passes_up h n s p \<Longrightarrow> p < n \<Longrightarrow> set_status p s (upd n (\<lambda>x. x\<lparr>n_status := s\<rparr>) h) = Some (Inr (), h') \<Longrightarrow>
      P p (upd n (\<lambda>x. x\<lparr>n_status := s\<rparr>) h) h' \<Longrightarrow> P n h h'"
  shows "\<exists>h'. set_status n s h = Some (Inr (), h') \<and> P n h h'"
  using wf n
proof (induction n arbitrary: h rule: less_induct)
  case (less n)
  let ?h1 = "upd n (\<lambda>x. x\<lparr>n_status := s\<rparr>) h"
  have wf1: "heap_wf ?h1" using status_change_upd status_change_shape same_shape_wf less.prems(1) by blast
  show ?case
  proof (cases "n_parent (cell h n)")
    case None
    with less.prems stop show ?thesis by (auto simp: set_status_wf_step Let_def)
  next
    case (Some p)
    with heap_wf_parent [OF less.prems] have p: "p < n" "p < fresh ?h1" by auto
    show ?thesis
    proof (cases "passes_up h n s p")
      case True
      from less.IH [OF p(1) wf1 p(2)] obtain h' where "set_status p s ?h1 = Some (Inr (), h')" "P p ?h1 h'"
        by blast
      with climb [OF less.prems Some True p(1)] Some True show ?thesis
        by (simp add: set_status_wf_step [OF less.prems] Let_def)
    next
      case False
      with Some stop [OF less.prems] show ?thesis
        by (simp add: set_status_wf_step [OF less.prems] Let_def)
    qed
  qed
qed

section \<open>The setter returns and touches statuses on the chain only\<close>

lemma set_status_frame:
  assumes "heap_wf h" and "n < fresh h"
  shows "\<exists>h'. set_status n s h = Some (Inr (), h') \<and>
    (status_change h h' \<and> (\<forall>m. \<not> anc h m n \<longrightarrow> cell h' m = cell h m) \<and> n_status (cell h' n) = s
     \<and> (\<forall>m. n_status (cell h' m) \<in> {n_status (cell h m), s}))"
  using assms
proof (induction rule: set_status_induct)
  case (stop h n)
  then show ?case by (auto simp: status_change_upd anc.self)
next
  case (climb h n p h')
  let ?h1 = "upd n (\<lambda>x. x\<lparr>n_status := s\<rparr>) h"
  have 1: "status_change h ?h1" by (rule status_change_upd)
  have "cell h' m = cell h m" if "\<not> anc h m n" for m
  proof -
    from that climb(3) have "\<not> anc h m p" "m \<noteq> n" by (auto intro: anc.intros)
    with climb(7) same_shape_anc_iff [OF status_change_shape [OF 1]] show ?thesis by simp
  qed
  moreover have "n_status (cell h' n) = s"
  proof -
    have "n_status (cell h' n) \<in> {n_status (cell ?h1 n), s}" using climb(7) by blast
    then show ?thesis by auto
  qed
  moreover have "n_status (cell h' m) \<in> {n_status (cell h m), s}" for m
  proof -
    have "n_status (cell h' m) \<in> {n_status (cell ?h1 m), s}" using climb(7) by blast
    then show ?thesis by (auto split: if_splits)
  qed
  ultimately show ?case using status_change_trans [OF 1] climb(7) by blast
qed

lemma set_status_returns:
  assumes "heap_wf h" and "n < fresh h"
  obtains h' where "set_status n s h = Some (Inr (), h')" "status_change h h'"
    "\<And>m. \<not> anc h m n \<Longrightarrow> cell h' m = cell h m" "n_status (cell h' n) = s"
    "\<And>m. n_status (cell h' m) \<in> {n_status (cell h m), s}" "heap_wf h'"
  using set_status_frame [OF assms, of s] same_shape_wf status_change_shape assms(1) by blast

section \<open>Soundness\<close>

text \<open>
  \<open>T n\<close>: the formula of node \<open>n\<close> is satisfiable. A split has the same models as the node that
  was split, a partition strengthens the split it belongs to, and the partitions listed in a
  split together cover it.
\<close>

definition tree_meaning :: "heap \<Rightarrow> (nid \<Rightarrow> bool) \<Rightarrow> bool" where
  "tree_meaning h T = (\<forall>n < fresh h.
     (\<forall>p. n_parent (cell h n) = Some p \<longrightarrow>
        (if n_class (cell h n) = OrNode then T n = T p else (T n \<longrightarrow> T p)))
     \<and> (n_class (cell h n) = OrNode \<and> n_children (cell h n) \<noteq> [] \<and> T n
          \<longrightarrow> (\<exists>c \<in> set (n_children (cell h n)). T c)))"

definition fits :: "solve_status \<Rightarrow> bool \<Rightarrow> bool" where
  "fits s b = (case s of Unknown \<Rightarrow> True | Sat \<Rightarrow> b | Unsat \<Rightarrow> \<not> b)"

definition truthful :: "heap \<Rightarrow> (nid \<Rightarrow> bool) \<Rightarrow> bool" where
  "truthful h T = (\<forall>n. fits (n_status (cell h n)) (T n))"

lemma tree_meaning_shape: "same_shape h h' \<Longrightarrow> tree_meaning h T \<Longrightarrow> tree_meaning h' T"
  by (simp add: tree_meaning_def same_shape_cell)

lemma truthful_upd: "truthful h T \<Longrightarrow> fits s (T n) \<Longrightarrow> truthful (upd n (\<lambda>x. x\<lparr>n_status := s\<rparr>) h) T"
  by (simp add: truthful_def)

lemma passes_up_fits:
  assumes wf: "heap_wf h" "n < fresh h" and mean: "tree_meaning h T" and tr: "truthful h T"
    and s: "fits s (T n)" and p: "n_parent (cell h n) = Some p" "passes_up h n s p"
  shows "fits s (T p)"
proof (cases "n_class (cell h n) = OrNode")
  case True
  with mean wf(2) p(1) s show ?thesis by (auto simp: tree_meaning_def)
next
  case False
  then have up: "T n \<longrightarrow> T p" and pc: "n_class (cell h p) = OrNode" and pf: "p < fresh h"
    using mean wf p(1) heap_wf_parent [OF wf p(1)] by (auto simp: tree_meaning_def) (metis node_class.exhaust)
  show ?thesis
  proof (cases s)
    case Unsat
    with p(2) False have ne: "n_children (cell h p) \<noteq> []" and all: "\<forall>c \<in> set (n_children (cell h p)).
        n_status (cell (upd n (\<lambda>x. x\<lparr>n_status := s\<rparr>) h) c) = Unsat"
      by (auto simp: passes_up_def)
    have "truthful (upd n (\<lambda>x. x\<lparr>n_status := s\<rparr>) h) T" using tr s by (rule truthful_upd)
    with all have "\<forall>c \<in> set (n_children (cell h p)). \<not> T c"
      by (fastforce simp: truthful_def fits_def split: solve_status.splits)
    with mean pf pc ne have "\<not> T p" by (auto simp: tree_meaning_def)
    with Unsat show ?thesis by (simp add: fits_def)
  qed (use s up in \<open>auto simp: fits_def\<close>)
qed

lemma set_status_truthful:
  assumes "heap_wf h" and "n < fresh h"
  shows "\<exists>h'. set_status n s h = Some (Inr (), h') \<and>
    (tree_meaning h T \<longrightarrow> truthful h T \<longrightarrow> fits s (T n) \<longrightarrow> truthful h' T)"
  using assms
proof (induction rule: set_status_induct)
  case (stop h n)
  then show ?case by (simp add: truthful_upd)
next
  case (climb h n p h')
  let ?h1 = "upd n (\<lambda>x. x\<lparr>n_status := s\<rparr>) h"
  show ?case
  proof (intro impI)
    assume "tree_meaning h T" "truthful h T" "fits s (T n)"
    moreover from this have "fits s (T p)" using passes_up_fits climb(1-4) by blast
    moreover have "tree_meaning ?h1 T"
      using tree_meaning_shape status_change_shape [OF status_change_upd] \<open>tree_meaning h T\<close> by blast
    ultimately show "truthful h' T" using climb(7) truthful_upd by blast
  qed
qed

section \<open>A model found anywhere reaches the root\<close>

lemma set_status_sat:
  assumes "heap_wf h" and "n < fresh h"
  shows "\<exists>h'. set_status n Sat h = Some (Inr (), h') \<and>
    (attached h n \<longrightarrow> (\<forall>a. anc h a n \<longrightarrow> n_status (cell h' a) = Sat))"
  using assms
proof (induction rule: set_status_induct)
  case (stop h n)
  show ?case
  proof (intro impI allI)
    fix a assume "attached h n" "anc h a n"
    from \<open>attached h n\<close> stop have "n_parent (cell h n) = None"
      by cases (auto simp: passes_up_def)
    with \<open>anc h a n\<close> show "n_status (cell (upd n (\<lambda>x. x\<lparr>n_status := Sat\<rparr>) h) a) = Sat"
      by (auto elim: anc.cases)
  qed
next
  case (climb h n p h')
  let ?h1 = "upd n (\<lambda>x. x\<lparr>n_status := Sat\<rparr>) h"
  have sh: "same_shape h ?h1" by (rule status_change_shape [OF status_change_upd])
  show ?case
  proof (intro impI allI)
    fix a assume att: "attached h n" and "anc h a n"
    then consider "a = n" | "anc h a p" using climb(3) by (auto elim: anc.cases)
    then show "n_status (cell h' a) = Sat"
    proof cases
      case 1
      have "p < fresh ?h1" using climb(2,5) by simp
      from set_status_frame [OF same_shape_wf [OF sh climb(1)] this, of Sat] obtain h2 where
        h2: "set_status p Sat ?h1 = Some (Inr (), h2)"
          "n_status (cell h2 n) \<in> {n_status (cell ?h1 n), Sat}" by blast
      from h2(1) climb(6) have "h2 = h'" by simp
      with h2(2) 1 show ?thesis by simp
    next
      case 2
      from att climb(3) have "attached h p" by (auto elim: attached.cases)
      with 2 climb(7) show ?thesis
        using same_shape_anc_iff [OF sh] same_shape_attached_iff [OF sh] by blast
    qed
  qed
qed

section \<open>Refuting every partition refutes the instance\<close>

text \<open>Nothing that the setter would pass up has been left behind.\<close>

definition unsat_closed :: "heap \<Rightarrow> bool" where
  "unsat_closed h = (\<forall>n < fresh h. n_class (cell h n) = OrNode \<longrightarrow>
     (n_children (cell h n) \<noteq> [] \<and> (\<forall>c \<in> set (n_children (cell h n)). n_status (cell h c) = Unsat)
        \<longrightarrow> n_status (cell h n) = Unsat)
     \<and> (\<forall>p. n_parent (cell h n) = Some p \<and> n_status (cell h n) = Unsat \<longrightarrow> n_status (cell h p) = Unsat))"

lemma unsat_closedD:
  assumes "unsat_closed h" "n < fresh h" "n_class (cell h n) = OrNode"
  shows "n_children (cell h n) \<noteq> [] \<Longrightarrow> (\<And>c. c \<in> set (n_children (cell h n)) \<Longrightarrow> n_status (cell h c) = Unsat) \<Longrightarrow>
      n_status (cell h n) = Unsat"
    and "n_parent (cell h n) = Some p \<Longrightarrow> n_status (cell h n) = Unsat \<Longrightarrow> n_status (cell h p) = Unsat"
  using assms unfolding unsat_closed_def by blast+

text \<open>The same without the two places that the setter is about to repair: the parent of \<open>n\<close>.\<close>

definition unsat_closed_but :: "nid \<Rightarrow> heap \<Rightarrow> bool" where
  "unsat_closed_but a h = (\<forall>n < fresh h. n_class (cell h n) = OrNode \<longrightarrow>
     (n \<noteq> a \<and> n_children (cell h n) \<noteq> [] \<and> (\<forall>c \<in> set (n_children (cell h n)). n_status (cell h c) = Unsat)
        \<longrightarrow> n_status (cell h n) = Unsat)
     \<and> (\<forall>p. p \<noteq> a \<and> n_parent (cell h n) = Some p \<and> n_status (cell h n) = Unsat \<longrightarrow> n_status (cell h p) = Unsat))"

lemma unsat_closed_but_weaken: "unsat_closed h \<Longrightarrow> unsat_closed_but a h"
  unfolding unsat_closed_def unsat_closed_but_def by blast

lemma unsat_closed_butD:
  assumes "unsat_closed_but a h" "n < fresh h" "n_class (cell h n) = OrNode"
  shows "n \<noteq> a \<Longrightarrow> n_children (cell h n) \<noteq> [] \<Longrightarrow> \<forall>c \<in> set (n_children (cell h n)). n_status (cell h c) = Unsat \<Longrightarrow>
      n_status (cell h n) = Unsat"
    and "p \<noteq> a \<Longrightarrow> n_parent (cell h n) = Some p \<Longrightarrow> n_status (cell h n) = Unsat \<Longrightarrow> n_status (cell h p) = Unsat"
  using assms unfolding unsat_closed_but_def by blast+

lemma unsat_closed_but_next:
  assumes "unsat_closed_but n h" "heap_wf h" "n < fresh h" "n_parent (cell h n) = Some p"
  shows "unsat_closed_but p (upd n (\<lambda>x. x\<lparr>n_status := Unsat\<rparr>) h)"
  unfolding unsat_closed_but_def
proof (intro allI impI conjI)
  fix m assume m: "m < fresh (upd n (\<lambda>x. x\<lparr>n_status := Unsat\<rparr>) h)"
    and o: "n_class (cell (upd n (\<lambda>x. x\<lparr>n_status := Unsat\<rparr>) h) m) = OrNode"
  let ?h1 = "upd n (\<lambda>x. x\<lparr>n_status := Unsat\<rparr>) h"
  have old: "m < fresh h" "n_class (cell h m) = OrNode" using m o by (auto split: if_splits)
  {
    assume k: "m \<noteq> p \<and> n_children (cell ?h1 m) \<noteq> [] \<and> (\<forall>c \<in> set (n_children (cell ?h1 m)). n_status (cell ?h1 c) = Unsat)"
    show "n_status (cell ?h1 m) = Unsat"
    proof (cases "m = n")
      case False
      have "n \<notin> set (n_children (cell h m))"
        using heap_wf_child [OF assms(2) old(1), of n] assms(4) k by auto
      then have "\<forall>c \<in> set (n_children (cell h m)). n_status (cell h c) = Unsat"
        using k False by (metis (no_types, lifting) cell_upd fun_upd_other)
      with unsat_closed_butD(1) [OF assms(1) old False] False k show ?thesis by simp
    qed simp
  next
    fix q assume q: "q \<noteq> p \<and> n_parent (cell ?h1 m) = Some q \<and> n_status (cell ?h1 m) = Unsat"
    then show "n_status (cell ?h1 q) = Unsat"
      using unsat_closed_butD(2) [OF assms(1) old, of q] assms(4) by (cases "m = n"; cases "q = n") auto
  }
qed

lemma unsat_closed_but_done:
  assumes but: "unsat_closed_but n h" and wf: "heap_wf h" and n: "n < fresh h"
    and stop: "case n_parent (cell h n) of None \<Rightarrow> True | Some p \<Rightarrow> \<not> passes_up h n Unsat p"
  shows "unsat_closed (upd n (\<lambda>x. x\<lparr>n_status := Unsat\<rparr>) h)"
  unfolding unsat_closed_def
proof (intro allI impI conjI)
  fix m assume m: "m < fresh (upd n (\<lambda>x. x\<lparr>n_status := Unsat\<rparr>) h)"
    and o: "n_class (cell (upd n (\<lambda>x. x\<lparr>n_status := Unsat\<rparr>) h) m) = OrNode"
  let ?h1 = "upd n (\<lambda>x. x\<lparr>n_status := Unsat\<rparr>) h"
  have old: "m < fresh h" "n_class (cell h m) = OrNode" using m o by (auto split: if_splits)
  have top: "n_class (cell h n) = AndNode"
    using stop heap_wf_root [OF wf n] by (cases "n_class (cell h n)") (auto simp: passes_up_def split: option.splits)
  {
    assume k: "n_children (cell ?h1 m) \<noteq> [] \<and> (\<forall>c \<in> set (n_children (cell ?h1 m)). n_status (cell ?h1 c) = Unsat)"
    have "m \<noteq> n" using top old by auto
    have "n \<notin> set (n_children (cell h m))"
      using heap_wf_child [OF wf old(1), of n] stop k \<open>m \<noteq> n\<close> by (auto simp: passes_up_def)
    then have "\<forall>c \<in> set (n_children (cell h m)). n_status (cell h c) = Unsat"
      using k \<open>m \<noteq> n\<close> by (metis (no_types, lifting) cell_upd fun_upd_other)
    with unsat_closed_butD(1) [OF but old \<open>m \<noteq> n\<close>] \<open>m \<noteq> n\<close> k show "n_status (cell ?h1 m) = Unsat" by simp
  next
    fix q assume q: "n_parent (cell ?h1 m) = Some q \<and> n_status (cell ?h1 m) = Unsat"
    then show "n_status (cell ?h1 q) = Unsat"
      using unsat_closed_butD(2) [OF but old, of q] top old by (cases "m = n"; cases "q = n") auto
  }
qed

lemma set_status_unsat_closed:
  assumes "heap_wf h" and "n < fresh h"
  shows "\<exists>h'. set_status n Unsat h = Some (Inr (), h') \<and> (unsat_closed_but n h \<longrightarrow> unsat_closed h')"
  using assms
proof (induction rule: set_status_induct)
  case (stop h n)
  then show ?case using unsat_closed_but_done by blast
next
  case (climb h n p h')
  then show ?case using unsat_closed_but_next by blast
qed

text \<open>A node is refuted by the reports \<open>S\<close>: it is one of them, or all the partitions of one of
  its splits are refuted.\<close>

inductive refuted :: "heap \<Rightarrow> nid set \<Rightarrow> nid \<Rightarrow> bool" for h S where
  leaf: "n \<in> S \<Longrightarrow> refuted h S n"
| split: "d \<in> set (n_children (cell h n)) \<Longrightarrow> n_class (cell h d) = OrNode \<Longrightarrow> d < fresh h \<Longrightarrow>
    n_parent (cell h d) = Some n \<Longrightarrow> n_children (cell h d) \<noteq> [] \<Longrightarrow>
    \<forall>c \<in> set (n_children (cell h d)). refuted h S c \<Longrightarrow> refuted h S n"

lemma refuted_unsat:
  assumes "refuted h S n" and "unsat_closed h'" and "same_shape h h'"
    and "\<And>m. m \<in> S \<Longrightarrow> n_status (cell h' m) = Unsat"
  shows "n_status (cell h' n) = Unsat"
  using assms
proof (induction rule: refuted.induct)
  case (split o' n)
  have sh: "o' < fresh h'" "n_class (cell h' o') = OrNode" "n_parent (cell h' o') = Some n"
    "n_children (cell h' o') = n_children (cell h o')"
    using split same_shape_cell [OF split.prems(2)] by simp_all
  have "n_status (cell h' o') = Unsat"
    using unsat_closedD(1) [OF split.prems(1) sh(1,2)] sh(4) split by simp
  then show ?case using unsat_closedD(2) [OF split.prems(1) sh(1,2)] sh(3) by blast
qed blast

lemma set_status_unsat_all:
  assumes wf: "heap_wf h" and cl: "unsat_closed h" and ns: "\<forall>n \<in> set ns. n < fresh h"
  shows "\<exists>h'. forM (\<lambda>n. set_status n Unsat) ns h = Some (Inr (), h') \<and> status_change h h'
    \<and> heap_wf h' \<and> unsat_closed h' \<and> (\<forall>n \<in> set ns. n_status (cell h' n) = Unsat)
    \<and> (\<forall>m. n_status (cell h m) = Unsat \<longrightarrow> n_status (cell h' m) = Unsat)"
  using assms
proof (induction ns arbitrary: h)
  case (Cons n ns)
  from Cons.prems obtain h1 where h1: "set_status n Unsat h = Some (Inr (), h1)" "status_change h h1"
    "n_status (cell h1 n) = Unsat" "\<And>m. n_status (cell h1 m) \<in> {n_status (cell h m), Unsat}" "heap_wf h1"
    by (metis list.set_intros(1) set_status_returns)
  have "unsat_closed h1"
    using set_status_unsat_closed [of h n] unsat_closed_but_weaken h1(1) Cons.prems by auto
  moreover have "\<forall>n \<in> set ns. n < fresh h1" using Cons.prems status_change_cell(1) [OF h1(2)] by simp
  ultimately obtain h' where h': "forM (\<lambda>n. set_status n Unsat) ns h1 = Some (Inr (), h')" "status_change h1 h'"
    "heap_wf h'" "unsat_closed h'" "\<forall>n \<in> set ns. n_status (cell h' n) = Unsat"
    "\<forall>m. n_status (cell h1 m) = Unsat \<longrightarrow> n_status (cell h' m) = Unsat"
    using Cons.IH [OF h1(5)] by blast
  have "n_status (cell h1 m) = Unsat" if "n_status (cell h m) = Unsat" for m
    using h1(4) [of m] that by auto
  with h1 h' status_change_trans [OF h1(2) h'(2)] show ?case
    by (auto simp: run_simps)
qed (simp add: run_simps)

end
