(* ===== verification/SmtScript.thy ===== *)
theory SmtScript
  imports TreeFacts
begin

text \<open>
  What the scripts of \<open>SMT.to_string\<close> (\<open>server/framework.py\<close>) do to a solver's assertion stack.
  A move from a node \<open>start\<close> to a node \<open>node\<close> turns the stack that belongs to \<open>start\<close> into the
  one that belongs to \<open>node\<close>.
\<close>

section \<open>The assertion stack\<close>

text \<open>The innermost frame comes first; the outermost one cannot be popped.\<close>

type_synonym frames = "string list list"

definition PUSH :: string where "PUSH = ''(push 1)''"
definition POP :: string where "POP = ''(pop 1)''"

definition run_line :: "string \<Rightarrow> frames \<Rightarrow> frames option" where
  "run_line l st = (case st of [] \<Rightarrow> None
     | f # r \<Rightarrow> if l = PUSH then Some ([] # f # r)
       else if l = POP then (if r = [] then None else Some r)
       else Some ((f @ [l]) # r))"

fun run_lines :: "string list \<Rightarrow> frames \<Rightarrow> frames option" where
  "run_lines [] st = Some st"
| "run_lines (l # ls) st = (case run_line l st of None \<Rightarrow> None | Some st' \<Rightarrow> run_lines ls st')"

text \<open>The stack of a node: a frame for every \<open>AndNode\<close> from the root down to it.\<close>

partial_function (option) stack_of :: "nid \<Rightarrow> heap \<Rightarrow> frames option" where
  "stack_of n h = (case n_parent (cell h n) of None \<Rightarrow> Some [[n_smt (cell h n)]]
     | Some p \<Rightarrow> Option.bind (stack_of p h) (\<lambda>st.
         Some (if n_class (cell h n) = AndNode then [n_smt (cell h n)] # st else st)))"

declare stack_of.simps [code]

text \<open>Node texts are not themselves the commands that move between frames.\<close>

definition plain_texts :: "heap \<Rightarrow> bool" where
  "plain_texts h = (\<forall>n \<in> set [0..<fresh h]. n_smt (cell h n) \<notin> {PUSH, POP})"

lemma plain_textsD: "plain_texts h \<Longrightarrow> n < fresh h \<Longrightarrow> n_smt (cell h n) \<noteq> PUSH \<and> n_smt (cell h n) \<noteq> POP"
  by (simp add: plain_texts_def)

lemma run_lines_append:
  "run_lines (xs @ ys) st = (case run_lines xs st of None \<Rightarrow> None | Some st' \<Rightarrow> run_lines ys st')"
  by (induction xs arbitrary: st) (auto split: option.splits)

lemma run_lines_pops:
  "r \<noteq> [] \<Longrightarrow> run_lines (replicate (length fs) POP) (fs @ r) = Some r"
  by (induction fs) (auto simp: run_line_def PUSH_def POP_def)

lemma stack_of_ex:
  "heap_wf h \<Longrightarrow> n < fresh h \<Longrightarrow> \<exists>st. stack_of n h = Some st \<and> st \<noteq> []"
proof (induction n rule: less_induct)
  case (less n)
  show ?case
  proof (cases "n_parent (cell h n)")
    case None
    then show ?thesis by (subst stack_of.simps) simp
  next
    case (Some p)
    with heap_wf_parent [OF less.prems Some] less.IH [of p] less.prems obtain st
      where "stack_of p h = Some st" "st \<noteq> []" by auto
    with Some show ?thesis by (subst stack_of.simps) auto
  qed
qed

text \<open>What a script is made of.\<close>

definition texts :: "heap \<Rightarrow> string set" where
  "texts h = {n_smt (cell h n) | n. n < fresh h}"

text \<open>The stack without the option.\<close>

definition frames_of :: "nid \<Rightarrow> heap \<Rightarrow> frames" where
  "frames_of n h = the (stack_of n h)"

lemma frames_of_nonempty: "heap_wf h \<Longrightarrow> n < fresh h \<Longrightarrow> frames_of n h \<noteq> []"
  using stack_of_ex by (fastforce simp: frames_of_def)

lemma frames_of_root: "n_parent (cell h n) = None \<Longrightarrow> frames_of n h = [[n_smt (cell h n)]]"
  by (simp add: frames_of_def stack_of.simps)

lemma frames_of_step:
  assumes "heap_wf h" "n < fresh h" "n_parent (cell h n) = Some p"
  shows "frames_of n h = (if n_class (cell h n) = AndNode then [n_smt (cell h n)] # frames_of p h else frames_of p h)"
proof -
  from heap_wf_parent [OF assms] stack_of_ex [OF assms(1), of p] obtain st where "stack_of p h = Some st" by auto
  with assms(3) show ?thesis by (subst frames_of_def, subst stack_of.simps) (simp add: frames_of_def)
qed

section \<open>Going up\<close>

lemma pop_loop_attached:
  assumes wf: "heap_wf h" and b: "attached h b" "b < fresh h"
    and a: "attached h a" "a < fresh h" "n_root (cell h a) = n_root (cell h b)"
  shows "\<exists>c fs. (\<forall>k. pop_loop b (Some a) k h = Some (Inr (Some c, k + length fs)))
    \<and> anc h c b \<and> c < fresh h \<and> frames_of a h = fs @ frames_of c h"
  using a
proof (induction a rule: less_induct)
  case (less a)
  have isa: "is_ancestor a b h = Some (Inr (anc h a b))"
    using is_ancestor_attached [OF wf less.prems(1,2) b less.prems(3)] .
  show ?case
  proof (cases "anc h a b")
    case True
    have "pop_loop b (Some a) k h = Some (Inr (Some a, k + length ([] :: frames)))" for k
      by (subst pop_loop.simps) (simp add: isa True)
    with True less.prems(2) show ?thesis by (metis append_Nil)
  next
    case False
    then have "n_parent (cell h a) \<noteq> None"
      using anc_of_root [OF wf b(2)] less.prems heap_wf_root [OF wf less.prems(2)] by metis
    then obtain p where p: "n_parent (cell h a) = Some p" by blast
    from heap_wf_parent [OF wf less.prems(2) p] have "p < a" "p < fresh h"
      "n_root (cell h p) = n_root (cell h b)" using less.prems(3) by auto
    moreover have "attached h p" using less.prems(1) p by (auto elim: attached.cases)
    ultimately obtain c fs where c: "\<And>k. pop_loop b (Some p) k h = Some (Inr (Some c, k + length fs))"
      "anc h c b" "c < fresh h" "frames_of p h = fs @ frames_of c h"
      using less.IH by blast
    let ?fs = "if n_class (cell h a) = AndNode then [n_smt (cell h a)] # fs else fs"
    have "pop_loop b (Some a) k h = Some (Inr (Some c, k + length ?fs))" for k
      by (subst pop_loop.simps) (simp add: isa False p c(1))
    moreover have "frames_of a h = ?fs @ frames_of c h"
      using frames_of_step [OF wf less.prems(2) p] c(4) by simp
    ultimately show ?thesis using c(2,3) by blast
  qed
qed

section \<open>Going down\<close>

lemma run_push_text:
  "t \<noteq> PUSH \<Longrightarrow> t \<noteq> POP \<Longrightarrow> st \<noteq> [] \<Longrightarrow> run_lines [PUSH, t] st = Some ([t] # st)"
  by (cases st) (auto simp: run_line_def)

lemma push_loop_down:
  assumes wf: "heap_wf h" and tx: "plain_texts h" and r: "n_root (cell h b) = r"
    and b: "b < fresh h" and c: "anc h c b" "c < fresh h"
  shows "\<exists>xs. (\<forall>acc. push_loop r (Some b) (Some c) acc h = Some (Inr (acc @ xs)))
    \<and> run_lines (rev xs) (frames_of c h) = Some (frames_of b h) \<and> set xs \<subseteq> insert PUSH (texts h)"
  using c(1) b r
proof (induction b rule: less_induct)
  case (less b)
  show ?case
  proof (cases "b = c")
    case True
    have "push_loop r (Some c) (Some c) acc h = Some (Inr (acc @ []))" for acc
      by (subst push_loop.simps) simp
    then show ?thesis using True by (intro exI [of _ "[]"]) simp
  next
    case False
    then obtain p where p: "n_parent (cell h b) = Some p" "anc h c p"
      using less.prems(1) by (auto elim: anc.cases)
    note hp = heap_wf_parent [OF wf less.prems(2) p(1)]
    have nr: "b \<noteq> r" using anc_of_root [OF wf less.prems(2)] less.prems(3) p(1) by auto
    from hp less.IH [of p] p(2) less.prems(3) obtain xs where
      xs: "\<And>acc. push_loop r (Some p) (Some c) acc h = Some (Inr (acc @ xs))"
        "run_lines (rev xs) (frames_of c h) = Some (frames_of p h)" "set xs \<subseteq> insert PUSH (texts h)" by auto
    let ?xs = "if n_class (cell h b) = AndNode then [n_smt (cell h b), PUSH] else []"
    have "push_loop r (Some b) (Some c) acc h = Some (Inr (acc @ ?xs @ xs))" for acc
      using False nr by (subst push_loop.simps) (simp add: p(1) xs(1) PUSH_def)
    moreover have "run_lines (rev (?xs @ xs)) (frames_of c h) = Some (frames_of b h)"
      using plain_textsD [OF tx less.prems(2)] frames_of_nonempty [OF wf, of p] hp
        frames_of_step [OF wf less.prems(2) p(1)]
      by (auto simp: run_lines_append xs(2) run_push_text simp del: run_lines.simps) simp_all
    moreover have "set (?xs @ xs) \<subseteq> insert PUSH (texts h)" using xs(3) less.prems by (auto simp: texts_def)
    ultimately show ?thesis by blast
  qed
qed

lemma push_loop_fresh:
  assumes wf: "heap_wf h" and tx: "plain_texts h" and b: "b < fresh h"
  shows "\<exists>xs. (\<forall>acc. push_loop (n_root (cell h b)) (Some b) None acc h = Some (Inr (acc @ xs)))
    \<and> run_lines (rev xs) [[]] = Some (frames_of b h) \<and> set xs \<subseteq> insert PUSH (texts h)"
  using b
proof (induction b rule: less_induct)
  case (less b)
  let ?r = "n_root (cell h b)"
  show ?case
  proof (cases "n_parent (cell h b)")
    case None
    with heap_wf_root [OF wf less.prems None] have "push_loop ?r (Some b) None acc h = Some (Inr (acc @ [n_smt (cell h b)]))" for acc
      by (subst push_loop.simps, simp) (subst push_loop.simps, simp)
    moreover have "run_lines [n_smt (cell h b)] [[]] = Some (frames_of b h)"
      using plain_textsD [OF tx less.prems] by (simp add: run_line_def frames_of_root [OF None])
    moreover have "set [n_smt (cell h b)] \<subseteq> insert PUSH (texts h)" using less.prems by (auto simp: texts_def)
    ultimately show ?thesis by (metis rev_singleton_conv)
  next
    case (Some p)
    note hp = heap_wf_parent [OF wf less.prems Some]
    have nr: "b \<noteq> ?r" using anc_of_root [OF wf less.prems] Some by auto
    from hp less.IH [of p] obtain xs where
      xs: "\<And>acc. push_loop ?r (Some p) None acc h = Some (Inr (acc @ xs))"
        "run_lines (rev xs) [[]] = Some (frames_of p h)" "set xs \<subseteq> insert PUSH (texts h)" by auto
    let ?xs = "if n_class (cell h b) = AndNode then [n_smt (cell h b), PUSH] else []"
    have "push_loop ?r (Some b) None acc h = Some (Inr (acc @ ?xs @ xs))" for acc
      using nr by (subst push_loop.simps) (simp add: Some xs(1) PUSH_def)
    moreover have "run_lines (rev (?xs @ xs)) [[]] = Some (frames_of b h)"
      using plain_textsD [OF tx less.prems] frames_of_nonempty [OF wf, of p] hp
        frames_of_step [OF wf less.prems Some]
      by (auto simp: run_lines_append xs(2) run_push_text simp del: run_lines.simps) simp_all
    moreover have "set (?xs @ xs) \<subseteq> insert PUSH (texts h)" using xs(3) less.prems by (auto simp: texts_def)
    ultimately show ?thesis by blast
  qed
qed

section \<open>The whole script\<close>

lemma smt_lines_move:
  assumes wf: "heap_wf h" and tx: "plain_texts h" and b: "attached h b" "b < fresh h"
    and a: "attached h a" "a < fresh h" "n_root (cell h a) = r" "n_root (cell h b) = r"
  obtains ls where "smt_lines r b (Some a) h = Some (Inr ls)"
    "run_lines ls (frames_of a h) = Some (frames_of b h)" "set ls \<subseteq> {PUSH, POP} \<union> texts h"
proof -
  from pop_loop_attached [OF wf b a(1,2)] a(3,4) obtain c fs where
    c: "pop_loop b (Some a) 0 h = Some (Inr (Some c, 0 + length fs))" "anc h c b" "c < fresh h"
      "frames_of a h = fs @ frames_of c h" by metis
  from push_loop_down [OF wf tx a(4) b(2) c(2,3)] obtain xs where
    xs: "push_loop r (Some b) (Some c) [] h = Some (Inr ([] @ xs))"
      "run_lines (rev xs) (frames_of c h) = Some (frames_of b h)" "set xs \<subseteq> insert PUSH (texts h)" by (metis append_Nil)
  have "smt_lines r b (Some a) h = Some (Inr (replicate (length fs) POP @ rev xs))"
    using c(1) xs(1) by (simp add: smt_lines_def POP_def)
  moreover have "run_lines (replicate (length fs) POP @ rev xs) (frames_of a h) = Some (frames_of b h)"
    using run_lines_pops [OF frames_of_nonempty [OF wf c(3)]] xs(2) by (simp add: run_lines_append c(4))
  moreover have "set (replicate (length fs) POP @ rev xs) \<subseteq> {PUSH, POP} \<union> texts h" using xs(3) by auto
  ultimately show ?thesis using that by blast
qed

lemma smt_lines_fresh:
  assumes wf: "heap_wf h" and tx: "plain_texts h" and b: "b < fresh h" "n_root (cell h b) = r"
  obtains ls where "smt_lines r b None h = Some (Inr ls)"
    "run_lines ls [[]] = Some (frames_of b h)" "set ls \<subseteq> {PUSH, POP} \<union> texts h"
proof -
  from push_loop_fresh [OF wf tx b(1)] b(2) obtain xs where
    xs: "push_loop r (Some b) None [] h = Some (Inr xs)" "run_lines (rev xs) [[]] = Some (frames_of b h)"
      "set xs \<subseteq> insert PUSH (texts h)" by (metis append_Nil)
  moreover from this have "smt_lines r b None h = Some (Inr (rev xs))" by (simp add: smt_lines_def)
  ultimately show ?thesis using that [of "rev xs"] by auto
qed

section \<open>Line by line\<close>

text \<open>The lines of a text, without the empty ones; what the run of a script does to a stack of lines.\<close>

definition script_lines :: "string \<Rightarrow> string list" where
  "script_lines smt = filter (\<lambda>l. l \<noteq> []) (split_on CHR 0x0A smt)"

definition lines_of :: "frames \<Rightarrow> frames" where
  "lines_of st = map (\<lambda>f. concat (map script_lines f)) st"

definition no_moves :: "string \<Rightarrow> bool" where
  "no_moves smt = (PUSH \<notin> set (script_lines smt) \<and> POP \<notin> set (script_lines smt))"

definition plain_lines :: "heap \<Rightarrow> bool" where
  "plain_lines h = list_all (\<lambda>n. no_moves (n_smt (cell h n))) [0..<fresh h]"

lemma split_on_append: "split_on c (x @ c # y) = split_on c x @ split_on c y"
  by (induction x) (auto split: list.split)

lemma script_lines_join: "script_lines (join [CHR 0x0A] ls) = concat (map script_lines ls)"
proof (induction ls rule: induct_list012)
  case (3 a b ls)
  then show ?case by (simp add: script_lines_def split_on_append)
qed (simp_all add: script_lines_def)

lemma script_lines_move [simp]: "script_lines PUSH = [PUSH]" "script_lines POP = [POP]"
  by (simp_all add: script_lines_def PUSH_def POP_def)

lemma run_plain: "PUSH \<notin> set ls \<Longrightarrow> POP \<notin> set ls \<Longrightarrow> run_lines ls (f # r) = Some ((f @ ls) # r)"
  by (induction ls arbitrary: f) (auto simp: run_line_def)

lemma run_by_line:
  "run_lines ls st = Some st' \<Longrightarrow> \<forall>l \<in> set ls. l = PUSH \<or> l = POP \<or> no_moves l \<Longrightarrow>
   run_lines (concat (map script_lines ls)) (lines_of st) = Some (lines_of st')"
proof (induction ls arbitrary: st)
  case (Cons l ls)
  from Cons.prems obtain f r st1 where st: "st = f # r" and st1: "run_line l st = Some st1" "run_lines ls st1 = Some st'"
    by (cases st) (auto simp: run_line_def split: option.splits)
  have "run_lines (script_lines l) (lines_of st) = Some (lines_of st1)"
  proof (cases "l = PUSH \<or> l = POP")
    case True
    moreover have "PUSH \<noteq> POP" by (simp add: PUSH_def POP_def)
    ultimately show ?thesis using st st1(1) by (auto simp: run_line_def lines_of_def split: if_splits)
  next
    case False
    with Cons.prems(2) have "no_moves l" by simp
    with False st st1(1) run_plain [of "script_lines l"] show ?thesis
      by (auto simp: run_line_def lines_of_def no_moves_def)
  qed
  with Cons.IH [OF st1(2)] Cons.prems(2) show ?case by (simp add: run_lines_append)
qed simp

lemma plain_linesD: "plain_lines h \<Longrightarrow> x \<in> texts h \<Longrightarrow> no_moves x"
  by (auto simp: plain_lines_def texts_def list_all_iff)

lemma plain_lines_texts: "plain_lines h \<Longrightarrow> plain_texts h"
  by (auto simp: plain_lines_def plain_texts_def no_moves_def list_all_iff)

text \<open>The script that is sent, run by line.\<close>

lemma script_move:
  assumes "heap_wf h" "plain_lines h" "attached h b" "b < fresh h" "attached h a" "a < fresh h"
    "n_root (cell h a) = r" "n_root (cell h b) = r"
  obtains smt where "smt_to_string r b (Some a) h = Some (Inr (smt, CHECK_SAT))"
    "run_lines (script_lines smt) (lines_of (frames_of a h)) = Some (lines_of (frames_of b h))"
proof -
  obtain ls where ls: "smt_lines r b (Some a) h = Some (Inr ls)" "run_lines ls (frames_of a h) = Some (frames_of b h)"
    "set ls \<subseteq> {PUSH, POP} \<union> texts h"
    using smt_lines_move [OF assms(1) plain_lines_texts [OF assms(2)] assms(3-8)] .
  have "\<forall>l \<in> set ls. l = PUSH \<or> l = POP \<or> no_moves l" using ls(3) plain_linesD [OF assms(2)] by auto
  from run_by_line [OF ls(2) this] ls(1) that [of "join [CHR 0x0A] ls"] show ?thesis
    by (simp add: smt_to_string_def script_lines_join)
qed

lemma script_fresh:
  assumes "heap_wf h" "plain_lines h" "b < fresh h" "n_root (cell h b) = r"
  obtains smt where "smt_to_string r b None h = Some (Inr (smt, CHECK_SAT))"
    "run_lines (script_lines smt) [[]] = Some (lines_of (frames_of b h))"
proof -
  obtain ls where ls: "smt_lines r b None h = Some (Inr ls)" "run_lines ls [[]] = Some (frames_of b h)"
    "set ls \<subseteq> {PUSH, POP} \<union> texts h"
    using smt_lines_fresh [OF assms(1) plain_lines_texts [OF assms(2)] assms(3,4)] .
  have "\<forall>l \<in> set ls. l = PUSH \<or> l = POP \<or> no_moves l" using ls(3) plain_linesD [OF assms(2)] by auto
  from run_by_line [OF ls(2) this] ls(1) that [of "join [CHR 0x0A] ls"] show ?thesis
    by (simp add: smt_to_string_def script_lines_join lines_of_def)
qed

end
