(* ===== verification/TreeSpec.thy ===== *)
theory TreeSpec
  imports TreeStatus SmtScript
begin

text \<open>
  What \<open>server/framework.py\<close> promises of the partition tree: addresses (\<open>path\<close>, \<open>child\<close>), ancestors,
  enumeration, growth, statuses and scripts. The sample tree used in the witnesses is a root with
  one split of two partitions.
\<close>

section \<open>A sample tree\<close>

definition sample :: heap where
  "sample = (case bindM (root_node SMT ''f'' ''(a)'') (\<lambda>r. bindM (or_node (Some r) []) (\<lambda>d.
       bindM (and_node (Some d) ''(b)'') (\<lambda>_. and_node (Some d) ''(c)''))) empty_heap of
     Some (_, h) \<Rightarrow> h | None \<Rightarrow> empty_heap)"

lemma sample_cells [simp]: "fresh sample = 4"
  "cell sample 0 = blank\<lparr>n_smt := ''(a)'', n_children := [1], n_name := ''f''\<rparr>"
  "cell sample 1 = blank\<lparr>n_class := OrNode, n_parent := Some 0, n_children := [2, 3]\<rparr>"
  "cell sample 2 = blank\<lparr>n_parent := Some 1, n_smt := ''(b)''\<rparr>"
  "cell sample 3 = blank\<lparr>n_parent := Some 1, n_smt := ''(c)''\<rparr>"
  "cell sample (Suc 0) = blank\<lparr>n_class := OrNode, n_parent := Some 0, n_children := [2, 3]\<rparr>"
  by code_simp+

lemma below_4: "(n :: nat) < 4 \<longleftrightarrow> n = 0 \<or> n = 1 \<or> n = 2 \<or> n = 3"
  by arith

lemma sample_blank [simp]: "n_parent blank = None" "n_class blank = AndNode" "n_children blank = []"
  "n_status blank = Unknown" "n_root blank = 0" "n_smt blank = []" "n_name blank = []"
  by (simp_all add: blank_def)

lemma sample_wf [simp]: "heap_wf sample"
  by (auto simp: heap_wf_def parent_ok_def children_ok_def below_4)

lemma sample_attached [simp]: "attached sample 0" "attached sample 1" "attached sample (Suc 0)"
  "attached sample 2" "attached sample 3"
proof -
  show 0: "attached sample 0" by (rule attached.root) simp
  show 1: "attached sample 1" by (rule attached.listed [OF _ _ 0]) simp_all
  then show "attached sample (Suc 0)" by simp
  show "attached sample 2" "attached sample 3" by (rule attached.listed [OF _ _ 1]; simp)+
qed

lemma cell_cases:
  assumes "list_all (\<lambda>x. P (snd x)) (cells h)" and "P blank"
  shows "P (cell h n)"
  using assms by (fastforce simp: cell_def list_all_iff split: option.split dest: map_of_SomeD)

section \<open>Addresses\<close>

text \<open>
  The interface between the tree and the server: a node is named on the wire by the root's name
  and the printed path, so a path must lead back to its node.
\<close>

locale addressing =
  fixes valid :: "'n \<Rightarrow> bool" and home :: "'n \<Rightarrow> 'r" and address :: "'n \<Rightarrow> 'a list"
    and walk :: "'r \<Rightarrow> 'a list \<Rightarrow> 'n option"
  assumes walk_address: "valid n \<Longrightarrow> walk (home n) (address n) = Some n"
    and address_walk: "walk r p = Some n \<Longrightarrow> valid n \<and> home n = r \<and> address n = p"
begin

lemma same_address: "valid m \<Longrightarrow> valid n \<Longrightarrow> home m = home n \<Longrightarrow> address m = address n \<Longrightarrow> m = n"
  using walk_address by (metis option.inject)

lemma walk_valid: "walk r p = Some n \<longleftrightarrow> valid n \<and> home n = r \<and> address n = p"
  using walk_address address_walk by auto

lemma walk_inject: "walk r p = Some n \<Longrightarrow> walk r q = Some n \<Longrightarrow> p = q"
  using address_walk [of r p n] address_walk [of r q n] by simp

end

text \<open>A node of a heap, and the walk that \<open>Root.child\<close> makes.\<close>

definition live :: "heap \<times> nid \<Rightarrow> bool" where
  "live x = (case x of (h, n) \<Rightarrow> heap_wf h \<and> n < fresh h \<and> attached h n)"

definition home_of :: "heap \<times> nid \<Rightarrow> heap \<times> nid" where
  "home_of x = (case x of (h, n) \<Rightarrow> (h, n_root (cell h n)))"

definition walk_from :: "heap \<times> nid \<Rightarrow> nat list \<Rightarrow> (heap \<times> nid) option" where
  "walk_from r p = (case r of (h, n) \<Rightarrow>
     if heap_wf h \<and> n < fresh h \<and> n_parent (cell h n) = None
     then (case child n (map int p) h of Inr m \<Rightarrow> Some (h, m) | Inl _ \<Rightarrow> None) else None)"

interpretation nodes: addressing live home_of "\<lambda>(h, n). addr h n" walk_from
proof
  fix x assume "live x"
  then obtain h n where x: "x = (h, n)" "heap_wf h" "n < fresh h" "attached h n"
    by (auto simp: live_def)
  from anc_of_root [OF x(2,3)] anc_le [OF _ x(2,3)] have "n_root (cell h n) < fresh h"
    "n_parent (cell h (n_root (cell h n))) = None" using x(3) by (auto intro: le_less_trans)
  with child_addr [OF x(4,2,3)] x show "walk_from (home_of x) (case x of (h, n) \<Rightarrow> addr h n) = Some x"
    by (simp add: walk_from_def home_of_def)
next
  fix r p n assume "walk_from r p = Some n"
  then obtain h k m where r: "r = (h, k)" "n = (h, m)" and wf: "heap_wf h" "k < fresh h" "n_parent (cell h k) = None"
    and m: "child k (map int p) h = Inr m"
    by (cases r) (auto simp: walk_from_def split: if_splits sum.splits)
  from child_attached [OF m wf(1,2) attached.root [OF wf(3)] refl] addr_root [OF wf(3)]
  have "m < fresh h" "attached h m" "anc h k m" "addr h m = p" by auto
  with anc_root [OF \<open>anc h k m\<close> wf(1)] heap_wf_root [OF wf]
  show "live n \<and> home_of n = r \<and> (case n of (h, n) \<Rightarrow> addr h n) = p"
    using r wf(1) by (simp add: live_def home_of_def)
qed

text \<open>C23: A path is an address. Following \<open>path()\<close> of a node of the tree from the root with \<open>child\<close>
  gives the node back, and two nodes of one tree with the same printed path are the same node.\<close>

theorem path_is_address:
  assumes "heap_wf h" and "m < fresh h" and "attached h m" and "n < fresh h" and "attached h n"
    and "n_root (cell h m) = n_root (cell h n)"
  shows "\<exists>p q. path m h = Some (Inr p) \<and> path n h = Some (Inr q)
    \<and> child (n_root (cell h m)) (map int p) h = Inr m \<and> (show_path p = show_path q \<longleftrightarrow> m = n)"
proof (intro exI conjI)
  show "path m h = Some (Inr (addr h m))" "path n h = Some (Inr (addr h n))"
    using assms by (simp_all add: path_attached)
  show "child (n_root (cell h m)) (map int (addr h m)) h = Inr m" using assms child_addr by blast
  show "show_path (addr h m) = show_path (addr h n) \<longleftrightarrow> m = n"
    using nodes.same_address [of "(h, m)" "(h, n)"] assms by (auto simp: live_def home_of_def)
qed

theorem path_is_address_witness:
  "\<exists>p q. path 2 sample = Some (Inr p) \<and> path 3 sample = Some (Inr q)
    \<and> child 0 (map int p) sample = Inr 2 \<and> (show_path p = show_path q \<longleftrightarrow> (2::nat) = 3)"
  using path_is_address [of sample 2 3] by simp

text \<open>C24: \<open>is_ancestor\<close>, which compares paths, holds exactly for the nodes on the parent chain, and
  raises \<open>ValueError\<close> for nodes of different trees.\<close>

theorem is_ancestor_iff_on_chain:
  assumes "heap_wf h" and "a < fresh h" and "attached h a" and "b < fresh h" and "attached h b"
  shows "is_ancestor a b h = (if n_root (cell h a) = n_root (cell h b) then Some (Inr (anc h a b))
      else Some (Inl ValueError))"
  using is_ancestor_attached [OF assms(1,3,2,5,4)] by (auto simp: is_ancestor_def)

theorem is_ancestor_iff_on_chain_witness:
  "is_ancestor 0 3 sample = Some (Inr (anc sample 0 3)) \<and> is_ancestor 2 3 sample = Some (Inr (anc sample 2 3))"
  using is_ancestor_iff_on_chain [of sample 0 3] is_ancestor_iff_on_chain [of sample 2 3] by simp

text \<open>C27: \<open>all()\<close> returns, and lists every node below the given one that is still in the tree
  exactly once.\<close>

theorem all_lists_subtree:
  assumes "heap_wf h" and "n < fresh h" and "attached h n"
  shows "\<exists>ms. all_nodes n h = Some (Inr ms) \<and> distinct ms
    \<and> set ms = {m. m < fresh h \<and> attached h m \<and> anc h n m}"
  using all_nodes_attached [OF assms] by metis

theorem all_lists_subtree_witness:
  "\<exists>ms. all_nodes 0 sample = Some (Inr ms) \<and> distinct ms \<and> set ms = {m. m < fresh sample \<and> attached sample m \<and> anc sample 0 m}"
  using all_lists_subtree [of sample 0] by simp

section \<open>Growth\<close>

lemma grown_attached:
  "attached h n \<Longrightarrow> heap_wf h \<Longrightarrow> n < fresh h \<Longrightarrow> attached (grown k parent smt h) n"
proof (induction rule: attached.induct)
  case (root n)
  then show ?case by (auto intro!: attached.root simp: cell_grown_old)
next
  case (listed n p)
  from heap_wf_parent [OF listed.prems listed.hyps(1)] listed
  show ?case by (auto intro!: attached.listed [of _ _ p] simp: cell_grown_old)
qed

lemma index_of_append: "x \<in> set xs \<Longrightarrow> index_of x (xs @ ys) = index_of x xs"
  by (induction xs) auto

lemma index_of_last: "x \<notin> set xs \<Longrightarrow> index_of x (xs @ [x]) = Some (length xs)"
  by (induction xs) auto

lemma grown_addr:
  "attached h n \<Longrightarrow> heap_wf h \<Longrightarrow> n < fresh h \<Longrightarrow> addr (grown k parent smt h) n = addr h n"
proof (induction rule: attached.induct)
  case (root n)
  then show ?case by (simp add: addr_root cell_grown_old)
next
  case (listed n p)
  note hp = heap_wf_parent [OF listed.prems listed.hyps(1)]
  obtain i where i: "index_of n (n_children (cell h p)) = Some i"
    using listed.hyps(2) by (metis index_of_None not_Some_eq)
  have "index_of n (n_children (cell (grown k parent smt h) p)) = Some i"
    using hp i listed.hyps(2) by (simp add: cell_grown_old index_of_append)
  moreover have "n_parent (cell (grown k parent smt h) n) = Some p"
    using listed.hyps(1) listed.prems(2) by (simp add: cell_grown_old)
  moreover have "attached (grown k parent smt h) p"
    using grown_attached listed.hyps(3) listed.prems(1) hp by simp
  ultimately show ?case
    using addr_listed [OF listed.hyps(3,1) i] addr_listed listed.IH listed.prems(1) hp by simp
qed

text \<open>C25: Splitting keeps the tree in order. A new partition below an \<open>OrNode\<close> gets the next free
  index there, no node changes its address, and the heap invariant is kept.\<close>

theorem and_node_grows_tree:
  assumes wf: "heap_wf h" and d: "d < fresh h" "attached h d" "n_class (cell h d) = OrNode"
  shows "\<exists>h'. and_node (Some d) smt h = Some (Inr (fresh h), h') \<and> heap_wf h' \<and> attached h' (fresh h)
    \<and> path (fresh h) h' = Some (Inr (addr h d @ [length (n_children (cell h d))]))
    \<and> (\<forall>m. m < fresh h \<and> attached h m \<longrightarrow> path m h' = path m h)"
proof (intro exI conjI allI impI)
  let ?h = "grown AndNode (Some d) smt h"
  show "and_node (Some d) smt h = Some (Inr (fresh h), ?h)" using d by (simp add: and_node_run)
  show wf': "heap_wf ?h" using grown_wf [OF wf] d by simp
  have par: "n_parent (cell ?h (fresh h)) = Some d" by (simp add: cell_grown_new)
  have kids: "n_children (cell ?h d) = n_children (cell h d) @ [fresh h]"
    using d(1) by (simp add: cell_grown_old)
  have att: "attached ?h d" using grown_attached wf d by blast
  show at: "attached ?h (fresh h)" using attached.listed [OF par _ att] kids by simp
  have "fresh h \<notin> set (n_children (cell h d))" using heap_wf_child [OF wf d(1)] by blast
  then have "index_of (fresh h) (n_children (cell ?h d)) = Some (length (n_children (cell h d)))"
    by (simp add: kids index_of_last)
  from addr_listed [OF att par this] grown_addr [OF d(2) wf d(1)]
  show "path (fresh h) ?h = Some (Inr (addr h d @ [length (n_children (cell h d))]))"
    using path_attached [OF at] by simp
  fix m assume "m < fresh h \<and> attached h m"
  then show "path m ?h = path m h"
    using path_attached grown_attached grown_addr wf by simp
qed

theorem and_node_grows_tree_witness:
  "\<exists>h'. and_node (Some 1) ''(d)'' sample = Some (Inr 4, h') \<and> heap_wf h'
    \<and> path 4 h' = Some (Inr (addr sample 1 @ [2]))"
  using and_node_grows_tree [of sample 1 "''(d)''"] by auto

section \<open>Statuses\<close>

text \<open>C26: Setting a status returns on every tree and changes statuses only, and only of the node and
  of nodes above it, to the new status.\<close>

theorem set_status_changes_chain_only:
  assumes "heap_wf h" and "n < fresh h"
  shows "\<exists>h'. set_status n s h = Some (Inr (), h') \<and> status_change h h' \<and> heap_wf h'
    \<and> n_status (cell h' n) = s
    \<and> (\<forall>m. n_status (cell h' m) = n_status (cell h m) \<or> (anc h m n \<and> n_status (cell h' m) = s))"
proof -
  obtain h' where h: "set_status n s h = Some (Inr (), h')" "status_change h h'"
    "\<And>m. \<not> anc h m n \<Longrightarrow> cell h' m = cell h m" "n_status (cell h' n) = s"
    "\<And>m. n_status (cell h' m) \<in> {n_status (cell h m), s}" "heap_wf h'"
    using set_status_returns [OF assms, of s] by metis
  have "n_status (cell h' m) = n_status (cell h m) \<or> (anc h m n \<and> n_status (cell h' m) = s)" for m
    using h(3) [of m] h(5) [of m] by (cases "anc h m n") auto
  with h show ?thesis by blast
qed

theorem set_status_changes_chain_only_witness:
  "\<exists>h'. set_status 2 Sat sample = Some (Inr (), h') \<and> n_status (cell h' 2) = Sat \<and> heap_wf h'"
  using set_status_changes_chain_only [of sample 2 Sat] by auto

text \<open>C2: Statuses stay true. When a split is equivalent to its node, partitions strengthen their
  split and cover it, a true report leaves only true statuses in the tree: \<open>sat\<close> on satisfiable and
  \<open>unsat\<close> on unsatisfiable nodes.\<close>

theorem set_status_sound:
  assumes "heap_wf h" and "n < fresh h" and "tree_meaning h T" and "truthful h T" and "fits s (T n)"
  shows "\<exists>h'. set_status n s h = Some (Inr (), h') \<and> truthful h' T \<and> tree_meaning h' T"
proof -
  obtain h' where "set_status n s h = Some (Inr (), h')" "truthful h' T"
    using set_status_truthful [OF assms(1,2), of s T] assms(3-5) by blast
  moreover obtain h2 where "set_status n s h = Some (Inr (), h2)" "status_change h h2"
    using set_status_returns [OF assms(1,2), of s] by metis
  moreover have "tree_meaning h2 T" using tree_meaning_shape [OF status_change_shape assms(3)] calculation(4) .
  ultimately show ?thesis by auto
qed

theorem set_status_sound_witness:
  "\<exists>h'. set_status 2 Unsat sample = Some (Inr (), h') \<and> truthful h' (\<lambda>n. n \<noteq> 2) \<and> tree_meaning h' (\<lambda>n. n \<noteq> 2)"
proof (rule set_status_sound)
  show "tree_meaning sample (\<lambda>n. n \<noteq> 2)" by (auto simp: tree_meaning_def below_4)
  have "n_status (cell sample n) = Unknown" for n
  proof -
    have "list_all (\<lambda>x. n_status (snd x) = Unknown) (cells sample)" by code_simp
    then show ?thesis by (rule cell_cases) simp
  qed
  then show "truthful sample (\<lambda>n. n \<noteq> 2)" by (simp add: truthful_def fits_def)
qed (simp_all add: fits_def)

text \<open>A model found in any partition reaches the root at once.\<close>

lemma sat_reaches_root:
  assumes "heap_wf h" and "n < fresh h" and "attached h n"
  shows "\<exists>h'. set_status n Sat h = Some (Inr (), h') \<and> n_status (cell h' (n_root (cell h n))) = Sat"
  using set_status_sat [OF assms(1,2)] anc_of_root [OF assms(1,2)] assms(3) by blast

text \<open>C10: Refuting is complete. Whatever the order in which \<open>unsat\<close> reports come in, a node all of
  whose partitions (of one split, and so on below) are refuted is \<open>unsat\<close> after the last of them.\<close>

theorem unsat_reports_complete:
  assumes wf: "heap_wf h" and cl: "unsat_closed h" and ns: "\<forall>n \<in> set ns. n < fresh h"
    and r: "refuted h (set ns) a"
  shows "\<exists>h'. forM (\<lambda>n. set_status n Unsat) ns h = Some (Inr (), h') \<and> n_status (cell h' a) = Unsat"
proof -
  obtain h' where h: "forM (\<lambda>n. set_status n Unsat) ns h = Some (Inr (), h')" "status_change h h'"
    "unsat_closed h'" "\<forall>n \<in> set ns. n_status (cell h' n) = Unsat"
    using set_status_unsat_all [OF wf cl ns] by blast
  with refuted_unsat [OF r h(3) status_change_shape [OF h(2)]] show ?thesis by blast
qed

theorem unsat_reports_complete_witness:
  "\<exists>h'. forM (\<lambda>n. set_status n Unsat) [3, 2] sample = Some (Inr (), h') \<and> n_status (cell h' 0) = Unsat"
proof (rule unsat_reports_complete)
  show "unsat_closed sample" by (auto simp: unsat_closed_def below_4)
  show "refuted sample (set [3, 2]) 0"
    by (rule refuted.split [of 1]) (auto intro: refuted.leaf)
qed auto

section \<open>Scripts\<close>

text \<open>C1: The script of a move is exact. For two nodes of one SMT tree, \<open>to_string(node, start)\<close>
  returns a script that turns the assertion stack of \<open>start\<close> into that of \<open>node\<close>, without ever
  popping the root's frame; the script without \<open>start\<close> builds the node's stack on a new solver.\<close>

theorem script_moves_stack:
  assumes "heap_wf h" and "plain_texts h" and "a < fresh h" and "attached h a"
    and "b < fresh h" and "attached h b" and "n_root (cell h a) = r" and "n_root (cell h b) = r"
  shows "(\<exists>ls. smt_lines r b (Some a) h = Some (Inr ls)
      \<and> run_lines ls (frames_of a h) = Some (frames_of b h))
    \<and> (\<exists>ls. smt_lines r b None h = Some (Inr ls) \<and> run_lines ls [[]] = Some (frames_of b h))"
proof
  show "\<exists>ls. smt_lines r b (Some a) h = Some (Inr ls) \<and> run_lines ls (frames_of a h) = Some (frames_of b h)"
    using smt_lines_move [OF assms(1,2,6,5,4,3,7,8)] by blast
  show "\<exists>ls. smt_lines r b None h = Some (Inr ls) \<and> run_lines ls [[]] = Some (frames_of b h)"
    using smt_lines_fresh [OF assms(1,2,5,8)] by blast
qed

theorem script_moves_stack_witness:
  "\<exists>ls. smt_lines 0 3 (Some 2) sample = Some (Inr ls)
      \<and> run_lines ls (frames_of 2 sample) = Some (frames_of 3 sample)"
proof -
  have "plain_texts sample" by code_simp
  from script_moves_stack [OF sample_wf this, of 2 3 0] show ?thesis by simp
qed

end
