(* ===== verification/Fixedpoint.thy ===== *)
theory Fixedpoint
  imports Tree
begin

text \<open>
  The root classes of \<open>server/framework.py\<close>: \<open>Fixedpoint\<close> (its constructor, its static
  \<open>partition\<close> into one query per rule that concludes the goal, its scripts), and the functions
  that choose among the three classes.
\<close>

section \<open>Indexing\<close>

text \<open>\<open>i[k]\<close> on a list or on a text.\<close>

definition jidx :: "jval \<Rightarrow> nat \<Rightarrow> exc + jval" where
  "jidx i k = (case i of
       JArr xs \<Rightarrow> (if k < length xs then Inr (xs ! k) else Inl IndexError)
     | JStr s \<Rightarrow> (if k < length s then Inr (JStr [s ! k]) else Inl IndexError))"

definition jitems :: "jval \<Rightarrow> jval list" where
  "jitems v = (case v of JArr xs \<Rightarrow> xs | JStr s \<Rightarrow> map (\<lambda>c. JStr [c]) s)"

text \<open>\<open>s.find(w)\<close> and \<open>s.split(w)[0]\<close>.\<close>

fun find_text :: "string \<Rightarrow> string \<Rightarrow> nat option" where
  "find_text w [] = (if w = [] then Some 0 else None)"
| "find_text w (c # cs) =
     (if take (length w) (c # cs) = w then Some 0 else map_option Suc (find_text w cs))"

definition before_text :: "string \<Rightarrow> string \<Rightarrow> string" where
  "before_text w s = (case find_text w s of None \<Rightarrow> s | Some i \<Rightarrow> take i s)"

section \<open>\<open>Fixedpoint.__init__\<close>\<close>

text \<open>The commands before the first query, and what is queried.\<close>

fun find_query :: "jval list \<Rightarrow> exc + (jval list \<times> jval)" where
  "find_query [] = Inl ValueError"
| "find_query (i # js) = (case jidx i 0 of Inl e \<Rightarrow> Inl e
     | Inr x \<Rightarrow>
         (if x = JStr QUERY then map_sum id (\<lambda>q. ([], q)) (jidx i 1)
          else map_sum id (\<lambda>(pre, q). (i # pre, q)) (find_query js)))"

definition fixedpoint_node :: "string \<Rightarrow> string \<Rightarrow> (heap, nid) prog" where
  "fixedpoint_node name smt =
     (case smt2json smt of Inl e \<Rightarrow> raiseM e
      | Inr v \<Rightarrow> (case find_query (jitems v) of Inl e \<Rightarrow> raiseM e
      | Inr (pre, q) \<Rightarrow>
          bindM (root_node Fixedpoint name (before_text (''('' @ QUERY) smt)) (\<lambda>n.
            seqM (modM (upd n (\<lambda>x. x\<lparr>n_json := pre, n_query := q\<rparr>))) (retM n))))"

section \<open>\<open>Fixedpoint.partition\<close>\<close>

text \<open>\<open>'{}'.format(v)\<close>: a text is itself, a list is printed with its items quoted.\<close>

definition repr_char :: "char \<Rightarrow> char \<Rightarrow> string" where
  "repr_char q c = (if c = q \<or> c = CHR 0x5C then [CHR 0x5C, c]
     else if c = CHR 0x0A then [CHR 0x5C, CHR ''n''] else if c = CHR 0x0D then [CHR 0x5C, CHR ''r'']
     else if c = CHR 0x09 then [CHR 0x5C, CHR ''t'']
     else (let n = of_char c :: nat in if n < 32 \<or> n = 127
       then [CHR 0x5C, CHR ''x'', hex_digit (n div 16), hex_digit (n mod 16)] else [c]))"

definition repr_str :: "string \<Rightarrow> string" where
  "repr_str s = (let q = (if CHR 0x27 \<in> set s \<and> CHR 0x22 \<notin> set s then CHR 0x22 else CHR 0x27)
     in q # concat (map (repr_char q) s) @ [q])"

fun py_repr :: "jval \<Rightarrow> string" where
  "py_repr (JStr s) = repr_str s"
| "py_repr (JArr xs) = ''['' @ join '', '' (map py_repr xs) @ '']''"

definition py_format :: "jval \<Rightarrow> string" where
  "py_format v = (case v of JStr s \<Rightarrow> s | JArr xs \<Rightarrow> py_repr v)"

text \<open>Under its \<open>let\<close>s, an implication of the query has its conclusion replaced.\<close>

fun split_rule :: "jval \<Rightarrow> string \<Rightarrow> jval \<Rightarrow> jval option" where
  "split_rule q new (JStr s) = None"
| "split_rule q new (JArr [x, y, z]) =
     (if x = JStr ''let'' then map_option (\<lambda>z'. JArr [x, y, z']) (split_rule q new z)
      else if x = JStr ''=>'' \<and> z = q then Some (JArr [x, y, JStr new]) else None)"
| "split_rule q new (JArr (x # y # z # w # r)) =
     (if x = JStr ''let'' then map_option (\<lambda>z'. JArr (x # y # z' # w # r)) (split_rule q new z)
      else if x = JStr ''=>'' \<and> z = q then Some (JArr (x # y # JStr new # w # r)) else None)"
| "split_rule q new (JArr xs) = None"

text \<open>A \<open>rule\<close> command whose body is such an implication; any exception leaves it unchanged.\<close>

definition split_command :: "jval \<Rightarrow> string \<Rightarrow> jval \<Rightarrow> jval option" where
  "split_command q new i = (case i of
       JArr (x # b # r) \<Rightarrow>
         (if x = JStr ''rule'' then map_option (\<lambda>b'. JArr (x # b' # r)) (split_rule q new b) else None)
     | _ \<Rightarrow> None)"

fun split_rules :: "jval \<Rightarrow> jval list \<Rightarrow> string list \<Rightarrow> jval list \<times> string list" where
  "split_rules q [] queries = ([], queries)"
| "split_rules q (i # js) queries =
     (let new = py_format q @ show_nat (length queries) in
      case split_command q new i of
        Some i' \<Rightarrow> (let (obj, qs) = split_rules q js (queries @ [new]) in (i' # obj, qs))
      | None \<Rightarrow> (let (obj, qs) = split_rules q js queries in (i # obj, qs)))"

text \<open>The new relations are declared in front of the first declaration.\<close>

fun declare_queries :: "string list \<Rightarrow> jval list \<Rightarrow> exc + jval list" where
  "declare_queries qs [] = Inr []"
| "declare_queries qs (i # js) = (case jidx i 0 of Inl e \<Rightarrow> Inl e
     | Inr x \<Rightarrow>
         (if x = JStr ''declare-rel''
          then Inr (map (\<lambda>q. JArr [JStr ''declare-rel'', JStr q, JArr []]) (rev qs) @ i # js)
          else map_sum id (\<lambda>r. i # r) (declare_queries qs js)))"

text \<open>\<open>json.copy()\<close> is shallow, so the changed commands are also those of \<open>self.json\<close>.
  A row of the table \<open>SolvingHistory\<close>: name, node, event, and the node of the data.\<close>

type_synonym history_row = "string \<times> nat list \<times> string \<times> nat list"

definition fixedpoint_partition :: "nid \<Rightarrow> (heap, history_row list) prog" where
  "fixedpoint_partition self = bindM (getM (\<lambda>h. cell h self)) (\<lambda>x.
     let (obj, queries) = split_rules (n_query x) (n_json x) [] in
     seqM (modM (upd self (\<lambda>y. y\<lparr>n_json := obj\<rparr>)))
     (case declare_queries queries obj of Inl e \<Rightarrow> raiseM e
     | Inr obj' \<Rightarrow>
         bindM (or_node (Some self) (json2smt obj')) (\<lambda>parent.
         bindM (readM (path self)) (\<lambda>sp.
         bindM (readM (path parent)) (\<lambda>pp.
           foldM (\<lambda>query rows.
               bindM (and_node (Some parent) (''('' @ QUERY @ '' '' @ query @ '')'')) (\<lambda>c.
               bindM (readM (path c)) (\<lambda>cp. retM (rows @ [(n_name x, sp, ''AND'', cp)]))))
             queries [(n_name x, sp, ''OR'', pp)])))))"

section \<open>Choosing a root\<close>

definition parse :: "string \<Rightarrow> string \<Rightarrow> (heap, nid) prog" where
  "parse name smt =
     (if drop (length name - 5) name = ''.mcmt'' then root_node MCMT name smt
      else case find_text ''(query '' smt of
          Some (Suc _) \<Rightarrow> fixedpoint_node name smt
        | _ \<Rightarrow> root_node SMT name smt)"

text \<open>The \<open>to_string\<close> of the three classes. \<open>Fixedpoint\<close>'s gives Python's \<open>None\<close> on an \<open>OrNode\<close>,
  which its callers cannot unpack (\<open>TypeError\<close>).\<close>

definition fixedpoint_to_string :: "nid \<Rightarrow> nid \<Rightarrow> nid option \<Rightarrow> heap \<Rightarrow> (exc + (string \<times> string)) option" where
  "fixedpoint_to_string self node start h =
     (case is_ancestor self node h of None \<Rightarrow> None | Some (Inl e) \<Rightarrow> Some (Inl e)
      | Some (Inr _) \<Rightarrow> Some
          (if start \<noteq> None then Inl ValueError
           else if node = self then (case n_query (cell h self) of
               JStr q \<Rightarrow> Inr (n_smt (cell h self), ''(query '' @ q @ '')'') | JArr _ \<Rightarrow> Inl TypeError)
           else if n_class (cell h node) = AndNode then
             (case n_parent (cell h node) of None \<Rightarrow> Inl AttributeError
              | Some p \<Rightarrow> Inr (n_smt (cell h p), n_smt (cell h node)))
           else Inl TypeError))"

definition to_string :: "nid \<Rightarrow> nid \<Rightarrow> nid option \<Rightarrow> heap \<Rightarrow> (exc + (string \<times> string)) option" where
  "to_string self node start h = (case n_kind (cell h self) of
       SMT \<Rightarrow> smt_to_string self node start h
     | Fixedpoint \<Rightarrow> fixedpoint_to_string self node start h
     | MCMT \<Rightarrow> mcmt_to_string self h)"

end
