(* ===== verification/TreeTotal.thy ===== *)
theory TreeTotal
  imports TreeStatus Fixedpoint
begin

text \<open>
  The tree under the server's hands: every walk of \<open>server/framework.py\<close> returns on every allocated
  node, in the tree or cut off from it, and every operation extends the heap (\<open>hextends\<close>): old
  nodes keep their class and their parent.
\<close>

section \<open>Walks return\<close>

text \<open>An induction along the parent chain of an allocated node.\<close>

lemma chain_induct [consumes 2, case_names top up]:
  assumes wf: "heap_wf h" and n: "n < fresh h"
    and top: "\<And>n. n < fresh h \<Longrightarrow> n_parent (cell h n) = None \<Longrightarrow> P n"
    and up: "\<And>n p. n < fresh h \<Longrightarrow> n_parent (cell h n) = Some p \<Longrightarrow> p < fresh h \<Longrightarrow> P p \<Longrightarrow> P n"
  shows "P n"
  using n
proof (induction n rule: less_induct)
  case (less n)
  then show ?case
    using top [OF less.prems] up [OF less.prems] heap_wf_parent [OF wf less.prems]
    by (cases "n_parent (cell h n)") auto
qed

lemma path_loop_total: "heap_wf h \<Longrightarrow> n < fresh h \<Longrightarrow> path_loop n acc h \<noteq> None"
proof (induction arbitrary: acc rule: chain_induct)
  case (top n)
  then show ?case by (subst path_loop.simps) simp
next
  case (up n p)
  then show ?case by (subst path_loop.simps) (simp split: option.splits)
qed

lemma path_total: "heap_wf h \<Longrightarrow> n < fresh h \<Longrightarrow> path n h \<noteq> None"
  using path_loop_total by (simp add: path_def)

lemma path_nodes_total: "heap_wf h \<Longrightarrow> n < fresh h \<Longrightarrow> path_nodes n h \<noteq> None"
proof -
  assume "heap_wf h" "n < fresh h"
  then have "path_nodes_loop n acc h \<noteq> None" for acc
  proof (induction arbitrary: acc rule: chain_induct)
    case (top n)
    then show ?case by (subst path_nodes_loop.simps) simp
  next
    case (up n p)
    then show ?case by (subst path_nodes_loop.simps) simp
  qed
  then show ?thesis by (simp add: path_nodes_def)
qed

lemma path_to_node_loop_total:
  "heap_wf h \<Longrightarrow> n < fresh h \<Longrightarrow>
   \<exists>ms. path_to_node_loop n acc h = Some ms \<and> (\<forall>m \<in> set ms. m \<in> set acc \<or> (m < fresh h \<and> n_class (cell h m) = AndNode))"
proof (induction arbitrary: acc rule: chain_induct)
  case (top n)
  then show ?case by (subst path_to_node_loop.simps) simp
next
  case (up n p)
  show ?case
  proof (cases "n_children (cell h p) = []")
    case False
    let ?acc = "if n_class (cell h p) = AndNode then acc @ [p] else acc"
    from up(4) [of ?acc] obtain ms where "path_to_node_loop p ?acc h = Some ms"
      "\<forall>m \<in> set ms. m \<in> set ?acc \<or> (m < fresh h \<and> n_class (cell h m) = AndNode)" by blast
    with up(1-3) False show ?thesis by (subst path_to_node_loop.simps) (auto split: if_splits)
  qed (use up in \<open>subst path_to_node_loop.simps; simp\<close>)
qed

lemma path_to_node_total:
  assumes "heap_wf h" and "n < fresh h" and "n_class (cell h n) = AndNode"
  obtains ms where "path_to_node n h = Some (Inr ms)" "\<forall>m \<in> set ms. m < fresh h \<and> n_class (cell h m) = AndNode"
proof -
  from path_to_node_loop_total [OF assms(1,2), of "[n]"] obtain ms where ms: "path_to_node_loop n [n] h = Some ms"
    "\<forall>m \<in> set ms. m \<in> set [n] \<or> (m < fresh h \<and> n_class (cell h m) = AndNode)" by blast
  have "m < fresh h \<and> n_class (cell h m) = AndNode" if "m \<in> set ms" for m
    using ms(2) that assms(2,3) by (cases "m = n") auto
  with that [of "rev ms"] ms(1) show ?thesis by (simp add: path_to_node_def)
qed

lemma is_ancestor_total:
  assumes "heap_wf h" and "a < fresh h" and "b < fresh h"
  shows "is_ancestor a b h \<noteq> None"
  using path_total [OF assms(1,2)] path_total [OF assms(1,3)]
  by (auto simp: is_ancestor_def split: option.splits sum.splits)

lemma all_nodes_total:
  assumes wf: "heap_wf h" and n: "n < fresh h"
  obtains ms where "all_nodes n h = Some (Inr ms)" "\<forall>m \<in> set ms. m < fresh h"
proof -
  have "\<forall>x \<in> set [n]. 0 \<le> x \<and> x < fresh h" using n by simp
  from all_of_set [OF wf this] obtain d where "all_of [n] h = Some d" "set d = {m. below h n m}" by auto
  with that below_anc [OF _ wf n] show ?thesis by (auto simp: all_nodes_def)
qed

lemma childeren_total:
  assumes wf: "heap_wf h" and n: "n < fresh h" "n_class (cell h n) = AndNode"
  shows "childeren n h \<noteq> None" and "childeren n h = Some (Inr cs) \<Longrightarrow> c \<in> set cs \<Longrightarrow>
    c < fresh h \<and> n_class (cell h c) = AndNode"
proof -
  show "childeren n h \<noteq> None" by (simp add: childeren_def split: list.splits)
  assume r: "childeren n h = Some (Inr cs)" and c: "c \<in> set cs"
  from r obtain d ds where ds: "n_children (cell h n) = d # ds"
    "cs = filter (\<lambda>ch. n_status (cell h ch) = Unknown) (n_children (cell h d))"
    by (auto simp: childeren_def split: list.splits)
  from heap_wf_child [OF wf n(1), of d] ds have d: "d < fresh h" "n_parent (cell h d) = Some n" by auto
  from heap_wf_parent [OF wf d] n(2) have do: "n_class (cell h d) = OrNode" by (cases "n_class (cell h d)") auto
  from c ds have cd: "c \<in> set (n_children (cell h d))" by simp
  from heap_wf_child [OF wf d(1) cd] have "c < fresh h" "n_parent (cell h c) = Some d" by auto
  with heap_wf_parent [OF wf, of c d] do show "c < fresh h \<and> n_class (cell h c) = AndNode"
    by (cases "n_class (cell h c)") auto
qed

lemma pop_loop_total:
  assumes wf: "heap_wf h" and b: "b < fresh h"
  shows "a < fresh h \<Longrightarrow> \<exists>r. pop_loop b (Some a) k h = Some r \<and> (\<forall>c j. r = Inr (Some c, j) \<longrightarrow> c < fresh h)"
proof (induction a arbitrary: k rule: less_induct)
  case (less a)
  from is_ancestor_total [OF wf less.prems b] obtain r where r: "is_ancestor a b h = Some r" by blast
  show ?case
  proof (cases r)
    case (Inl e)
    with r show ?thesis by (subst pop_loop.simps) simp
  next
    case (Inr t)
    show ?thesis
    proof (cases "t \<or> n_parent (cell h a) = None")
      case True
      with r Inr less.prems show ?thesis by (subst pop_loop.simps) (auto simp: pop_loop.simps [of b None])
    next
      case False
      then obtain p where p: "n_parent (cell h a) = Some p" by auto
      with heap_wf_parent [OF wf less.prems p] less.IH [of p] r Inr False
      show ?thesis by (subst pop_loop.simps) auto
    qed
  qed
qed

lemma push_loop_total: "heap_wf h \<Longrightarrow> n < fresh h \<Longrightarrow> push_loop r (Some n) st acc h \<noteq> None"
proof (induction arbitrary: acc rule: chain_induct)
  case (top n)
  then show ?case by (subst push_loop.simps) (simp add: push_loop.simps [of r None])
next
  case (up n p)
  then show ?case by (subst push_loop.simps) simp
qed

lemma to_string_total:
  assumes wf: "heap_wf h" and n: "n < fresh h" and a: "\<And>a. st = Some a \<Longrightarrow> a < fresh h" and r: "r < fresh h"
  shows "to_string r n st h \<noteq> None"
proof -
  have "smt_lines r n st h \<noteq> None"
  proof (cases st)
    case None
    obtain x where "push_loop r (Some n) None [] h = Some x" using push_loop_total [OF wf n] by blast
    with None show ?thesis by (auto simp: smt_lines_def split: sum.splits)
  next
    case (Some a')
    with pop_loop_total [OF wf n, of a' 0] a push_loop_total [OF wf n] show ?thesis
      by (auto simp: smt_lines_def simp del: not_None_eq split: sum.splits option.splits)
  qed
  then show ?thesis using is_ancestor_total [OF wf r n]
    by (auto simp: to_string_def smt_to_string_def mcmt_to_string_def fixedpoint_to_string_def
        split: root_class.splits option.splits sum.splits)
qed

section \<open>Extending the heap\<close>

definition hextends :: "heap \<Rightarrow> heap \<Rightarrow> bool" where
  "hextends h h' = (heap_wf h' \<and> fresh h \<le> fresh h' \<and> (\<forall>n < fresh h.
     n_class (cell h' n) = n_class (cell h n) \<and> n_parent (cell h' n) = n_parent (cell h n)))"

lemma hextends_refl: "heap_wf h \<Longrightarrow> hextends h h"
  by (simp add: hextends_def)

lemma hextends_trans [trans]: "hextends h h' \<Longrightarrow> hextends h' h'' \<Longrightarrow> hextends h h''"
  by (simp add: hextends_def)

lemma hextendsD: "hextends h h' \<Longrightarrow> heap_wf h'" "hextends h h' \<Longrightarrow> fresh h \<le> fresh h'"
  "hextends h h' \<Longrightarrow> n < fresh h \<Longrightarrow> n < fresh h' \<and> n_class (cell h' n) = n_class (cell h n) \<and> n_parent (cell h' n) = n_parent (cell h n)"
  by (auto simp: hextends_def)

lemma hextends_shape: "heap_wf h \<Longrightarrow> same_shape h h' \<Longrightarrow> hextends h h'"
  using same_shape_wf by (auto simp: hextends_def same_shape_cell)

lemma hextends_upd: "heap_wf h \<Longrightarrow> same_links (cell h n) (f (cell h n)) \<Longrightarrow> hextends h (upd n f h)"
  by (rule hextends_shape [OF _ same_shape_upd])

lemma hextends_links:
  assumes wf: "heap_wf h" and f: "\<And>x. n_class (f x) = n_class x" "\<And>x. n_parent (f x) = n_parent x"
    "\<And>x. n_root (f x) = n_root x" "\<And>x. n_children (f x) = n_children x"
  shows "hextends h (upd n f h)"
proof -
  have eq: "n_class (cell (upd n f h) m) = n_class (cell h m)" "n_parent (cell (upd n f h) m) = n_parent (cell h m)"
    "n_root (cell (upd n f h) m) = n_root (cell h m)" "n_children (cell (upd n f h) m) = n_children (cell h m)" for m
    by (simp_all add: f)
  have "parent_ok (upd n f h) m = parent_ok h m" "children_ok (upd n f h) m = children_ok h m" for m
    unfolding parent_ok_def children_ok_def eq fresh_upd by (rule refl)+
  with wf show ?thesis by (simp add: hextends_def heap_wf_def f)
qed

lemma hextends_grown:
  "heap_wf h \<Longrightarrow> (case parent of None \<Rightarrow> k = AndNode | Some p \<Rightarrow> p < fresh h \<and> n_class (cell h p) \<noteq> k) \<Longrightarrow>
   hextends h (grown k parent smt h)"
  using grown_wf [where h = h and parent = parent and k = k and smt = smt] by (auto simp: hextends_def cell_grown_old)

lemma hextends_clear: "heap_wf h \<Longrightarrow> hextends h (upd n (\<lambda>x. x\<lparr>n_children := []\<rparr>) h)"
  using clear_wf by (auto simp: hextends_def)

lemma hextends_set_status:
  assumes "heap_wf h" and "n < fresh h"
  obtains h' where "set_status n s h = Some (Inr (), h')" "hextends h h'"
  using set_status_returns [OF assms, of s] hextends_shape [OF assms(1) status_change_shape] by metis

text \<open>The programs, on a heap that keeps the invariant.\<close>

lemma wp_and_node:
  assumes "heap_wf h" and "\<And>p. parent = Some p \<Longrightarrow> p < fresh h"
  shows "wp False (and_node parent smt) (\<lambda>n h'. hextends h h' \<and> n < fresh h' \<and> n_class (cell h' n) = AndNode
      \<and> n_parent (cell h' n) = parent) (\<lambda>_ h'. h' = h) h"
  using assms hextends_grown [where h = h and parent = parent and k = AndNode and smt = smt]
  by (auto simp: wp_def and_node_run cell_grown_new split: option.splits)

lemma wp_or_node:
  assumes "heap_wf h" and "\<And>p. parent = Some p \<Longrightarrow> p < fresh h"
  shows "wp False (or_node parent smt) (\<lambda>n h'. hextends h h' \<and> n < fresh h' \<and> n_class (cell h' n) = OrNode)
      (\<lambda>_ h'. h' = h) h"
  using assms hextends_grown [where h = h and parent = parent and k = OrNode and smt = smt]
  by (auto simp: wp_def or_node_run cell_grown_new split: option.splits)

lemma wp_root_node:
  assumes wf: "heap_wf h"
  shows "wp False (root_node k name smt) (\<lambda>n h'. hextends h h' \<and> n < fresh h' \<and> n_parent (cell h' n) = None) (\<lambda>_ _. False) h"
proof -
  let ?f = "\<lambda>x. x\<lparr>n_name := name, n_kind := k\<rparr>"
  have ext: "hextends h (grown AndNode None smt h)" using hextends_grown [OF wf] by simp
  also have "hextends (grown AndNode None smt h) (upd (fresh h) ?f (grown AndNode None smt h))"
    by (rule hextends_links [OF hextendsD(1) [OF ext]]) simp_all
  finally show ?thesis
    by (simp add: wp_def root_node_def run_simps and_node_run cell_grown_new)
qed

lemma wp_parse:
  assumes wf: "heap_wf h"
  shows "wp False (parse name smt) (\<lambda>n h'. hextends h h' \<and> n < fresh h' \<and> n_parent (cell h' n) = None) (\<lambda>_ h'. h' = h) h"
proof -
  have rt: "wp False (root_node k name smt) (\<lambda>n h'. hextends h h' \<and> n < fresh h' \<and> n_parent (cell h' n) = None) (\<lambda>_ h'. h' = h) h" for k smt
    by (rule wp_mono [OF wp_root_node [OF wf]]) simp_all
  have ext: "hextends h (upd n (\<lambda>x. x\<lparr>n_json := j, n_query := q\<rparr>) h')" if "hextends h h'" for n j q h'
  proof -
    from hextendsD(1) [OF that] have "hextends h' (upd n (\<lambda>x. x\<lparr>n_json := j, n_query := q\<rparr>) h')"
      by (rule hextends_upd) (simp add: same_links_def)
    with that show ?thesis by (rule hextends_trans)
  qed
  have "wp False (fixedpoint_node name smt) (\<lambda>n h'. hextends h h' \<and> n < fresh h' \<and> n_parent (cell h' n) = None) (\<lambda>_ h'. h' = h) h"
    unfolding fixedpoint_node_def
    by (auto simp: wp_simps ext split: sum.splits elim!: wp_mono intro!: wp_mono [OF rt])
  with rt show ?thesis by (simp add: parse_def wp_simps split: option.splits nat.splits)
qed

end
