(* ===== verification/Config.thy ===== *)
theory Config
  imports Net Constants
begin

text \<open>
  The configuration of the server: the variables of \<open>server/config/default.py\<close> and
  \<open>entrust\<close> of \<open>server/config/__init__.py\<close>, which chooses the parameters of a solver. Seconds are
  rational numbers.
\<close>

section \<open>The variables\<close>

text \<open>A parameter is a value, or a callable that gives a value each time it is called; the \<open>n\<close>-th
  call of the run is given \<open>n\<close>.\<close>

datatype param = PVal pyval | PCall "nat \<Rightarrow> pyval"

record config =
  c_port :: int
  c_db_path :: "string option"
  c_table_prefix :: string
  c_portfolio_max :: int
  c_portfolio_min :: int
  c_partition_timeout :: "rat option"
  c_node_timeout :: "rat option"
  c_partition_policy :: "int list"
  c_solving_timeout :: "rat option"
  c_max_memory :: int
  c_build_path :: string
  c_lemma_sharing :: bool
  c_lemma_amount :: "int option"
  c_lemma_db_path :: "string option"
  c_lemma_resend :: bool
  c_log_level :: int
  c_incremental :: int
  c_fixedpoint_partition :: bool
  c_files_path :: "string list"
  c_gui :: bool
  c_opensmt :: int
  c_z3spacer :: int
  c_sally :: int
  c_idle_quit :: bool
  c_printFilename :: bool
  c_printRuntime :: bool
  c_enableLog :: bool
  c_visualize_tree :: bool
  c_debug :: bool
  c_lemmaPush_timeoutMin :: int
  c_lemmaPush_timeoutMax :: int
  c_lemmaPull_timeoutMin :: int
  c_lemmaPull_timeoutMax :: int
  c_clientLogColorMode :: bool
  c_partition_count :: int
  c_spit_preference :: bool
  c_parameters :: "param dict"
  c_calls :: nat

text \<open>\<open>random.randint(0, 0xFFFFFF)\<close> on a source \<open>rnd\<close> of random numbers.\<close>

definition randint :: "(nat \<Rightarrow> int) \<Rightarrow> param" where
  "randint rnd = PCall (\<lambda>k. VInt (rnd k mod 0x1000000))"

definition default_parameters :: "(nat \<Rightarrow> int) \<Rightarrow> param dict" where
  "default_parameters rnd = [
     (''OpenSMT2.seed'', randint rnd),
     (''OpenSMT2.split-type'', PVal (VStr '':scatter-split'')),
     (''Spacer.fp.spacer.random_seed'', randint rnd),
     (''Spacer.fp.spacer.restarts'', PVal (VStr ''false'')),
     (''Spacer.fp.spacer.p3.share_lemmas'', PVal (VStr ''true'')),
     (''Spacer.fp.spacer.p3.share_invariants'', PVal (VStr ''true'')),
     (''Spacer.fp.xform.slice'', PVal (VStr ''false'')),
     (''Spacer.fp.xform.inline_linear'', PVal (VStr ''false'')),
     (''Spacer.fp.xform.inline_eager'', PVal (VStr ''false'')),
     (''Spacer.fp.xform.tail_simplifier_pve'', PVal (VStr ''false'')),
     (''Spacer.fp.spacer.elim_aux'', PVal (VStr ''false'')),
     (''Spacer.fp.spacer.reach_dnf'', PVal (VStr ''false'')),
     (''SALLY.opensmt2-random_seed'', randint rnd),
     (''SALLY.pdkind-minimize-frames'', PVal (VStr ''true'')),
     (''SALLY.pdkind-minimize-interpolants'', PVal (VStr ''true'')),
     (''SALLY.opensmt2-simplify_itp'', PVal (VStr ''2'')),
     (''SALLY.opensmt2-itp-lra'', PVal (VStr ''0'')),
     (''SALLY.opensmt2-itp-bool'', PVal (VStr ''0'')),
     (''SALLY.pdkind-induction-max'', PVal (VStr ''0'')),
     (''SALLY.share-reachability-lemmas'', PVal (VStr ''true'')),
     (''SALLY.share-induction-lemmas'', PVal (VStr ''true''))]"

definition default_config :: "(nat \<Rightarrow> int) \<Rightarrow> config" where
  "default_config rnd = \<lparr>c_port = 3000, c_db_path = None, c_table_prefix = [],
     c_portfolio_max = 0, c_portfolio_min = 1, c_partition_timeout = Some 10,
     c_node_timeout = None, c_partition_policy = [1, 2], c_solving_timeout = Some 2000,
     c_max_memory = 10000, c_build_path = ''../../build'', c_lemma_sharing = False,
     c_lemma_amount = Some 1000, c_lemma_db_path = None, c_lemma_resend = False,
     c_log_level = 20, c_incremental = 2, c_fixedpoint_partition = False, c_files_path = [],
     c_gui = False, c_opensmt = 0, c_z3spacer = 0, c_sally = 0, c_idle_quit = True,
     c_printFilename = False, c_printRuntime = False, c_enableLog = False,
     c_visualize_tree = False, c_debug = False,
     c_lemmaPush_timeoutMin = 15000, c_lemmaPush_timeoutMax = 30000,
     c_lemmaPull_timeoutMin = 20000, c_lemmaPull_timeoutMax = 40000,
     c_clientLogColorMode = False,
     c_partition_count = 0, c_spit_preference = False,
     c_parameters = default_parameters rnd, c_calls = 0\<rparr>"

section \<open>\<open>entrust\<close>\<close>

text \<open>The loop over the parameters: keys are \<open>solver.parameter\<close>, others are skipped.\<close>

definition param_step :: "string \<Rightarrow> string \<times> param \<Rightarrow> pyval dict \<Rightarrow> (config, pyval dict) prog" where
  "param_step solver_name kv header = (case split_once CHR ''.'' (fst kv) of
       None \<Rightarrow> retM header
     | Some (solver, parameter) \<Rightarrow>
         (if solver \<noteq> solver_name then retM header
          else case snd kv of
            PCall f \<Rightarrow> bindM (getM c_calls) (\<lambda>k.
              seqM (modM (\<lambda>c. c\<lparr>c_calls := Suc k\<rparr>))
                (retM (dict_set (''parameter.'' @ parameter) (f k) header)))
          | PVal v \<Rightarrow> retM (dict_set (''parameter.'' @ parameter) v header)))"

text \<open>The portfolio of the two solvers that are told apart by their number.\<close>

definition spacer_header :: "nat \<Rightarrow> pyval dict \<Rightarrow> pyval dict" where
  "spacer_header n header =
     (if n mod 4 = 0 then
        dict_set ''parameter.fp.spacer.reset_pob_queue'' (VStr ''false'')
          (dict_set ''parameter.fp.spacer.push_pob'' (VStr ''true'') (dict_set ''-p'' (VStr ''def'') header))
      else if n mod 4 = 1 then
        dict_set ''parameter.fp.spacer.push_pob'' (VStr ''true'') (dict_set ''-p'' (VStr ''ic3'') header)
      else if n mod 4 = 2 then
        dict_set ''-p'' (VStr ''newgpdr'') (dict_set ''parameter.fp.spacer.gpdr'' (VStr ''true'') header)
      else dict_set ''-p'' (VStr ''gpdr'') header)"

definition sally_header :: "nat \<Rightarrow> pyval dict \<Rightarrow> pyval dict" where
  "sally_header n header =
     (let lra = (if n mod 3 = 0 then ''0'' else if n mod 3 = 1 then ''2'' else ''4'');
          itp = (if n mod 2 = 0 then ''0'' else ''1'')
      in dict_set ''parameter.opensmt2-itp-bool'' (VStr itp)
           (dict_set ''parameter.opensmt2-itp-lra'' (VStr lra) header))"

text \<open>\<open>n\<close> is \<open>len(solvers)\<close>; the node is not used.\<close>

definition config_entrust :: "pyval dict \<Rightarrow> string \<Rightarrow> nat \<Rightarrow> (config, pyval dict) prog" where
  "config_entrust header solver_name n = bindM (getM c_parameters) (\<lambda>ps.
     bindM (foldM (param_step solver_name) ps header) (\<lambda>h1.
       let h2 = (if solver_name = ''Spacer'' then spacer_header n h1 else h1);
           h3 = (if solver_name = ''SALLY'' then sally_header n h2 else h2)
       in retM h3))"

end
