(* ===== verification/ConfigSpec.thy ===== *)
theory ConfigSpec
  imports Config
begin

text \<open>
  What \<open>config.entrust\<close> puts into the message to a solver: the parameters that are configured for this solver and
  no others, and the portfolio entries of the two solvers that have one.
\<close>

text \<open>A callable parameter of the solver.\<close>

definition called :: "string \<Rightarrow> string \<times> param \<Rightarrow> bool" where
  "called solver kv = (take (Suc (length solver)) (fst kv) = solver @ ''.'' \<and> (case snd kv of PCall _ \<Rightarrow> True | PVal _ \<Rightarrow> False))"

definition param_key :: "string \<Rightarrow> string" where
  "param_key p = ''parameter.'' @ p"

lemma param_key_inject [simp]: "param_key p = param_key q \<longleftrightarrow> p = q"
  by (simp add: param_key_def)

text \<open>The parameters of other solvers are not looked at.\<close>

lemma split_at_dot: "CHR ''.'' \<notin> set s \<Longrightarrow> split_once CHR ''.'' (s @ CHR ''.'' # p) = Some (s, p)"
  by (induction s) auto

lemma own_param:
  assumes "CHR ''.'' \<notin> set s"
  shows "split_once CHR ''.'' key = Some (s, p) \<longleftrightarrow> key = s @ CHR ''.'' # p"
  using split_at_dot [OF assms] by (auto dest: split_once_Some)

lemma param_step_foreign:
  assumes "CHR ''.'' \<notin> set s" and "\<And>p. fst kv \<noteq> s @ CHR ''.'' # p"
  shows "param_step s kv header c = Some (Inr header, c)" and "\<not> called s kv"
proof -
  have "split_once CHR ''.'' (fst kv) = Some (s, p) \<Longrightarrow> False" for p using own_param [OF assms(1)] assms(2) by blast
  then show "param_step s kv header c = Some (Inr header, c)"
    by (auto simp: param_step_def retM_def split: option.splits prod.splits)
  show "\<not> called s kv"
  proof
    assume "called s kv"
    then have "fst kv = s @ ''.'' @ drop (Suc (length s)) (fst kv)"
      unfolding called_def by (metis append_assoc append_take_drop_id)
    with assms(2) show False by simp
  qed
qed

definition param_value :: "nat \<Rightarrow> param \<Rightarrow> pyval" where
  "param_value k v = (case v of PVal x \<Rightarrow> x | PCall f \<Rightarrow> f k)"

lemma param_step_own:
  assumes "CHR ''.'' \<notin> set s" and "fst kv = s @ CHR ''.'' # p"
  shows "param_step s kv header c = Some (Inr (dict_set (param_key p) (param_value (c_calls c) (snd kv)) header),
    c\<lparr>c_calls := c_calls c + (if called s kv then 1 else 0)\<rparr>)"
  using split_at_dot [OF assms(1), of p] assms(2)
  by (auto simp: param_step_def called_def param_key_def param_value_def bindM_def seqM_def getM_def modM_def retM_def split: param.splits)

text \<open>The entries that a solver's own parameters make: the parameter \<open>solver.p\<close> under \<open>parameter.p\<close>. A callable is called once, in
  the order of the dictionary.\<close>

definition calls_before :: "string \<Rightarrow> string \<Rightarrow> param dict \<Rightarrow> nat" where
  "calls_before s key ps = length (filter (called s) (takeWhile (\<lambda>kv. fst kv \<noteq> key) ps))"

definition own_params :: "string \<Rightarrow> nat \<Rightarrow> param dict \<Rightarrow> string \<Rightarrow> pyval option" where
  "own_params s k ps key = (if take 10 key = ''parameter.''
     then (let name = s @ ''.'' @ drop 10 key in map_option (param_value (k + calls_before s name ps)) (map_of ps name))
     else None)"

lemma own_params_key: "own_params s k ps (param_key p) =
    map_option (param_value (k + calls_before s (s @ CHR ''.'' # p) ps)) (map_of ps (s @ CHR ''.'' # p))"
  by (simp add: own_params_def param_key_def Let_def)

lemma own_params_other: "(\<And>p. key \<noteq> param_key p) \<Longrightarrow> own_params s k ps key = None"
  unfolding own_params_def param_key_def by (metis append_take_drop_id)

lemma own_params_Nil [simp]: "own_params s k [] = Map.empty"
  by (auto simp: own_params_def fun_eq_iff)

lemma own_params_foreign:
  assumes "\<And>p. fst kv \<noteq> s @ CHR ''.'' # p" and "\<not> called s kv"
  shows "own_params s k (kv # ps) = own_params s k ps"
proof
  fix key
  show "own_params s k (kv # ps) key = own_params s k ps key"
  proof (cases "\<exists>p. key = param_key p")
    case True
    then obtain p where p: "key = param_key p" by blast
    show ?thesis using assms(1) [of p] assms(2) unfolding p own_params_key calls_before_def by (cases kv) auto
  qed (simp add: own_params_other)
qed

lemma own_params_own:
  assumes "fst kv = s @ CHR ''.'' # p"
  shows "own_params s k (kv # ps) = (own_params s (k + (if called s kv then 1 else 0)) ps)(param_key p \<mapsto> param_value k (snd kv))"
proof
  fix key
  show "own_params s k (kv # ps) key = ((own_params s (k + (if called s kv then 1 else 0)) ps)(param_key p \<mapsto> param_value k (snd kv))) key"
  proof (cases "\<exists>q. key = param_key q")
    case True
    then obtain q where q: "key = param_key q" by blast
    show ?thesis using assms unfolding q own_params_key calls_before_def by (cases kv) (auto simp: own_params_key calls_before_def)
  qed (auto simp: own_params_other)
qed

lemma params_run:
  assumes "CHR ''.'' \<notin> set s" and "distinct (map fst ps)"
  shows "\<exists>h'. foldM (param_step s) ps header c = Some (Inr h', c\<lparr>c_calls := c_calls c + length (filter (called s) ps)\<rparr>)
    \<and> map_of h' = map_of header ++ own_params s (c_calls c) ps"
  using assms(2)
proof (induction ps arbitrary: header c)
  case (Cons kv ps)
  then have IH: "\<exists>h'. foldM (param_step s) ps header c = Some (Inr h', c\<lparr>c_calls := c_calls c + length (filter (called s) ps)\<rparr>)
      \<and> map_of h' = map_of header ++ own_params s (c_calls c) ps" for header c by simp
  show ?case
  proof (cases "\<exists>p. fst kv = s @ CHR ''.'' # p")
    case True
    then obtain p where p: "fst kv = s @ CHR ''.'' # p" by blast
    let ?v = "param_value (c_calls c) (snd kv)" and ?k = "c_calls c + (if called s kv then 1 else 0)"
    obtain h' where h': "foldM (param_step s) ps (dict_set (param_key p) ?v header) (c\<lparr>c_calls := ?k\<rparr>)
        = Some (Inr h', c\<lparr>c_calls := ?k + length (filter (called s) ps)\<rparr>)"
        "map_of h' = (map_of header)(param_key p \<mapsto> ?v) ++ own_params s ?k ps"
      using IH [of "dict_set (param_key p) ?v header" "c\<lparr>c_calls := ?k\<rparr>"] by auto
    have "s @ CHR ''.'' # p \<notin> fst ` set ps" using Cons.prems p by auto
    then have "own_params s ?k ps (param_key p) = None" by (auto simp: own_params_key map_of_eq_None_iff)
    then have "map_of h' = map_of header ++ own_params s (c_calls c) (kv # ps)"
      unfolding h'(2) own_params_own [OF p] by (auto simp: fun_eq_iff map_add_def split: option.splits)
    with h'(1) param_step_own [OF assms(1) p, of header c] show ?thesis by (simp add: bindM_def)
  next
    case False
    then have f: "\<And>p. fst kv \<noteq> s @ CHR ''.'' # p" by blast
    note step = param_step_foreign [OF assms(1) f]
    from IH [of header c] step(1) [of header c] step(2) show ?thesis by (simp add: bindM_def own_params_foreign [OF f step(2)])
  qed
qed (simp add: retM_def)

text \<open>The portfolios.\<close>

definition portfolio :: "string \<Rightarrow> nat \<Rightarrow> pyval dict" where
  "portfolio solver n =
    (if solver = ''Spacer'' then
       [[(''-p'', VStr ''def''), (''parameter.fp.spacer.push_pob'', VStr ''true''), (''parameter.fp.spacer.reset_pob_queue'', VStr ''false'')],
        [(''-p'', VStr ''ic3''), (''parameter.fp.spacer.push_pob'', VStr ''true'')],
        [(''-p'', VStr ''newgpdr''), (''parameter.fp.spacer.gpdr'', VStr ''true'')],
        [(''-p'', VStr ''gpdr'')]] ! (n mod 4)
     else if solver = ''SALLY'' then
       [(''parameter.opensmt2-itp-lra'', VStr ([''0'', ''2'', ''4''] ! (n mod 3))), (''parameter.opensmt2-itp-bool'', VStr ([''0'', ''1''] ! (n mod 2)))]
     else [])"

lemma portfolio_spacer: "map_of (spacer_header n h) = map_of h ++ map_of (portfolio ''Spacer'' n)"
proof -
  have "n mod 4 < 4" by simp
  then consider "n mod 4 = 0" | "n mod 4 = 1" | "n mod 4 = 2" | "n mod 4 = 3" by linarith
  then show ?thesis by cases (auto simp: spacer_header_def portfolio_def)
qed

lemma portfolio_sally: "map_of (sally_header n h) = map_of h ++ map_of (portfolio ''SALLY'' n)"
proof -
  have "n mod 3 < 3" "n mod 2 < 2" by simp_all
  then consider "n mod 3 = 0" | "n mod 3 = 1" | "n mod 3 = 2" by linarith
  then show ?thesis by cases (use \<open>n mod 2 < 2\<close> in \<open>cases "n mod 2 = 0"; simp add: sally_header_def portfolio_def fun_eq_iff\<close>)+
qed

lemma portfolio_none: "solver \<noteq> ''Spacer'' \<Longrightarrow> solver \<noteq> ''SALLY'' \<Longrightarrow> portfolio solver n = []"
  by (simp add: portfolio_def)

text \<open>C34: A solver gets its own parameters and its portfolio entries, whatever the message held before: what
  \<open>entrust\<close> returns is the given header, overridden by one entry \<open>parameter.p\<close> for each configured \<open>solver.p\<close> of this
  solver (the value, or what the callable gives at its call), overridden by the entries of the portfolio for the number of
  solvers at the node. Every callable of the solver is called once, none of another solver, and nothing else of the configuration changes.\<close>

theorem solver_gets_its_parameters:
  assumes "CHR ''.'' \<notin> set solver" and "distinct (map fst (c_parameters c))"
  shows "\<exists>h'. config_entrust header solver n c =
      Some (Inr h', c\<lparr>c_calls := c_calls c + length (filter (called solver) (c_parameters c))\<rparr>)
    \<and> map_of h' = map_of header ++ own_params solver (c_calls c) (c_parameters c) ++ map_of (portfolio solver n)"
proof -
  obtain h1 where h1: "foldM (param_step solver) (c_parameters c) header c =
      Some (Inr h1, c\<lparr>c_calls := c_calls c + length (filter (called solver) (c_parameters c))\<rparr>)"
      "map_of h1 = map_of header ++ own_params solver (c_calls c) (c_parameters c)"
    using params_run [OF assms] by blast
  consider "solver = ''Spacer''" | "solver = ''SALLY''" | "solver \<noteq> ''Spacer''" "solver \<noteq> ''SALLY''" by blast
  then show ?thesis
    by cases (use h1 in \<open>simp_all add: config_entrust_def bindM_def getM_def retM_def portfolio_spacer portfolio_sally portfolio_none\<close>)
qed

theorem solver_gets_its_parameters_witness:
  "\<exists>h'. config_entrust [(''command'', VStr ''solve'')] ''Spacer'' 6 (default_config (\<lambda>k. 7)) =
      Some (Inr h', (default_config (\<lambda>k. 7))\<lparr>c_calls := 1\<rparr>)
    \<and> map_of h' ''command'' = Some (VStr ''solve'') \<and> map_of h' ''-p'' = Some (VStr ''newgpdr'')
    \<and> map_of h' ''parameter.fp.spacer.random_seed'' = Some (VInt 7) \<and> map_of h' ''parameter.seed'' = None"
proof -
  let ?c = "default_config (\<lambda>k. 7)"
  have "distinct (map fst (c_parameters ?c))" by code_simp
  from solver_gets_its_parameters [OF _ this, of "''Spacer''" "[(''command'', VStr ''solve'')]" 6]
  obtain h' where h': "config_entrust [(''command'', VStr ''solve'')] ''Spacer'' 6 ?c =
      Some (Inr h', ?c\<lparr>c_calls := c_calls ?c + length (filter (called ''Spacer'') (c_parameters ?c))\<rparr>)"
    and m: "map_of h' = map_of [(''command'', VStr ''solve'')] ++ own_params ''Spacer'' (c_calls ?c) (c_parameters ?c) ++ map_of (portfolio ''Spacer'' 6)"
    by auto
  have "length (filter (called ''Spacer'') (c_parameters ?c)) = 1" by code_simp
  moreover have "c_calls ?c = 0" by (simp add: default_config_def)
  moreover have "own_params ''Spacer'' 0 (c_parameters ?c) ''parameter.fp.spacer.random_seed'' = Some (VInt 7)" by code_simp
  moreover have "own_params ''Spacer'' 0 (c_parameters ?c) ''parameter.seed'' = None" by code_simp
  ultimately show ?thesis using h' m by (auto simp: portfolio_def own_params_def map_add_def)
qed

end
