(* ===== verification/Dot.thy ===== *)
theory Dot
  imports Prelude PyText "HOL-Library.Char_ord" "HOL-Library.List_Lexorder"
begin

text \<open>
  The vendored package \<open>graphviz\<close> as far as the server draws with it: quoting of identifiers and
  attribute lists (\<open>graphviz/lang.py\<close>), and the assembly of DOT source (\<open>graphviz/dot.py\<close>).
  Texts are lists of UTF-8 bytes, whose order is that of Python's texts.
\<close>

abbreviation "BSL \<equiv> CHR 0x5C"
abbreviation "QUO \<equiv> CHR 0x22"
abbreviation "NL \<equiv> CHR 0x0A"

section \<open>Quoting\<close>

text \<open>A text, or one that is marked to be taken literally.\<close>

datatype dtext = DStr string | NoHtml string

definition dtext_str :: "dtext \<Rightarrow> string" where
  "dtext_str t = (case t of DStr s \<Rightarrow> s | NoHtml s \<Rightarrow> s)"

definition nohtml :: "string \<Rightarrow> dtext" where
  "nohtml s = NoHtml s"

definition escape :: "string \<Rightarrow> dtext" where
  "escape s = nohtml (concat (map (\<lambda>c. if c = BSL then [BSL, BSL] else [c]) s))"

text \<open>\<open>$\<close> matches at the end, and before a newline at the end.\<close>

definition until_dollar :: "(string \<Rightarrow> bool) \<Rightarrow> string \<Rightarrow> bool" where
  "until_dollar p s = (p s \<or> (s \<noteq> [] \<and> last s = NL \<and> p (butlast s)))"

definition is_html :: "string \<Rightarrow> bool" where
  "is_html = until_dollar (\<lambda>s. 2 \<le> length s \<and> hd s = CHR ''<'' \<and> last s = CHR ''>'')"

definition is_num_char :: "char \<Rightarrow> bool" where
  "is_num_char c = (48 \<le> (of_char c :: nat) \<and> (of_char c :: nat) \<le> 57)"

definition is_word_start :: "char \<Rightarrow> bool" where
  "is_word_start c = (let n = of_char c :: nat in 65 \<le> n \<and> n \<le> 90 \<or> 97 \<le> n \<and> n \<le> 122 \<or> c = CHR ''_'')"

definition is_word :: "string \<Rightarrow> bool" where
  "is_word s = (case s of [] \<Rightarrow> False
     | c # cs \<Rightarrow> is_word_start c \<and> list_all (\<lambda>d. is_word_start d \<or> is_num_char d) cs)"

text \<open>\<open>-?(\.[0-9]+|[0-9]+(\.[0-9]*)?)\<close>\<close>

definition is_numeral :: "string \<Rightarrow> bool" where
  "is_numeral s = (let t = (case s of [] \<Rightarrow> [] | c # cs \<Rightarrow> if c = CHR ''-'' then cs else s) in
     let whole = takeWhile is_num_char t; rest = dropWhile is_num_char t in
       (case rest of [] \<Rightarrow> whole \<noteq> []
        | c # decs \<Rightarrow> c = CHR ''.'' \<and> list_all is_num_char decs \<and> (whole \<noteq> [] \<or> decs \<noteq> [])))"

definition is_valid_id :: "string \<Rightarrow> bool" where
  "is_valid_id = until_dollar (\<lambda>s. is_word s \<or> is_numeral s)"

definition lower :: "string \<Rightarrow> string" where
  "lower s = map (\<lambda>c. let n = of_char c :: nat in if 65 \<le> n \<and> n \<le> 90 then char_of (n + 32) else c) s"

definition dot_keywords :: "string list" where
  "dot_keywords = [''node'', ''edge'', ''graph'', ''digraph'', ''subgraph'', ''strict'']"

text \<open>Before a quote, a run of backslashes is cut to an even number and one more is put.\<close>

function escape_quotes :: "string \<Rightarrow> string" where
  "escape_quotes s = (let bs = takeWhile (\<lambda>c. c = BSL) s in
     case dropWhile (\<lambda>c. c = BSL) s of [] \<Rightarrow> bs
     | c # r \<Rightarrow> (if c = QUO then replicate (2 * (length bs div 2)) BSL @ [BSL, QUO] else bs @ [c]) @ escape_quotes r)"
  by pat_completeness auto
termination
proof (relation "measure length")
  fix s bs c r assume "dropWhile (\<lambda>c. c = BSL) s = c # r"
  then have "length (c # r) \<le> length s" using length_dropWhile_le [of "\<lambda>c. c = BSL" s] by simp
  then show "(r, s) \<in> measure length" by simp
qed simp

declare escape_quotes.simps [simp del]

definition quote :: "dtext \<Rightarrow> string" where
  "quote t = (let s = dtext_str t in
     if is_html s \<and> t = DStr s then s
     else if \<not> is_valid_id s \<or> lower s \<in> set dot_keywords then QUO # escape_quotes s @ [QUO]
     else s)"

text \<open>\<open>s.partition(':')\<close>\<close>

definition colon_parts :: "string \<Rightarrow> string \<times> string" where
  "colon_parts s = (takeWhile (\<lambda>c. c \<noteq> CHR '':'') s, drop 1 (dropWhile (\<lambda>c. c \<noteq> CHR '':'') s))"

definition quote_edge :: "string \<Rightarrow> string" where
  "quote_edge s = (let (node, rest) = colon_parts s in
     quote (DStr node) @ (if rest = [] then [] else
       (let (prt, compass) = colon_parts rest in
        CHR '':'' # quote (DStr prt) @ (if compass = [] then [] else CHR '':'' # compass))))"

section \<open>Attributes\<close>

text \<open>Keyword arguments, sorted by name; those that are \<open>None\<close> are left out. \<open>attributes\<close> may be a
  dictionary, which is sorted, or a list of pairs, which is not.\<close>

type_synonym attrs = "(string \<times> dtext option) list"

datatype attributes = NoAttrs | AttrDict attrs | AttrPairs attrs

definition mapping_items :: "attrs \<Rightarrow> attrs" where
  "mapping_items = sort_key fst"

definition attr_items :: "attrs \<Rightarrow> string list" where
  "attr_items kvs = concat (map (\<lambda>(k, v). case v of None \<Rightarrow> []
     | Some t \<Rightarrow> [quote (DStr k) @ ''='' @ quote t]) kvs)"

definition a_list :: "dtext option \<Rightarrow> attrs \<Rightarrow> attributes \<Rightarrow> string" where
  "a_list label kwargs attributes = join '' ''
     ((case label of None \<Rightarrow> [] | Some l \<Rightarrow> [''label='' @ quote l])
      @ attr_items (mapping_items kwargs)
      @ (case attributes of NoAttrs \<Rightarrow> [] | AttrDict d \<Rightarrow> attr_items (mapping_items d)
         | AttrPairs ps \<Rightarrow> attr_items ps))"

definition attr_list :: "dtext option \<Rightarrow> attrs \<Rightarrow> attributes \<Rightarrow> string" where
  "attr_list label kwargs attributes = (let content = a_list label kwargs attributes in
     if content = [] then [] else '' ['' @ content @ '']'')"

section \<open>\<open>Dot\<close>\<close>

record dot =
  d_name :: string
  d_comment :: string
  d_graph_attr :: attrs
  d_node_attr :: attrs
  d_edge_attr :: attrs
  d_body :: "string list"
  d_strict :: bool
  d_directed :: bool

abbreviation "TAB \<equiv> CHR 0x09"

definition dot_clear :: "bool \<Rightarrow> dot \<Rightarrow> dot" where
  "dot_clear keep_attrs d = (if keep_attrs then d\<lparr>d_body := []\<rparr>
     else d\<lparr>d_graph_attr := [], d_node_attr := [], d_edge_attr := [], d_body := []\<rparr>)"

definition add_line :: "string \<Rightarrow> dot \<Rightarrow> dot" where
  "add_line l d = d\<lparr>d_body := d_body d @ [l]\<rparr>"

definition dot_node :: "string \<Rightarrow> dtext option \<Rightarrow> attributes \<Rightarrow> attrs \<Rightarrow> dot \<Rightarrow> dot" where
  "dot_node name label attributes kwargs =
     add_line (TAB # quote (DStr name) @ attr_list label kwargs attributes)"

text \<open>\<open>Graph._edge\<close> and \<open>Digraph._edge\<close>\<close>

definition edge_op :: "dot \<Rightarrow> string" where
  "edge_op d = (if d_directed d then '' -> '' else '' -- '')"

definition dot_edge :: "string \<Rightarrow> string \<Rightarrow> dtext option \<Rightarrow> attributes \<Rightarrow> attrs \<Rightarrow> dot \<Rightarrow> dot" where
  "dot_edge t h label attributes kwargs d =
     add_line (TAB # quote_edge t @ edge_op d @ quote_edge h @ attr_list label kwargs attributes) d"

definition dot_edges :: "(string \<times> string) list \<Rightarrow> dot \<Rightarrow> dot" where
  "dot_edges ps d = d\<lparr>d_body := d_body d
     @ map (\<lambda>(t, h). TAB # quote_edge t @ edge_op d @ quote_edge h) ps\<rparr>"

definition no_attributes :: "attributes \<Rightarrow> bool" where
  "no_attributes a = (case a of NoAttrs \<Rightarrow> True | AttrDict d \<Rightarrow> d = [] | AttrPairs d \<Rightarrow> d = [])"

definition dot_attr :: "string option \<Rightarrow> attributes \<Rightarrow> attrs \<Rightarrow> dot \<Rightarrow> exc + dot" where
  "dot_attr kw attributes kwargs d =
     (if (case kw of None \<Rightarrow> False | Some k \<Rightarrow> lower k \<notin> set [''graph'', ''node'', ''edge'']) then Inl ValueError
      else if kwargs = [] \<and> no_attributes attributes then Inr d
      else Inr (add_line (case kw of None \<Rightarrow> TAB # a_list None kwargs attributes
             | Some k \<Rightarrow> TAB # k @ attr_list None kwargs attributes) d))"

text \<open>\<open>__iter__\<close>, for a graph and for a subgraph.\<close>

definition dot_lines :: "bool \<Rightarrow> dot \<Rightarrow> exc + string list" where
  "dot_lines subgraph d =
     (if subgraph \<and> d_strict d then Inl ValueError
      else Inr ((if d_comment d = [] then [] else [''// '' @ d_comment d])
        @ [(if subgraph then (if d_name d = [] then [] else ''subgraph '')
            else (if d_strict d then ''strict '' else []) @ (if d_directed d then ''digraph '' else ''graph ''))
           @ (if d_name d = [] then [] else quote (DStr (d_name d)) @ '' '') @ ''{'']
        @ concat (map (\<lambda>(kw, a). if a = [] then [] else [TAB # kw @ attr_list None a NoAttrs])
            [(''graph'', d_graph_attr d), (''node'', d_node_attr d), (''edge'', d_edge_attr d)])
        @ d_body d @ [''}'']))"

definition dot_source :: "dot \<Rightarrow> exc + string" where
  "dot_source d = map_sum id (join [NL]) (dot_lines False d)"

text \<open>\<open>subgraph(graph)\<close> with a graph as the only argument.\<close>

definition dot_subgraph :: "dot \<Rightarrow> dot \<Rightarrow> exc + dot" where
  "dot_subgraph g d = (if d_directed g \<noteq> d_directed d then Inl ValueError
     else map_sum id (\<lambda>ls. d\<lparr>d_body := d_body d @ map (Cons TAB) ls\<rparr>) (dot_lines True g))"

section \<open>What a reader of DOT sees\<close>

text \<open>The reference: one scan from left to right, in which a backslash takes the next character with it
  and a bare quote gets a backslash.\<close>

fun esc :: "string \<Rightarrow> string" where
  "esc [] = []"
| "esc [c] = (if c = QUO then [BSL, QUO] else [c])"
| "esc (c # d # r) = (if c = BSL then BSL # d # esc r
     else if c = QUO then BSL # QUO # esc (d # r) else c # esc (d # r))"

lemma esc_even: "esc (replicate (2 * k) BSL @ r) = replicate (2 * k) BSL @ esc r"
  by (induction k) simp_all

lemma esc_backslashes: "esc (replicate k BSL) = replicate k BSL"
proof (cases "even k")
  case True
  then obtain m where "k = 2 * m" by blast
  then show ?thesis using esc_even [of m "[]"] by simp
next
  case False
  then obtain m where m: "k = 2 * m + 1" by (rule oddE)
  then have "replicate k BSL = replicate (2 * m) BSL @ [BSL]" by (simp add: replicate_append_same)
  then show ?thesis by (simp add: esc_even)
qed

lemma esc_run:
  assumes "c \<noteq> BSL"
  shows "esc (replicate k BSL @ c # r)
    = (if c = QUO then replicate (2 * (k div 2)) BSL @ [BSL, QUO] else replicate k BSL @ [c]) @ esc r"
proof (cases "even k")
  case True
  then obtain m where "k = 2 * m" by blast
  with assms show ?thesis by (cases r) (simp_all add: esc_even)
next
  case False
  then obtain m where m: "k = 2 * m + 1" by (rule oddE)
  then have "replicate k BSL @ c # r = replicate (2 * m) BSL @ BSL # c # r"
    by (simp add: replicate_append_same [symmetric])
  then have "esc (replicate k BSL @ c # r) = replicate (2 * m) BSL @ BSL # c # esc r" by (simp add: esc_even)
  moreover have "k div 2 = m" using m by simp
  ultimately show ?thesis using m by (simp add: replicate_append_same [symmetric])
qed

lemma takeWhile_run: "takeWhile (\<lambda>c. c = x) s = replicate (length (takeWhile (\<lambda>c. c = x) s)) x"
  by (induction s) auto

lemma escape_quotes_esc: "escape_quotes s = esc s"
proof (induction s rule: escape_quotes.induct)
  case (1 s)
  define k where "k = length (takeWhile (\<lambda>c. c = BSL) s)"
  have run: "takeWhile (\<lambda>c. c = BSL) s = replicate k BSL" unfolding k_def by (rule takeWhile_run)
  have s: "s = replicate k BSL @ dropWhile (\<lambda>c. c = BSL) s"
    using takeWhile_dropWhile_id [of "\<lambda>c. c = BSL" s] by (simp add: run)
  show ?case
  proof (cases "dropWhile (\<lambda>c. c = BSL) s")
    case Nil
    then have eq: "escape_quotes s = replicate k BSL"
      by (simp add: escape_quotes.simps [of s] run del: dropWhile_eq_Nil_conv)
    have "s = replicate k BSL" using s by (simp only: Nil append_Nil2)
    with eq show ?thesis by (simp add: esc_backslashes)
  next
    case (Cons c r)
    then have ne: "c \<noteq> BSL" using hd_dropWhile [of "\<lambda>c. c = BSL" s] by simp
    have eq: "escape_quotes s = (if c = QUO then replicate (2 * (k div 2)) BSL @ [BSL, QUO]
        else replicate k BSL @ [c]) @ escape_quotes r"
      by (simp add: escape_quotes.simps [of s] run Cons)
    have "esc s = esc (replicate k BSL @ c # r)" using s by (simp only: Cons)
    with eq esc_run [OF ne, of k r] 1 [OF refl Cons] show ?thesis by (simp only:)
  qed
qed

text \<open>A quoted text is read up to the first quote that has no backslash; the backslash of a quote is
  dropped, every other one stays.\<close>

fun read_quoted :: "string \<Rightarrow> (string \<times> string) option" where
  "read_quoted [] = None"
| "read_quoted (c # r) =
     (if c = QUO then Some ([], r)
      else if c = BSL then (case r of [] \<Rightarrow> None
        | d # r' \<Rightarrow> map_option (\<lambda>(v, z). ((if d = QUO then [QUO] else [BSL, d]) @ v, z)) (read_quoted r'))
      else map_option (\<lambda>(v, z). (c # v, z)) (read_quoted r))"

text \<open>The text that is meant, and whether its last backslash has nothing to go with.\<close>

fun meant :: "string \<Rightarrow> string" where
  "meant [] = []"
| "meant [c] = [c]"
| "meant (c # d # r) = (if c = BSL then (if d = QUO then [QUO] else [BSL, d]) @ meant r else c # meant (d # r))"

fun dangling :: "string \<Rightarrow> bool" where
  "dangling [] = False"
| "dangling [c] = (c = BSL)"
| "dangling (c # d # r) = (if c = BSL then dangling r else dangling (d # r))"

lemma read_esc: "\<not> dangling s \<Longrightarrow> read_quoted (esc s @ QUO # rest) = Some (meant s, rest)"
  by (induction s rule: esc.induct) (auto split: if_splits)

lemma read_esc_dangling: "dangling s \<Longrightarrow> read_quoted (esc s @ [QUO]) = None"
  by (induction s rule: esc.induct) (auto split: if_splits)

lemma meant_plain: "BSL \<notin> set s \<Longrightarrow> meant s = s \<and> \<not> dangling s"
  by (induction s rule: meant.induct) auto

text \<open>C40: Whatever is written between the quotes comes out as it was meant: a quoted identifier is
  read up to its own closing quote, and without backslashes as the very same text. Only when the text
  ends in an odd run of backslashes the closing quote is swallowed.\<close>

theorem quoted_reads_back:
  assumes "quote (NoHtml s) \<noteq> s"
  shows "(\<not> dangling s \<longrightarrow> (\<exists>body. quote (NoHtml s) = QUO # body
      \<and> read_quoted (body @ rest) = Some (meant s, rest)))
    \<and> (BSL \<notin> set s \<longrightarrow> meant s = s \<and> \<not> dangling s)
    \<and> (dangling s \<longrightarrow> read_quoted (tl (quote (NoHtml s))) = None)"
proof -
  have "quote (NoHtml s) = QUO # esc s @ [QUO]"
    using assms by (auto simp: quote_def dtext_str_def escape_quotes_esc Let_def split: if_splits)
  then show ?thesis using read_esc [of s rest] read_esc_dangling [of s] meant_plain [of s] by simp
qed

theorem quoted_reads_back_witness:
  "read_quoted (tl (quote (NoHtml ''a b'')) @ '';'') = Some (''a b'', '';'')
   \<and> read_quoted (tl (quote (NoHtml [CHR ''a'', BSL]))) = None"
proof -
  have ne: "quote (NoHtml ''a b'') \<noteq> ''a b''" "quote (NoHtml [CHR ''a'', BSL]) \<noteq> [CHR ''a'', BSL]"
    by code_simp+
  show ?thesis
    using quoted_reads_back [OF ne(1), of "'';''"] quoted_reads_back [OF ne(2), of "[]"] by auto
qed

end
