(* ===== verification/VTree.thy ===== *)
theory VTree
  imports Dot
begin

text \<open>
  The drawing of the partition tree that \<open>ParallelizationServer\<close> keeps when \<open>config.visualize_tree\<close>
  is set (\<open>server/schedular.py\<close>): \<open>collectData_vTree\<close> counts the moves that the solvers' messages
  tell of, \<open>render_vTree\<close> turns the counts into a \<open>graphviz.Digraph\<close>.
\<close>

section \<open>The data\<close>

text \<open>A row of \<open>node_dict\<close>: the tuple's components 0 to 7 and 9; the list at 8 is never used.\<close>

record vrow =
  v_start :: int
  v_pop_other :: int
  v_rank :: int
  v_box :: string
  v_edge :: string
  v_parts :: "nat list"
  v_pop_same :: int
  v_push :: int
  v_solvers :: int

definition new_row :: vrow where
  "new_row = \<lparr>v_start = 0, v_pop_other = 0, v_rank = 0, v_box = ''white'', v_edge = ''white'',
     v_parts = [], v_pop_same = 0, v_push = 0, v_solvers = 0\<rparr>"

text \<open>The fields of the server for it, and the global \<open>comment\<close>.\<close>

record vtree =
  vt_rows :: "vrow dict"
  vt_alias :: "string dict"
  vt_rank :: int
  vt_dot :: dot
  vt_filename :: string
  vt_comment :: string

definition vtree_new :: vtree where
  "vtree_new = \<lparr>vt_rows = [], vt_alias = [(''[]'', ''[]'')], vt_rank = 0,
     vt_dot = \<lparr>d_name = ''f'', d_comment = [], d_graph_attr = [],
       d_node_attr = [(''shape'', Some (DStr ''record'')), (''width'', Some (DStr ''1%'')),
         (''height'', Some (DStr ''1%'')), (''fillcolor'', Some (DStr ''white''))],
       d_edge_attr = [], d_body = [], d_strict = False, d_directed = True\<rparr>,
     vt_filename = ''f.gv'', vt_comment = ''Lemma Server OFF''\<rparr>"

section \<open>Searching in messages\<close>

text \<open>\<open>re.search(r"\[(.*)\]", message)\<close>: from the first opening bracket that has a closing one on its
  line, to the last of these.\<close>

definition to_last :: "char \<Rightarrow> string \<Rightarrow> string" where
  "to_last c s = rev (dropWhile (\<lambda>d. d \<noteq> c) (rev s))"

fun find_brackets :: "string \<Rightarrow> string option" where
  "find_brackets [] = None"
| "find_brackets (c # cs) =
     (let line = takeWhile (\<lambda>d. d \<noteq> NL) cs in
      if c = CHR ''['' \<and> CHR '']'' \<in> set line then Some (c # to_last CHR '']'' line) else find_brackets cs)"

text \<open>\<open>re.search(r"received [0-9]+ partitions", message)\<close>, as the digits found.\<close>

definition received_at :: "string \<Rightarrow> string option" where
  "received_at s = (if take 9 s = ''received ''
     then (let digits = takeWhile is_num_char (drop 9 s); rest = dropWhile is_num_char (drop 9 s) in
       if digits \<noteq> [] \<and> take 11 rest = '' partitions'' then Some digits else None)
     else None)"

fun find_received :: "string \<Rightarrow> string option" where
  "find_received [] = None"
| "find_received (c # cs) = (case received_at (c # cs) of Some d \<Rightarrow> Some d | None \<Rightarrow> find_received cs)"

section \<open>\<open>collectData_vTree\<close>\<close>

text \<open>What a message counts as.\<close>

record counts =
  k_start :: int
  k_push :: int
  k_pop_same :: int
  k_pop_other :: int
  k_partition :: nat
  k_box :: string
  k_edge :: string

definition nothing :: counts where
  "nothing = \<lparr>k_start = 0, k_push = 0, k_pop_same = 0, k_pop_other = 0, k_partition = 0, k_box = [], k_edge = []\<rparr>"

text \<open>\<open>s[1:len(s)-1]\<close>\<close>

definition inner :: "string \<Rightarrow> string" where
  "inner s = drop 1 (take (length s - 1) s)"

definition count_move :: "string \<Rightarrow> string \<Rightarrow> counts" where
  "count_move current dest = (let pre = inner current; full = inner dest in
     if pre \<noteq> full \<and> pre = take (length pre) full then nothing\<lparr>k_push := 1\<rparr>
     else if pre \<noteq> full \<and> full = take (length full) pre then nothing\<lparr>k_pop_same := 1\<rparr>
     else if pre \<noteq> full then nothing\<lparr>k_pop_other := 1\<rparr>
     else nothing)"

definition count_message :: "string \<Rightarrow> string \<Rightarrow> string \<Rightarrow> counts" where
  "count_message current dest message = (case find_received message of
       Some digits \<Rightarrow> nothing\<lparr>k_partition := read_nat digits, k_edge := ''blue''\<rparr>
     | None \<Rightarrow>
         (if message = ''unsat'' \<or> message = ''sat'' then nothing\<lparr>k_box := ''green''\<rparr>
          else if message = ''start'' then nothing\<lparr>k_start := 1, k_edge := ''red''\<rparr>
          else count_move current dest))"

definition ensure_row :: "string \<Rightarrow> vrow dict \<Rightarrow> vrow dict" where
  "ensure_row key rows = (if has_key key rows then rows else dict_set key new_row rows)"

definition total_of :: "counts \<Rightarrow> int" where
  "total_of k = k_start k + k_push k + k_pop_same k + k_pop_other k"

definition change_row :: "string \<Rightarrow> (vrow \<Rightarrow> vrow) \<Rightarrow> vrow dict \<Rightarrow> vrow dict" where
  "change_row key f rows = (case map_of rows key of None \<Rightarrow> rows | Some r \<Rightarrow> dict_set key (f r) rows)"

definition arrive :: "counts \<Rightarrow> int \<Rightarrow> vrow \<Rightarrow> vrow" where
  "arrive k rank r = \<lparr>v_start = v_start r + k_start k, v_pop_other = v_pop_other r + k_pop_other k,
     v_rank = rank, v_box = k_box k, v_edge = k_edge k,
     v_parts = v_parts r @ (if k_partition k \<noteq> 0 then [k_partition k] else []),
     v_pop_same = v_pop_same r + k_pop_same k, v_push = v_push r + k_push k,
     v_solvers = v_solvers r + total_of k\<rparr>"

text \<open>The header is given by its entries \<open>node_\<close> and \<open>node\<close>; with neither the code raises \<open>KeyError\<close>,
  before anything is changed. The current node is the one that the message names, or the root.\<close>

definition collect :: "string option \<Rightarrow> string option \<Rightarrow> string \<Rightarrow> vtree \<Rightarrow> exc + vtree" where
  "collect node' node message vt =
     (let current = (case find_brackets message of Some s \<Rightarrow> s | None \<Rightarrow> ''[]'') in
      case (case node' of Some d \<Rightarrow> Some d | None \<Rightarrow> node) of None \<Rightarrow> Inl KeyError
      | Some dest \<Rightarrow>
          (let rows = ensure_row current (ensure_row dest (vt_rows vt));
               k = count_message current dest message;
               rank = vt_rank vt + (if find_received message = None \<and> (message = ''unsat'' \<or> message = ''sat'')
                 then 1 else 0);
               leaving = (if k_start k \<noteq> 0 then 0 else total_of k)
           in Inr (vt\<lparr>vt_rows := change_row current (\<lambda>r. r\<lparr>v_solvers := v_solvers r - leaving\<rparr>)
                    (change_row dest (arrive k rank) rows), vt_rank := rank\<rparr>)))"

section \<open>\<open>render_vTree\<close>\<close>

text \<open>The heading: the numbers are given as the texts that \<open>str\<close> makes of them.\<close>

definition heading :: "nat \<Rightarrow> string \<Rightarrow> string \<Rightarrow> string \<Rightarrow> string \<Rightarrow> string \<Rightarrow> string \<Rightarrow> string" where
  "heading solvers portfolio node_timeout policy elapsed partition_timeout comm =
     NL # '' Solvers: '' @ show_nat solvers @ ''    Portfolio: '' @ portfolio @ ''    Node Timeout: ''
     @ node_timeout @ ''      Partition Policy '' @ policy @ ''      Elapsed Time: '' @ elapsed
     @ ''   Partition Timout: '' @ partition_timeout @ [NL] @ comm"

definition row_label :: "vrow \<Rightarrow> string \<Rightarrow> string \<Rightarrow> string" where
  "row_label r rank_str alias = ''<f0> '' @ show_int (v_start r) @ '' - '' @ show_int (v_push r) @ ''|<f1> ''
     @ rank_str @ alias @ ''|<f2>'' @ show_int (v_pop_other r) @ '' - '' @ show_int (v_pop_same r)"

definition part_key :: "string \<Rightarrow> string \<Rightarrow> string" where
  "part_key key alias = (if key = ''[]'' then alias
     else take (length key - 1) key @ '', '' @ tl alias)"

text \<open>The node of partition \<open>x\<close> of the \<open>index\<close>-th split of \<open>key\<close>, with the edge to it.\<close>

definition draw_part :: "string \<Rightarrow> nat \<Rightarrow> nat \<Rightarrow> vtree \<Rightarrow> vtree" where
  "draw_part key index x vt =
     (let alias = ''['' @ show_nat index @ '', '' @ show_nat x @ '']'';
          part = part_key key alias;
          label = nohtml (''<f0> |<f1> '' @ alias @ ''|<f2>'');
          color = (if index mod 2 = 0 then ''blue'' else ''black'');
          drawn = dot_node (''node'' @ part) (Some label) NoAttrs
            (if has_key part (vt_rows vt) then [] else [(''color'', Some (DStr ''blue''))]) (vt_dot vt)
      in vt\<lparr>vt_alias := dict_set part alias (vt_alias vt),
            vt_dot := dot_edge (''node'' @ key @ '':f1'') (''node'' @ part @ '':f1'') None NoAttrs
              [(''color'', Some (DStr color))] drawn\<rparr>)"

definition draw_parts :: "string \<Rightarrow> nat list \<Rightarrow> vtree \<Rightarrow> vtree" where
  "draw_parts key parts vt = fold (\<lambda>(index, n). fold (draw_part key index) [0 ..< n]) (enumerate 0 parts) vt"

definition get_alias :: "string \<Rightarrow> (vtree, string) prog" where
  "get_alias key = bindM (getM vt_alias) (\<lambda>a. someM KeyError (map_of a key))"

definition draw :: "(dot \<Rightarrow> dot) \<Rightarrow> (vtree, unit) prog" where
  "draw f = modM (\<lambda>vt. vt\<lparr>vt_dot := f (vt_dot vt)\<rparr>)"

text \<open>One row. The highest rank among the solved nodes and its node are kept for the end. Without an
  alias the code raises \<open>KeyError\<close>.\<close>

definition draw_row :: "string \<times> vrow \<Rightarrow> int \<times> string \<Rightarrow> (vtree, int \<times> string) prog" where
  "draw_row kr best = (let key = fst kr; r = snd kr; solved = (v_box r = ''green'');
       best' = (if solved \<and> fst best < v_rank r then (v_rank r, key) else best);
       rank_str = (if solved then ''('' @ show_int (v_rank r) @ '') '' else []);
       color = (if v_solvers r < 0 \<or> (solved \<and> 0 < v_solvers r) then ''red'' else v_box r)
     in bindM (get_alias key) (\<lambda>alias.
        seqM (draw (dot_node (''node'' @ key) (Some (nohtml (row_label r rank_str alias))) NoAttrs
          [(''color'', Some (DStr color))]))
        (seqM (draw (dot_edge (''node'' @ key @ '':f2'') (''node'' @ key @ '':f2'')
            (Some (DStr (''('' @ show_int (v_solvers r) @ '')''))) NoAttrs [(''color'', Some (DStr ''white''))]))
        (seqM (modM (draw_parts key (v_parts r))) (retM best')))))"

definition draw_last :: "int \<times> string \<Rightarrow> (vtree, unit) prog" where
  "draw_last best = whenM (snd best \<noteq> []) (bindM (getM vt_rows) (\<lambda>rows.
     bindM (someM KeyError (map_of rows (snd best))) (\<lambda>r. bindM (get_alias (snd best)) (\<lambda>alias.
       draw (dot_node (''node'' @ snd best)
         (Some (nohtml (row_label r (''('' @ show_int (fst best) @ '') '') alias))) NoAttrs
         [(''color'', Some (DStr ''#DFA500''))])))))"

text \<open>\<open>head\<close> is the heading without the comment; \<open>view\<close> gets the name of the file and its text.\<close>

definition render :: "string \<Rightarrow> (string \<Rightarrow> string) \<Rightarrow> (vtree, unit) prog" where
  "render name head =
     seqM (modM (\<lambda>vt. vt\<lparr>vt_filename := name @ ''.gv''\<rparr>))
     (bindM (getM id) (\<lambda>vt.
      bindM (case dot_attr None NoAttrs [(''bgcolor'', Some (DStr ''white'')), (''rankdir'', Some (DStr ''UP'')),
          (''label'', Some (DStr (head (vt_comment vt)))), (''fontcolor'', Some (DStr ''black''))] (vt_dot vt) of
        Inl e \<Rightarrow> raiseM e | Inr d \<Rightarrow> draw (\<lambda>_. d\<lparr>d_comment := ''Test''\<rparr>)) (\<lambda>_.
      bindM (foldM draw_row (vt_rows vt) (0, [])) draw_last)))"

text \<open>What \<open>entrust\<close> resets once the instance is over.\<close>

definition vtree_reset :: "vtree \<Rightarrow> vtree" where
  "vtree_reset vt = vt\<lparr>vt_rows := [], vt_alias := [(''[]'', ''[]'')], vt_rank := 0\<rparr>"

section \<open>The counts add up\<close>

definition over_rows :: "(vrow \<Rightarrow> int) \<Rightarrow> vrow dict \<Rightarrow> int" where
  "over_rows g rows = (\<Sum>(k, r) \<leftarrow> rows. g r)"

lemma over_rows_set: "map_of rows key = Some r \<Longrightarrow> over_rows g (dict_set key r' rows) = over_rows g rows - g r + g r'"
  by (induction key r' rows rule: dict_set.induct) (auto simp: over_rows_def split: if_splits)

lemma over_rows_new: "map_of rows key = None \<Longrightarrow> over_rows g (dict_set key r' rows) = over_rows g rows + g r'"
  by (induction key r' rows rule: dict_set.induct) (auto simp: over_rows_def split: if_splits)

lemma over_rows_ensure: "g new_row = 0 \<Longrightarrow> over_rows g (ensure_row key rows) = over_rows g rows"
  by (simp add: ensure_row_def has_key_def over_rows_new map_of_eq_None_iff)

lemma map_of_ensure: "map_of (ensure_row key rows) key \<noteq> None" "map_of rows k \<noteq> None \<Longrightarrow> map_of (ensure_row key rows) k \<noteq> None"
  by (auto simp: ensure_row_def has_key_def map_of_dict_set map_of_eq_None_iff)

lemma over_rows_change:
  assumes "map_of rows key \<noteq> None" and "\<And>r. g (f r) = g r + c"
  shows "over_rows g (change_row key f rows) = over_rows g rows + c"
  using assms by (auto simp: change_row_def over_rows_set)

lemma map_of_change: "map_of rows k \<noteq> None \<Longrightarrow> map_of (change_row key f rows) k \<noteq> None"
  by (auto simp: change_row_def map_of_dict_set split: option.splits)

lemma count_start: "k_start (count_message current dest message)
    = (if find_received message = None \<and> message = ''start'' then 1 else 0)"
  by (auto simp: count_message_def count_move_def nothing_def Let_def split: option.split)

lemma total_start:
  assumes "k_start (count_message current dest message) \<noteq> 0"
  shows "total_of (count_message current dest message) = 1"
proof -
  from assms have "find_received message = None" "message = ''start''"
    unfolding count_start by (simp_all split: if_splits)
  then have "count_message current dest message = nothing\<lparr>k_start := 1, k_edge := ''red''\<rparr>"
    by (simp add: count_message_def)
  then show ?thesis by (simp add: total_of_def nothing_def)
qed

lemma collect_sums:
  assumes "collect node' node message vt = Inr vt'"
  shows "over_rows v_solvers (vt_rows vt') - over_rows v_start (vt_rows vt')
       = over_rows v_solvers (vt_rows vt) - over_rows v_start (vt_rows vt)"
    and "over_rows v_start (vt_rows vt') = over_rows v_start (vt_rows vt)
       + (if find_received message = None \<and> message = ''start'' then 1 else 0)"
proof -
  define current where "current = (case find_brackets message of Some s \<Rightarrow> s | None \<Rightarrow> ''[]'')"
  from assms obtain dest where dest: "(case node' of Some d \<Rightarrow> Some d | None \<Rightarrow> node) = Some dest"
    by (auto simp: collect_def Let_def split: option.splits)
  define rows where "rows = ensure_row current (ensure_row dest (vt_rows vt))"
  define k where "k = count_message current dest message"
  define leaving where "leaving = (if k_start k \<noteq> 0 then 0 else total_of k)"
  define rank where "rank = vt_rank vt + (if find_received message = None \<and> (message = ''unsat'' \<or> message = ''sat'')
      then 1 else 0)"
  from assms have "Inr (vt\<lparr>vt_rows := change_row current (\<lambda>r. r\<lparr>v_solvers := v_solvers r - leaving\<rparr>)
      (change_row dest (arrive k rank) rows), vt_rank := rank\<rparr>) = (Inr vt' :: exc + vtree)"
    unfolding collect_def dest option.case Let_def current_def [symmetric] rank_def k_def rows_def leaving_def .
  then have vt': "vt_rows vt' = change_row current (\<lambda>r. r\<lparr>v_solvers := v_solvers r - leaving\<rparr>)
      (change_row dest (arrive k rank) rows)" by auto
  have key: "map_of rows dest \<noteq> None" "map_of (change_row dest (arrive k rank) rows) current \<noteq> None"
    unfolding rows_def by (intro map_of_change map_of_ensure)+
  have same: "over_rows g rows = over_rows g (vt_rows vt)" if "g new_row = 0" for g
    using that by (simp add: rows_def over_rows_ensure)
  have "over_rows v_solvers (change_row dest (arrive k rank) rows) = over_rows v_solvers rows + total_of k"
    and "over_rows v_start (change_row dest (arrive k rank) rows) = over_rows v_start rows + k_start k"
    by (rule over_rows_change [OF key(1)]; simp add: arrive_def)+
  moreover have "over_rows v_solvers (vt_rows vt') = over_rows v_solvers (change_row dest (arrive k rank) rows) + (- leaving)"
    and "over_rows v_start (vt_rows vt') = over_rows v_start (change_row dest (arrive k rank) rows) + 0"
    unfolding vt' by (rule over_rows_change [OF key(2)]; simp)+
  ultimately have solvers: "over_rows v_solvers (vt_rows vt') = over_rows v_solvers (vt_rows vt) + total_of k - leaving"
    and start: "over_rows v_start (vt_rows vt') = over_rows v_start (vt_rows vt) + k_start k"
    by (simp_all add: same new_row_def)
  have "k_start k = (if find_received message = None \<and> message = ''start'' then 1 else 0)"
    unfolding k_def by (rule count_start)
  moreover have "total_of k = 1" if "k_start k \<noteq> 0"
    using that unfolding k_def by (rule total_start)
  ultimately show "over_rows v_solvers (vt_rows vt') - over_rows v_start (vt_rows vt')
       = over_rows v_solvers (vt_rows vt) - over_rows v_start (vt_rows vt)"
    and "over_rows v_start (vt_rows vt') = over_rows v_start (vt_rows vt)
       + (if find_received message = None \<and> message = ''start'' then 1 else 0)"
    using solvers start by (auto simp: leaving_def)
qed

text \<open>The messages of a run, each with its two node entries; one without a node is not counted, for
  the exception is caught by the loop.\<close>

fun collect_all :: "(string option \<times> string option \<times> string) list \<Rightarrow> vtree \<Rightarrow> vtree" where
  "collect_all [] vt = vt"
| "collect_all ((node', node, message) # ms) vt =
     collect_all ms (case collect node' node message vt of Inl _ \<Rightarrow> vt | Inr vt' \<Rightarrow> vt')"

definition starts :: "(string option \<times> string option \<times> string) list \<Rightarrow> nat" where
  "starts ms = length (filter (\<lambda>(node', node, message). message = ''start'' \<and> (node' \<noteq> None \<or> node \<noteq> None)) ms)"

text \<open>C39: The drawn tree loses no solver. Whatever the solvers report, the solver counts shown at the
  nodes add up to the number of solvers that have started; every other message only moves one from
  node to node.\<close>

theorem drawn_solvers_are_conserved:
  "over_rows v_solvers (vt_rows (collect_all ms vtree_new)) = int (starts ms)"
proof -
  have "over_rows v_solvers (vt_rows (collect_all ms vt)) - over_rows v_start (vt_rows (collect_all ms vt))
      = over_rows v_solvers (vt_rows vt) - over_rows v_start (vt_rows vt)
    \<and> over_rows v_start (vt_rows (collect_all ms vt)) = over_rows v_start (vt_rows vt) + int (starts ms)" for vt
  proof (induction ms vt rule: collect_all.induct)
    case (2 node' node message ms vt)
    have rec: "find_received ''start'' = None" by code_simp
    show ?case
    proof (cases "collect node' node message vt")
      case (Inl e)
      then have "node' = None \<and> node = None" by (auto simp: collect_def Let_def split: option.splits)
      with Inl 2 show ?thesis by (simp add: starts_def)
    next
      case (Inr vt')
      then have "node' \<noteq> None \<or> node \<noteq> None" by (auto simp: collect_def Let_def split: option.splits)
      with Inr 2 collect_sums [OF Inr] rec show ?thesis by (auto simp: starts_def)
    qed
  qed (simp add: starts_def)
  from this [of vtree_new] show ?thesis by (simp add: over_rows_def vtree_new_def)
qed

end
