(* ===== verification/World.thy ===== *)
theory World
  imports Config Fixedpoint VTree
begin

text \<open>
  The state of the running server: the tree nodes, the socket objects, the instances, the fields
  of \<open>ParallelizationServer\<close> and the configuration module; what the operating system contributes
  (the clock, failing \<open>send\<close>s, addresses, texts of tracebacks) is the record \<open>env\<close>, given for the
  whole run. Sets of sockets are duplicate-free lists: the order stands for the one that Python's
  \<open>set\<close> happens to iterate in.
\<close>

section \<open>Sockets\<close>

text \<open>The class of a socket object: \<open>net.Socket\<close> itself, \<open>Solver\<close> or \<open>LemmaServer\<close>. Several objects can
  share a connection (\<open>super().__init__(sock._sock)\<close>); \<open>s_open\<close> says that \<open>_sock\<close> is not \<open>None\<close>.\<close>

datatype sock_class = Plain | SolverC | LemmaC

type_synonym sid = nat
type_synonym conn = nat
type_synonym iid = nat

record sock =
  s_class :: sock_class
  s_conn :: conn
  s_open :: bool
  s_name :: string
  s_node :: "nid option"
  s_started :: "rat option"
  s_or_waiting :: "nid list"
  s_parameters :: "pyval dict"
  s_listening :: string

record inst =
  i_root :: nid
  i_started :: "rat option"
  i_timeout :: "rat option"

definition blank_sock :: sock where
  "blank_sock = \<lparr>s_class = Plain, s_conn = 0, s_open = True, s_name = [], s_node = None,
     s_started = None, s_or_waiting = [], s_parameters = [], s_listening = []\<rparr>"

definition blank_inst :: inst where
  "blank_inst = \<lparr>i_root = 0, i_started = None, i_timeout = None\<rparr>"

section \<open>The environment\<close>

text \<open>\<open>e_clock n\<close> is the result of the \<open>n\<close>-th \<open>time.time()\<close>, \<open>e_fails n\<close> says that the \<open>n\<close>-th \<open>send\<close>
  raises (one that does not, returns); \<open>e_peer\<close> and \<open>e_local\<close> are \<open>getpeername\<close> and \<open>getsockname\<close> (\<open>None\<close> when
  they raise), \<open>e_fileno\<close> is \<open>fileno\<close>, \<open>e_traceback\<close> is the text of
  \<open>traceback.format_exc()\<close>, \<open>e_show\<close> prints a float with two decimals, \<open>e_str\<close> is \<open>str\<close> of a number,
  \<open>e_eval\<close> is \<open>str(eval(\<dots>))\<close>, \<open>None\<close> when the evaluation does not end; that it leaves the server's state alone is an
  assumption on the expressions. \<open>e_view\<close> says how the external viewer fails on a file's name and text
  (\<open>None\<close> when it does not), \<open>e_exists\<close> is \<open>os.path.exists\<close>.\<close>

record env =
  e_clock :: "nat \<Rightarrow> rat"
  e_fails :: "nat \<Rightarrow> bool"
  e_peer :: "conn \<Rightarrow> (string \<times> nat) option"
  e_local :: "conn \<Rightarrow> (string \<times> nat) option"
  e_fileno :: "conn \<Rightarrow> nat"
  e_traceback :: "exc \<Rightarrow> string"
  e_show :: "rat \<Rightarrow> string"
  e_str :: "rat \<Rightarrow> string"
  e_eval :: "string \<Rightarrow> (exc + string) option"
  e_view :: "string \<Rightarrow> string \<Rightarrow> exc option"
  e_exists :: "string \<Rightarrow> bool"

text \<open>What the logger or the standard output received.\<close>

datatype log_level = DEBUG | INFO | WARNING | ERROR | CRITICAL | NOTSET

datatype out_line = Logged log_level string | Printed "string list"

section \<open>The state\<close>

record world =
  w_heap :: heap
  w_socks :: "(sid \<times> sock) list"
  w_nsock :: sid
  w_rlist :: "sid list"
  w_listen :: sid
  w_insts :: "(iid \<times> inst) list"
  w_ninst :: iid
  w_trees :: "iid dict"
  w_current :: "iid option"
  w_idle :: "sid list"
  w_total :: nat
  w_terminate :: bool
  w_counter :: int
  w_conf :: config
  w_history :: "history_row list"
  w_estimate :: "rat option"
  w_ticks :: nat
  w_sends :: nat
  w_sent :: "(conn \<times> pyval dict \<times> pyval) list"
  w_output :: "out_line list"
  w_vtree :: vtree
  w_views :: "(string \<times> string) list"
  w_env :: env

definition sock_of :: "world \<Rightarrow> sid \<Rightarrow> sock" where
  "sock_of w s = (case map_of (w_socks w) s of None \<Rightarrow> blank_sock | Some x \<Rightarrow> x)"

definition inst_of :: "world \<Rightarrow> iid \<Rightarrow> inst" where
  "inst_of w i = (case map_of (w_insts w) i of None \<Rightarrow> blank_inst | Some x \<Rightarrow> x)"

definition put_sock :: "sid \<Rightarrow> sock \<Rightarrow> world \<Rightarrow> world" where
  "put_sock s x w = w\<lparr>w_socks := AList.update s x (w_socks w)\<rparr>"

definition put_inst :: "iid \<Rightarrow> inst \<Rightarrow> world \<Rightarrow> world" where
  "put_inst i x w = w\<lparr>w_insts := AList.update i x (w_insts w)\<rparr>"

definition set_sock :: "sid \<Rightarrow> (sock \<Rightarrow> sock) \<Rightarrow> (world, unit) prog" where
  "set_sock s f = modM (\<lambda>w. put_sock s (f (sock_of w s)) w)"

definition set_inst :: "iid \<Rightarrow> (inst \<Rightarrow> inst) \<Rightarrow> (world, unit) prog" where
  "set_inst i f = modM (\<lambda>w. put_inst i (f (inst_of w i)) w)"

definition get_sock :: "sid \<Rightarrow> (world, sock) prog" where
  "get_sock s = getM (\<lambda>w. sock_of w s)"

definition get_inst :: "iid \<Rightarrow> (world, inst) prog" where
  "get_inst i = getM (\<lambda>w. inst_of w i)"

definition get_node :: "nid \<Rightarrow> (world, node) prog" where
  "get_node n = getM (\<lambda>w. cell (w_heap w) n)"

definition set_node :: "nid \<Rightarrow> (node \<Rightarrow> node) \<Rightarrow> (world, unit) prog" where
  "set_node n f = modM (\<lambda>w. w\<lparr>w_heap := upd n f (w_heap w)\<rparr>)"

definition get_conf :: "(config \<Rightarrow> 'a) \<Rightarrow> (world, 'a) prog" where
  "get_conf f = getM (\<lambda>w. f (w_conf w))"

definition set_conf :: "(config \<Rightarrow> config) \<Rightarrow> (world, unit) prog" where
  "set_conf f = modM (\<lambda>w. w\<lparr>w_conf := f (w_conf w)\<rparr>)"

text \<open>Programs on the tree and on the configuration, inside the server.\<close>

definition on_heap :: "(heap, 'a) prog \<Rightarrow> (world, 'a) prog" where
  "on_heap m w = (case m (w_heap w) of None \<Rightarrow> None | Some (r, h) \<Rightarrow> Some (r, w\<lparr>w_heap := h\<rparr>))"

definition on_conf :: "(config, 'a) prog \<Rightarrow> (world, 'a) prog" where
  "on_conf m w = (case m (w_conf w) of None \<Rightarrow> None | Some (r, c) \<Rightarrow> Some (r, w\<lparr>w_conf := c\<rparr>))"

definition read_heap :: "(heap \<Rightarrow> (exc + 'a) option) \<Rightarrow> (world, 'a) prog" where
  "read_heap f = readM (\<lambda>w. f (w_heap w))"

definition on_vtree :: "(vtree, 'a) prog \<Rightarrow> (world, 'a) prog" where
  "on_vtree m w = (case m (w_vtree w) of None \<Rightarrow> None | Some (r, v) \<Rightarrow> Some (r, w\<lparr>w_vtree := v\<rparr>))"

text \<open>\<open>time.time()\<close>, and what is printed or logged.\<close>

definition now :: "(world, rat) prog" where
  "now = bindM (getM (\<lambda>w. e_clock (w_env w) (w_ticks w)))
     (\<lambda>t. seqM (modM (\<lambda>w. w\<lparr>w_ticks := Suc (w_ticks w)\<rparr>)) (retM t))"

definition emit :: "out_line \<Rightarrow> (world, unit) prog" where
  "emit x = modM (\<lambda>w. w\<lparr>w_output := w_output w @ [x]\<rparr>)"

section \<open>Writing to a socket\<close>

text \<open>\<open>Socket.write\<close> on an object: the message is built first (\<open>Net.frame\<close>), then two \<open>send\<close>s on the
  connection. A message is recorded as sent when both went through.\<close>

definition send_once :: "(world, unit) prog" where
  "send_once = bindM (getM (\<lambda>w. e_fails (w_env w) (w_sends w))) (\<lambda>f.
     seqM (modM (\<lambda>w. w\<lparr>w_sends := Suc (w_sends w)\<rparr>)) (if f then raiseM OSError else retM ()))"

definition write_msg :: "sid \<Rightarrow> pyval dict \<Rightarrow> pyval \<Rightarrow> (world, unit) prog" where
  "write_msg s header payload = (case frame header payload of Inl e \<Rightarrow> raiseM e
     | Inr _ \<Rightarrow> bindM (get_sock s) (\<lambda>x.
         if \<not> s_open x then raiseM AttributeError
         else seqM send_once (seqM send_once
           (modM (\<lambda>w. w\<lparr>w_sent := w_sent w @ [(s_conn x, header, payload)]\<rparr>)))))"

definition close_sock :: "sid \<Rightarrow> (world, unit) prog" where
  "close_sock s = bindM (get_sock s) (\<lambda>x.
     if \<not> s_open x then raiseM AttributeError else set_sock s (\<lambda>x. x\<lparr>s_open := False\<rparr>))"

text \<open>A new socket object on the connection of another one, or on a new connection.\<close>

definition new_sock :: "sock \<Rightarrow> (world, sid) prog" where
  "new_sock x = bindM (getM w_nsock) (\<lambda>s.
     seqM (modM (\<lambda>w. put_sock s x (w\<lparr>w_nsock := Suc s\<rparr>))) (retM s))"

definition remove_sock :: "sid \<Rightarrow> (world, unit) prog" where
  "remove_sock s = bindM (getM w_rlist) (\<lambda>r.
     if s \<in> set r then modM (\<lambda>w. w\<lparr>w_rlist := remove1 s (w_rlist w)\<rparr>) else raiseM KeyError)"

definition add_sock :: "sid \<Rightarrow> (world, unit) prog" where
  "add_sock s = modM (\<lambda>w. w\<lparr>w_rlist := (if s \<in> set (w_rlist w) then w_rlist w else w_rlist w @ [s])\<rparr>)"

section \<open>How the parts of the state change\<close>

lemma sock_of_put [simp]: "sock_of (put_sock s x w) = (sock_of w)(s := x)"
  by (auto simp: sock_of_def put_sock_def update_conv fun_eq_iff)

lemma inst_of_put [simp]: "inst_of (put_inst i x w) = (inst_of w)(i := x)"
  by (auto simp: inst_of_def put_inst_def update_conv fun_eq_iff)

lemma put_sock_other [simp]:
  "w_heap (put_sock s x w) = w_heap w" "w_rlist (put_sock s x w) = w_rlist w"
  "w_insts (put_sock s x w) = w_insts w" "w_trees (put_sock s x w) = w_trees w"
  "w_current (put_sock s x w) = w_current w" "w_idle (put_sock s x w) = w_idle w"
  "w_conf (put_sock s x w) = w_conf w" "w_env (put_sock s x w) = w_env w"
  "w_sent (put_sock s x w) = w_sent w" "w_nsock (put_sock s x w) = w_nsock w"
  "w_total (put_sock s x w) = w_total w" "w_sends (put_sock s x w) = w_sends w"
  "w_ticks (put_sock s x w) = w_ticks w" "w_output (put_sock s x w) = w_output w"
  "w_terminate (put_sock s x w) = w_terminate w" "w_counter (put_sock s x w) = w_counter w"
  "w_listen (put_sock s x w) = w_listen w" "w_ninst (put_sock s x w) = w_ninst w"
  "inst_of (put_sock s x w) = inst_of w"
  by (simp_all add: put_sock_def inst_of_def fun_eq_iff)

lemma put_inst_other [simp]:
  "w_heap (put_inst i y w) = w_heap w" "w_rlist (put_inst i y w) = w_rlist w"
  "w_socks (put_inst i y w) = w_socks w" "w_trees (put_inst i y w) = w_trees w"
  "w_current (put_inst i y w) = w_current w" "w_idle (put_inst i y w) = w_idle w"
  "w_conf (put_inst i y w) = w_conf w" "w_env (put_inst i y w) = w_env w"
  "w_sent (put_inst i y w) = w_sent w" "w_nsock (put_inst i y w) = w_nsock w"
  "w_total (put_inst i y w) = w_total w" "w_sends (put_inst i y w) = w_sends w"
  "w_ticks (put_inst i y w) = w_ticks w" "w_output (put_inst i y w) = w_output w"
  "w_terminate (put_inst i y w) = w_terminate w" "w_counter (put_inst i y w) = w_counter w"
  "w_listen (put_inst i y w) = w_listen w" "w_ninst (put_inst i y w) = w_ninst w"
  "sock_of (put_inst i y w) = sock_of w"
  by (simp_all add: put_inst_def sock_of_def fun_eq_iff)

end
