(* ===== verification/Solver.thy ===== *)
theory Solver
  imports World
begin

text \<open>
  The sockets of \<open>server/schedular.py\<close>: \<open>LemmaServer\<close>, the commands that a \<open>Solver\<close> is sent (\<open>solve\<close>,
  \<open>incremental\<close>, \<open>stop\<close>, \<open>terminate\<close>, \<open>set_lemma_server\<close>, \<open>ask_partitions\<close>), its reading of a
  report (\<open>Solver.read\<close>), and \<open>Instance\<close>.
\<close>

section \<open>\<open>LemmaServer\<close>\<close>

definition init_header :: "config \<Rightarrow> pyval dict" where
  "init_header c = (if c_enableLog c then [(LOG_MODE, VInt 1)] else []) @ [(MAX_MEMORY, VInt (c_max_memory c))]"

definition lemma_init :: "sid \<Rightarrow> (world, unit) prog" where
  "lemma_init s = bindM (getM w_conf) (\<lambda>c. write_msg s (init_header c) (VStr []))"

text \<open>When the socket has been closed (a lemma server that registers again, which has just been closed as the old one), the
  constructor makes a new socket, which is not connected, and the first \<open>send\<close> on it raises.\<close>

definition lemma_server_new :: "sid \<Rightarrow> string \<Rightarrow> (world, sid) prog" where
  "lemma_server_new sock listening = bindM (get_sock sock) (\<lambda>x.
     if s_open x
     then bindM (new_sock (blank_sock\<lparr>s_class := LemmaC, s_conn := s_conn x, s_listening := listening\<rparr>))
       (\<lambda>s. seqM (lemma_init s) (retM s))
     else bindM (getM w_conf) (\<lambda>c. raiseM (case frame (init_header c) (VStr []) of Inl e \<Rightarrow> e | Inr _ \<Rightarrow> OSError)))"

definition lemma_reset :: "sid \<Rightarrow> nid \<Rightarrow> (world, unit) prog" where
  "lemma_reset s n = bindM (get_node n) (\<lambda>x. bindM (get_node (n_root x)) (\<lambda>r.
     bindM (read_heap (path n)) (\<lambda>p.
       write_msg s [(NAME, VStr (n_name r)), (NODE, VPath p), (LEMMAS, VStr ''0'')] (VStr []))))"

section \<open>\<open>Solver\<close>\<close>

definition solver_reset :: "sid \<Rightarrow> (world, unit) prog" where
  "solver_reset s = set_sock s (\<lambda>x. x\<lparr>s_node := None, s_started := None, s_or_waiting := [], s_parameters := []\<rparr>)"

definition solver_initialize :: "sid \<Rightarrow> (world, unit) prog" where
  "solver_initialize s = bindM (get_conf c_enableLog) (\<lambda>el.
     whenM el (write_msg s [(LOG_MODE, VInt 1)] (VStr [])))"

text \<open>A solver is made on the socket that its first message has just been read from, which is open.\<close>

definition solver_new :: "sid \<Rightarrow> string \<Rightarrow> (world, sid) prog" where
  "solver_new sock name = bindM (get_sock sock) (\<lambda>x.
     bindM (new_sock (blank_sock\<lparr>s_class := SolverC, s_conn := s_conn x, s_open := s_open x, s_name := name\<rparr>))
       (\<lambda>s. seqM (solver_reset s) (seqM (solver_initialize s) (retM s))))"

text \<open>\<open>__repr__\<close> of a root and of a solver.\<close>

definition kind_name :: "root_class \<Rightarrow> string" where
  "kind_name k = (case k of SMT \<Rightarrow> ''SMT'' | Fixedpoint \<Rightarrow> ''Fixedpoint'' | MCMT \<Rightarrow> ''MCMT'')"

definition root_repr :: "node \<Rightarrow> string" where
  "root_repr r = ''<'' @ kind_name (n_kind r) @ '' '' @ [CHR 0x22] @ n_name r @ [CHR 0x22] @ '':''
     @ status_name (n_status r) @ ''>''"

definition peer_repr :: "(string \<times> nat) option \<Rightarrow> string" where
  "peer_repr a = (case a of None \<Rightarrow> ''None''
     | Some (ip, port) \<Rightarrow> ''['' @ repr_str ip @ '', '' @ show_nat port @ '']'')"

text \<open>\<open>repr\<close> of a list of nodes.\<close>

definition node_repr :: "nid \<Rightarrow> (world, string) prog" where
  "node_repr n = bindM (read_heap (path n)) (\<lambda>p. bindM (get_node n) (\<lambda>y.
     retM (''<'' @ show_path p @ '':'' @ status_name (n_status y) @ ''>'')))"

definition nodes_repr :: "nid list \<Rightarrow> (world, string) prog" where
  "nodes_repr ns = bindM (mapM node_repr ns) (\<lambda>ts. retM (''['' @ join '', '' ts @ '']''))"

definition remote_address :: "sid \<Rightarrow> (world, (string \<times> nat) option) prog" where
  "remote_address s = getM (\<lambda>w. if s_open (sock_of w s) then e_peer (w_env w) (s_conn (sock_of w s)) else None)"

definition solver_repr :: "sid \<Rightarrow> (world, string) prog" where
  "solver_repr s = bindM (get_sock s) (\<lambda>x. bindM (remote_address s) (\<lambda>a.
     bindM (case s_node x of None \<Rightarrow> retM ''idle''
       | Some n \<Rightarrow> bindM (get_node n) (\<lambda>y. bindM (get_node (n_root y)) (\<lambda>r.
           bindM (read_heap (path n)) (\<lambda>p. retM (root_repr r @ show_path p)))))
     (\<lambda>st. retM (''<'' @ s_name x @ '' at'' @ peer_repr a @ '' '' @ st @ ''>''))))"

text \<open>Printing a lemma server also changes the comment of the drawn tree.\<close>

definition lemma_server_repr :: "sid \<Rightarrow> (world, string) prog" where
  "lemma_server_repr s = bindM (get_sock s) (\<lambda>x.
     seqM (modM (\<lambda>w. w\<lparr>w_vtree := (w_vtree w)\<lparr>vt_comment := ''Lemma Server ON''\<rparr>\<rparr>))
       (retM (''<LemmaServer listening:'' @ s_listening x @ ''>'')))"

definition solver_stop :: "sid \<Rightarrow> (world, unit) prog" where
  "solver_stop s = bindM (get_sock s) (\<lambda>x. case s_node x of None \<Rightarrow> raiseM ValueError
     | Some n \<Rightarrow> bindM (get_node n) (\<lambda>y. bindM (get_node (n_root y)) (\<lambda>r.
         bindM (read_heap (path n)) (\<lambda>p. seqM (solver_reset s)
           (write_msg s [(COMMAND, VStr STOP), (NAME, VStr (n_name r)), (NODE, VPath p)] (VStr []))))))"

definition solver_terminate :: "sid \<Rightarrow> (world, unit) prog" where
  "solver_terminate s = bindM (get_sock s) (\<lambda>x. case s_node x of None \<Rightarrow> raiseM ValueError
     | Some n \<Rightarrow> bindM (get_node n) (\<lambda>y. bindM (get_node (n_root y)) (\<lambda>r.
         bindM (read_heap (path n)) (\<lambda>p.
           write_msg s [(COMMAND, VStr TERMINATE), (NAME, VStr (n_name r)), (NODE, VPath p)] (VStr [])))))"

text \<open>\<open>self.started = time.time()\<close>, and the node's start when it has none.\<close>

definition node_start :: "nid \<Rightarrow> (world, unit) prog" where
  "node_start n = bindM (get_node n) (\<lambda>y.
     whenM (n_started y = None) (bindM now (\<lambda>t. set_node n (\<lambda>z. z\<lparr>n_started := Some t\<rparr>))))"

definition solver_solve :: "sid \<Rightarrow> nid \<Rightarrow> pyval dict \<Rightarrow> (world, unit) prog" where
  "solver_solve s n parameters = bindM (get_sock s) (\<lambda>x.
     seqM (whenM (s_node x \<noteq> None) (solver_stop s))
     (seqM (set_sock s (\<lambda>x. x\<lparr>s_node := Some n, s_parameters := parameters\<rparr>))
     (bindM (get_node n) (\<lambda>y. bindM (get_node (n_root y)) (\<lambda>r.
      bindM (read_heap (to_string (n_root y) n None)) (\<lambda>(smt, query).
      bindM (read_heap (path n)) (\<lambda>p. bindM (get_conf c_max_memory) (\<lambda>mem.
        let header = dict_update parameters
              [(COMMAND, VStr SOLVE), (NAME, VStr (n_name r)), (NODE, VPath p), (QUERY, VStr query)]
        in seqM (write_msg s (dict_set MAX_MEMORY (VInt mem) header) (VStr smt))
           (bindM now (\<lambda>t. seqM (set_sock s (\<lambda>x. x\<lparr>s_started := Some t\<rparr>)) (node_start n)))))))))))"

definition solver_incremental :: "sid \<Rightarrow> nid \<Rightarrow> (world, unit) prog" where
  "solver_incremental s n = bindM (get_sock s) (\<lambda>x. case s_node x of None \<Rightarrow> raiseM AttributeError
     | Some a \<Rightarrow> bindM (get_node a) (\<lambda>y. bindM (get_node (n_root y)) (\<lambda>r.
         bindM (read_heap (to_string (n_root y) n (Some a))) (\<lambda>(smt, query).
         bindM (read_heap (path a)) (\<lambda>pa. bindM (read_heap (path n)) (\<lambda>pn.
           seqM (write_msg s [(COMMAND, VStr INCREMENTAL), (NAME, VStr (n_name r)), (NODE, VPath pa),
                   (NODE', VPath pn), (QUERY, VStr query)] (VStr smt))
           (seqM (set_sock s (\<lambda>x. x\<lparr>s_or_waiting := []\<rparr>))
           (bindM now (\<lambda>t. seqM (set_sock s (\<lambda>x. x\<lparr>s_started := Some t\<rparr>))
             (seqM (node_start n) (set_sock s (\<lambda>x. x\<lparr>s_node := Some n\<rparr>))))))))))))"

definition set_lemma_server :: "sid \<Rightarrow> sid option \<Rightarrow> (world, unit) prog" where
  "set_lemma_server s ls = bindM (getM w_conf) (\<lambda>c.
     bindM (case ls of None \<Rightarrow> retM [] | Some l \<Rightarrow> bindM (get_sock l) (\<lambda>x. retM (s_listening x))) (\<lambda>listening.
       write_msg s [(COMMAND, VStr LEMMAS),
          (LEMMA_AMOUNT, case c_lemma_amount c of None \<Rightarrow> VStr ''1000''
             | Some k \<Rightarrow> (if k = 0 then VStr ''1000'' else VInt k)),
          (LEMMAS, VStr listening),
          (LEMMA_PUSH_MIN, VInt (c_lemmaPush_timeoutMin c)), (LEMMA_PULL_MIN, VInt (c_lemmaPull_timeoutMin c)),
          (LEMMA_PUSH_MAX, VInt (c_lemmaPush_timeoutMax c)), (LEMMA_PULL_MAX, VInt (c_lemmaPull_timeoutMax c))]
         (VStr [])))"

text \<open>\<open>if not node\<close> is also true of a given \<open>OrNode\<close> without children.\<close>

definition ask_partitions :: "sid \<Rightarrow> int \<Rightarrow> nid option \<Rightarrow> (world, unit) prog" where
  "ask_partitions s k node =
     seqM (set_conf (\<lambda>c. c\<lparr>c_partition_count := c_partition_count c + k\<rparr>))
     (bindM (get_sock s) (\<lambda>x. case s_node x of None \<Rightarrow> raiseM ValueError
      | Some n \<Rightarrow> bindM (get_node n) (\<lambda>y. bindM (get_node (n_root y)) (\<lambda>r.
         bindM (read_heap (path n)) (\<lambda>p.
         seqM (write_msg s [(COMMAND, VStr PARTITION), (NAME, VStr (n_name r)), (NODE, VPath p),
                 (QUERY, VStr CHECK_SAT), (PARTITIONS, VInt k)] (VStr []))
         (seqM (whenM (n_parent y = None \<and> n_kind y = SMT) (bindM now (\<lambda>t. modM (\<lambda>w. w\<lparr>w_estimate := Some t\<rparr>))))
         (bindM (getM (\<lambda>w. case node of None \<Rightarrow> False | Some d \<Rightarrow> n_children (cell (w_heap w) d) \<noteq> []))
            (\<lambda>given.
         bindM (case node of Some d \<Rightarrow> (if given then retM d else on_heap (or_node (Some n) []))
                | None \<Rightarrow> on_heap (or_node (Some n) [])) (\<lambda>d.
         seqM (set_node n (\<lambda>z. z\<lparr>n_partitioning := True\<rparr>))
           (set_sock s (\<lambda>x. x\<lparr>s_or_waiting := s_or_waiting x @ [d]\<rparr>)))))))))))"

section \<open>\<open>Solver.read\<close>\<close>

text \<open>A header as the handlers see it: texts, and the node under \<open>partition_recieved\<close>.\<close>

datatype hval = HStr string | HNode nid

definition RECEIVED :: string where "RECEIVED = ''partition_recieved''"

text \<open>\<open>config.debug\<close>: a report of partitions for another node of the tree raises, one way or the other
  (a \<open>dict\<close> is concatenated to a text, or \<open>framework.SolverStatus\<close> does not exist).\<close>

definition debug_check :: "nid \<Rightarrow> string \<Rightarrow> string \<Rightarrow> (world, unit) prog" where
  "debug_check n reported report = bindM (read_heap (path n)) (\<lambda>p.
     whenM (show_path p \<noteq> reported \<and> report = PARTITIONS)
       (bindM (get_node n) (\<lambda>y. bindM (read_heap (all_nodes (n_root y))) (\<lambda>ns.
          forM (\<lambda>m. bindM (read_heap (path m)) (\<lambda>q.
            whenM (show_path q = reported) (bindM (get_node m) (\<lambda>z.
              raiseM (if n_status z = Unknown then TypeError else AttributeError))))) ns))))"

text \<open>The partitions in a payload: the non-empty pieces between zero bytes.\<close>

definition partitions_of :: "string \<Rightarrow> string list" where
  "partitions_of s = filter (\<lambda>p. p \<noteq> []) (split_on (CHR 0x00) s)"

definition assertion :: "string \<Rightarrow> string" where
  "assertion p = ''(assert '' @ p @ '')''"

text \<open>The branch for a report of partitions, with the \<open>OrNode\<close> \<open>d\<close> that waits for them.\<close>

definition read_partitions :: "nid \<Rightarrow> hval dict \<Rightarrow> bytes \<Rightarrow> (world, hval dict) prog" where
  "read_partitions d header payload =
     bindM (tryM any_exc
       (case decode payload of Inl e \<Rightarrow> raiseM e
        | Inr text' \<Rightarrow> seqM (forM (\<lambda>p. bindM (on_heap (and_node (Some d) (assertion p))) (\<lambda>_. retM ()))
              (partitions_of text')) (retM None))
       (\<lambda>e. retM (Some e)))
     (\<lambda>failed. case failed of
        Some e \<Rightarrow> bindM (getM (\<lambda>w. e_traceback (w_env w) e)) (\<lambda>tb.
          seqM (on_heap (clear d))
            (retM (dict_set REPORT (HStr (''error:(server) error reading partitions: '' @ tb)) header)))
      | None \<Rightarrow> bindM (get_node d) (\<lambda>x. case n_parent x of None \<Rightarrow> raiseM AttributeError
        | Some p \<Rightarrow>
          (let header1 = dict_set RECEIVED (HNode p) header;
               header2 = dict_set REPORT (HStr (''info:(server) received ''
                 @ show_nat (length (n_children x)) @ '' partitions'')) header1
           in bindM (get_node p) (\<lambda>y. seqM (whenM (n_status y \<noteq> Unknown) (on_heap (clear d)))
              (bindM (get_node d) (\<lambda>x'. bindM (get_conf c_partition_policy) (\<lambda>pol.
                 if length pol \<le> 1 then raiseM IndexError
                 else seqM (whenM (int (length (n_children x')) \<noteq> pol ! 1)
                     (set_conf (\<lambda>c. c\<lparr>c_partition_count :=
                        c_partition_count c - pol ! 1 + int (length (n_children x'))\<rparr>)))
                   (retM header2))))))))"

text \<open>The branch for a status: an \<open>unsat\<close> node has its open descendants closed.\<close>

definition close_below :: "nid \<Rightarrow> (world, unit) prog" where
  "close_below n = bindM (read_heap (all_nodes n)) (forM (\<lambda>m. bindM (get_node m) (\<lambda>y.
     whenM (n_status y = Unknown \<and> n_class y = AndNode) (on_heap (set_status m Unsat)))))"

definition read_status :: "sid \<Rightarrow> nid \<Rightarrow> solve_status \<Rightarrow> (world, unit) prog" where
  "read_status s n st =
     seqM (set_sock s (\<lambda>x. x\<lparr>s_or_waiting := butlast (s_or_waiting x)\<rparr>))
     (bindM (read_heap (path_nodes n)) (\<lambda>_.
      seqM (on_heap (set_status n st)) (whenM (st = Unsat) (close_below n))))"

text \<open>What \<open>Solver.read\<close> makes of the header and payload that \<open>Socket.read\<close> delivers.\<close>

definition solver_read :: "sid \<Rightarrow> string dict \<Rightarrow> bytes \<Rightarrow> (world, hval dict \<times> bytes) prog" where
  "solver_read s fs payload = (let header = map (\<lambda>(k, v). (k, HStr v)) fs in
     case map_of fs REPORT of None \<Rightarrow> retM ([], [])
     | Some report \<Rightarrow> bindM (get_sock s) (\<lambda>x. case s_node x of None \<Rightarrow> retM (header, payload)
       | Some n \<Rightarrow>
         (case (map_of fs NAME, map_of fs NODE) of
            (Some name, Some node) \<Rightarrow>
              bindM (get_conf c_debug) (\<lambda>db. seqM (whenM db (debug_check n node report))
              (bindM (get_node n) (\<lambda>y. bindM (get_node (n_root y)) (\<lambda>r.
               bindM (if n_name r \<noteq> name then retM False
                      else bindM (read_heap (path n)) (\<lambda>p. retM (show_path p = node))) (\<lambda>same.
               if \<not> same then retM ([], [])
               else let header1 = dict_del NAME header in
                 if report = PARTITIONS \<and> s_or_waiting x \<noteq> []
                 then seqM (set_sock s (\<lambda>z. z\<lparr>s_or_waiting := butlast (s_or_waiting z)\<rparr>))
                   (bindM (read_partitions (last (s_or_waiting x)) header1 payload)
                     (\<lambda>header2. retM (header2, payload)))
                 else case status_of_name report of
                     Some st \<Rightarrow> seqM (read_status s n st) (retM (header1, payload))
                   | None \<Rightarrow> retM (header1, payload))))))
          | _ \<Rightarrow> retM (header, payload))))"

section \<open>\<open>Instance\<close>\<close>

definition instance_new :: "string \<Rightarrow> string \<Rightarrow> (world, iid) prog" where
  "instance_new name smt = bindM (on_heap (parse name smt)) (\<lambda>r. bindM (getM w_ninst) (\<lambda>i.
     seqM (modM (\<lambda>w. put_inst i (blank_inst\<lparr>i_root := r\<rparr>) (w\<lparr>w_ninst := Suc i\<rparr>))) (retM i)))"

text \<open>\<open>when_timeout\<close>; \<open>None\<close> is infinity. A start at time zero is false.\<close>

definition when_timeout :: "iid \<Rightarrow> (world, rat option) prog" where
  "when_timeout i = bindM (get_inst i) (\<lambda>x. case (i_started x, i_timeout x) of
       (Some st, Some tm) \<Rightarrow> (if st \<noteq> 0 then bindM now (\<lambda>t. retM (Some (st + tm - t))) else retM None)
     | _ \<Rightarrow> retM None)"

end
