(* ===== verification/Scheduler.thy ===== *)
theory Scheduler
  imports Solver
begin

text \<open>
  \<open>ParallelizationServer\<close> of \<open>server/schedular.py\<close>: the sets of solvers, \<open>partition\<close>, and \<open>entrust\<close>
  block by block (closing the current instance, starting the next one, giving work to solvers that
  have just joined, and moving solvers in the tree).
\<close>

section \<open>The log\<close>

definition log_msg :: "log_level \<Rightarrow> string \<Rightarrow> string option \<Rightarrow> string option \<Rightarrow> (world, unit) prog" where
  "log_msg lvl message data tm = bindM (get_conf c_enableLog) (\<lambda>el.
     if el then emit (Logged lvl message)
     else emit (Printed (case_option [] (\<lambda>d. [d]) data @ [message] @ case_option [] (\<lambda>t. [t]) tm)))"

section \<open>Sets of solvers\<close>

datatype which = AllSolvers | BusySolvers | SolversAt "nid option"

definition solver_at :: "which \<Rightarrow> world \<Rightarrow> sid \<Rightarrow> bool" where
  "solver_at k w s = (s_class (sock_of w s) = SolverC \<and> (case k of
       AllSolvers \<Rightarrow> True
     | BusySolvers \<Rightarrow> s_node (sock_of w s) \<noteq> None
     | SolversAt n \<Rightarrow> s_node (sock_of w s) = n))"

definition solvers :: "which \<Rightarrow> (world, sid list) prog" where
  "solvers k = getM (\<lambda>w. filter (solver_at k w) (w_rlist w))"

definition newly_joint_solver :: "(world, sid list) prog" where
  "newly_joint_solver = getM (\<lambda>w. filter (\<lambda>s. s_class (sock_of w s) = SolverC
     \<and> s_node (sock_of w s) = None \<and> s_started (sock_of w s) = None) (w_rlist w))"

definition lemma_server :: "(world, sid option) prog" where
  "lemma_server = getM (\<lambda>w. case filter (\<lambda>s. s_class (sock_of w s) = LemmaC) (w_rlist w) of
     [] \<Rightarrow> None | s # _ \<Rightarrow> Some s)"

section \<open>\<open>partition\<close>\<close>

definition level_children :: "nat \<Rightarrow> config \<Rightarrow> exc + int" where
  "level_children l c = (let pol = c_partition_policy c in
     if pol = [] then Inl ZeroDivisionError else Inr (pol ! (l mod length pol)))"

definition get_level_children :: "nat \<Rightarrow> (world, int) prog" where
  "get_level_children l = readM (\<lambda>w. Some (level_children l (w_conf w)))"

definition partition_node :: "nid \<Rightarrow> bool \<Rightarrow> (world, bool) prog" where
  "partition_node n force = bindM (read_heap (level n)) (\<lambda>l. bindM (get_level_children l) (\<lambda>max_children.
     bindM (get_node n) (\<lambda>y.
     firstM (\<lambda>_. bindM (solvers (SolversAt (Some n))) (firstM (\<lambda>s.
         bindM (if force then retM True
                else bindM (get_sock s) (\<lambda>x. bindM (get_conf c_partition_timeout) (\<lambda>pt.
                  case (s_started x, pt) of
                    (Some st, Some tm) \<Rightarrow> bindM now (\<lambda>t. retM (st + tm \<le> t))
                  | _ \<Rightarrow> raiseM TypeError)))
         (\<lambda>due. if due
            then bindM (read_heap (level n)) (\<lambda>l. bindM (get_level_children (Suc l)) (\<lambda>k.
                   seqM (ask_partitions s k None) (retM True)))
            else retM False))))
       [0 ..< nat (max_children - int (length (n_children y)))])))"

section \<open>Giving an instance to a solver\<close>

definition entrust_config :: "pyval dict \<Rightarrow> sid \<Rightarrow> nid \<Rightarrow> (world, pyval dict) prog" where
  "entrust_config params s rt = bindM (solvers (SolversAt (Some rt))) (\<lambda>ss.
     bindM (get_sock s) (\<lambda>x. on_conf (config_entrust params (s_name x) (length ss))))"

definition start_solver :: "iid \<Rightarrow> sid \<Rightarrow> (world, unit) prog" where
  "start_solver i s = bindM (get_inst i) (\<lambda>x.
     bindM (entrust_config [] s (i_root x)) (\<lambda>params.
     seqM (modM (\<lambda>w. w\<lparr>w_counter := w_counter w + 1\<rparr>))
     (bindM (getM w_counter) (\<lambda>k.
      seqM (solver_solve s (i_root x) (dict_set ''parameter.seed'' (VInt k) params))
      (bindM (get_inst i) (\<lambda>x'. whenM (i_started x' = None)
         (bindM now (\<lambda>t. set_inst i (\<lambda>z. z\<lparr>i_started := Some t\<rparr>)))))))))"

section \<open>Closing the current instance\<close>

text \<open>\<open>self.current.root.status != unknown or self.current.when_timeout < 0\<close>\<close>

definition inst_over :: "iid \<Rightarrow> (world, bool) prog" where
  "inst_over i = bindM (get_inst i) (\<lambda>x. bindM (get_node (i_root x)) (\<lambda>r.
     if n_status r \<noteq> Unknown then retM True
     else bindM (when_timeout i) (\<lambda>t. retM (case t of None \<Rightarrow> False | Some d \<Rightarrow> d < 0))))"

text \<open>An instance whose partitions are all solved without an answer is stuck: the solvers are told
  to terminate, once. \<open>True\<close> is the early \<open>return\<close>.\<close>

definition report_stuck :: "nid \<Rightarrow> (world, bool) prog" where
  "report_stuck rt = bindM (get_node rt) (\<lambda>r.
     if \<not> n_partitioning r then retM False
     else bindM (read_heap (childeren rt)) (\<lambda>cs. bindM (getM w_terminate) (\<lambda>tm.
       if cs = [] \<and> \<not> tm
       then seqM (emit (Printed ['';error,stuck'', n_name r]))
         (bindM (solvers AllSolvers) (\<lambda>ss. seqM (forM solver_terminate ss)
           (seqM (modM (\<lambda>w. w\<lparr>w_terminate := True\<rparr>)) (retM True))))
       else retM False)))"

text \<open>The result is printed and the instance dropped, or logged and kept.\<close>

definition report_result :: "iid \<Rightarrow> (world, unit) prog" where
  "report_result i = bindM (get_inst i) (\<lambda>x. bindM (get_node (i_root x)) (\<lambda>r. bindM now (\<lambda>t.
     case i_started x of None \<Rightarrow> raiseM TypeError
     | Some st \<Rightarrow> bindM (getM w_conf) (\<lambda>c. bindM (getM w_env) (\<lambda>e.
         let runtime = of_int (py_round (100 * (t - st))) / 100 in
         if \<not> c_enableLog c
         then seqM (log_msg INFO (status_name (n_status r))
                (if c_printFilename c then Some (n_name r) else None)
                (if c_printRuntime c then Some (e_str e runtime) else None))
              (bindM (getM w_trees) (\<lambda>d. if has_key (n_name r) d
                 then modM (\<lambda>w. w\<lparr>w_trees := dict_del (n_name r) (w_trees w)\<rparr>) else raiseM KeyError))
         else log_msg INFO ((if n_status r \<noteq> Unknown then ''solved'' else ''timeout'') @ '' instance ''
                @ [CHR 0x22] @ n_name r @ [CHR 0x22] @ '' after '' @ e_show e runtime @ '' seconds'')
              None None)))))"

text \<open>The solvers of the tree: \<open>solver.node.root\<close> for all solvers, idle ones raise.\<close>

definition solvers_in :: "nid \<Rightarrow> (world, sid list) prog" where
  "solvers_in rt = bindM (solvers AllSolvers) (filterM (\<lambda>s. bindM (get_sock s) (\<lambda>x.
     case s_node x of None \<Rightarrow> raiseM AttributeError
     | Some n \<Rightarrow> bindM (get_node n) (\<lambda>y. retM (n_root y = rt)))))"

text \<open>The drawn tree (\<open>config.visualize_tree\<close>): \<open>time.time() - self.current.started\<close> is computed first. Once
  the instance is over the data are reset, the file is removed and the drawing cleared.\<close>

definition num_or_none :: "env \<Rightarrow> rat option \<Rightarrow> string" where
  "num_or_none e x = (case x of None \<Rightarrow> ''None'' | Some q \<Rightarrow> e_str e q)"

definition render_vtree :: "(world, unit) prog" where
  "render_vtree = bindM now (\<lambda>t. bindM (getM w_current) (\<lambda>cur. case cur of None \<Rightarrow> raiseM AttributeError
     | Some i \<Rightarrow> bindM (get_inst i) (\<lambda>x. case i_started x of None \<Rightarrow> raiseM TypeError
     | Some st \<Rightarrow> bindM (get_node (i_root x)) (\<lambda>r. bindM (solvers AllSolvers) (\<lambda>ss. bindM (getM id) (\<lambda>w.
         let c = w_conf w; e = w_env w in
         seqM (on_vtree (render (n_name r) (heading (length ss) (show_int (c_portfolio_min c))
             (num_or_none e (c_node_timeout c)) (''['' @ join '', '' (map show_int (c_partition_policy c)) @ '']'')
             (show_int (py_round (t - st))) (num_or_none e (c_partition_timeout c)))))
         (bindM (getM w_vtree) (\<lambda>vt. case dot_source (vt_dot vt) of Inl ex \<Rightarrow> raiseM ex
           | Inr src \<Rightarrow> (case e_view e (vt_filename vt) src of Some ex \<Rightarrow> raiseM ex
               | None \<Rightarrow> modM (\<lambda>w. w\<lparr>w_views := w_views w @ [(vt_filename vt, src)]\<rparr>))))))))))"

definition finish_vtree :: "(world, unit) prog" where
  "finish_vtree = seqM render_vtree
     (seqM (modM (\<lambda>w. w\<lparr>w_vtree := vtree_reset (w_vtree w)\<rparr>))
     (bindM (getM (\<lambda>w. e_exists (w_env w) (vt_filename (w_vtree w)))) (\<lambda>ex.
      seqM (whenM (\<not> ex) (emit (Printed [''The file does not exist''])))
        (modM (\<lambda>w. w\<lparr>w_vtree := (w_vtree w)\<lparr>vt_dot := dot_clear False (vt_dot (w_vtree w))\<rparr>\<rparr>)))))"

definition finish_current :: "iid \<Rightarrow> (world, bool) prog" where
  "finish_current i = bindM (get_inst i) (\<lambda>x. bindM (get_node (i_root x)) (\<lambda>r.
     bindM (get_conf c_visualize_tree) (\<lambda>vis. seqM (whenM vis finish_vtree)
     (bindM (if n_status r = Unknown
            then bindM (report_stuck (i_root x)) (\<lambda>stuck.
              if stuck then retM True
              else bindM (get_conf c_spit_preference) (\<lambda>sp. if sp then raiseM AttributeError else retM False))
            else retM False)
     (\<lambda>stuck. if stuck then retM True
      else seqM (report_result i)
        (bindM (solvers_in (i_root x)) (\<lambda>ss. seqM (forM solver_stop ss)
        (bindM lemma_server (\<lambda>l. seqM (case l of None \<Rightarrow> retM () | Some ls \<Rightarrow> lemma_reset ls (i_root x))
        (seqM (modM (\<lambda>w. w\<lparr>w_current := None, w_idle := []\<rparr>)) (retM False)))))))))))"

section \<open>Starting the next instance\<close>

definition schedulable :: "iid \<Rightarrow> (world, bool) prog" where
  "schedulable i = bindM (get_inst i) (\<lambda>x. bindM (get_node (i_root x)) (\<lambda>r.
     if n_status r \<noteq> Unknown then retM False
     else bindM (when_timeout i) (\<lambda>t. retM (case t of None \<Rightarrow> True | Some d \<Rightarrow> 0 < d))))"

text \<open>\<open>True\<close> when an instance was started, which ends \<open>entrust\<close>.\<close>

definition start_next :: "(world, bool) prog" where
  "start_next = bindM (getM w_trees) (\<lambda>d. bindM (filterM schedulable (map snd d)) (\<lambda>ready.
     case ready of [] \<Rightarrow> retM False
     | i # _ \<Rightarrow>
         seqM (modM (\<lambda>w. w\<lparr>w_current := Some i\<rparr>))
         (bindM (get_inst i) (\<lambda>x. bindM (get_node (i_root x)) (\<lambda>r. bindM (get_conf c_enableLog) (\<lambda>el.
          seqM (whenM el (log_msg INFO (''solving instance '' @ [CHR 0x22] @ n_name r @ [CHR 0x22]) None None))
          (bindM (solvers AllSolvers) (\<lambda>all'.
           seqM (modM (\<lambda>w. w\<lparr>w_total := length all'\<rparr>))
           (bindM (solvers (SolversAt None)) (\<lambda>idle.
            seqM (forM (\<lambda>s. seqM (start_solver i s) (set_conf (\<lambda>c. c\<lparr>c_partition_count := 0\<rparr>))) idle)
              (retM True)))))))))))"

definition join_solvers :: "iid \<Rightarrow> (world, unit) prog" where
  "join_solvers i = bindM newly_joint_solver (forM (\<lambda>s.
     seqM (modM (\<lambda>w. w\<lparr>w_total := Suc (w_total w)\<rparr>)) (start_solver i s)))"

text \<open>\<open>close\<close> of \<open>net.Server\<close>: every socket is popped and closed.\<close>

definition server_close :: "(world, unit) prog" where
  "server_close = bindM (getM w_rlist) (\<lambda>r0. bindM (whileM (\<lambda>r. r \<noteq> []) (\<lambda>r.
       seqM (modM (\<lambda>w. w\<lparr>w_rlist := tl r\<rparr>)) (seqM (close_sock (hd r)) (getM w_rlist))) r0)
     (\<lambda>_. retM ()))"

text \<open>Without a current instance: quit when no client is connected, if configured so.\<close>

definition all_done :: "bool \<Rightarrow> (world, unit) prog" where
  "all_done was_solving = whenM was_solving (bindM (getM w_conf) (\<lambda>c.
     seqM (whenM (c_enableLog c) (log_msg INFO ''all done.'' None None))
       (whenM (c_idle_quit c) (bindM (getM id) (\<lambda>w.
          if list_ex (\<lambda>s. s_class (sock_of w s) = Plain \<and> s \<noteq> w_listen w) (w_rlist w) then retM ()
          else seqM server_close (raiseM SystemExit))))))"

section \<open>Moving solvers in the tree\<close>

text \<open>Local variables of the pass over the nodes: \<open>solved_solvers\<close>, \<open>to_partition_node\<close> and
  \<open>solver_partition\<close>.\<close>

record locals =
  l_solved :: "sid list"
  l_target :: "nid option"
  l_solver_partition :: bool

definition count_down :: "(world, unit) prog" where
  "count_down = set_conf (\<lambda>c. c\<lparr>c_partition_count := c_partition_count c - 1\<rparr>)"

text \<open>The solvers at a solved node are freed: idle ones leave the list, for the others a partition
  is counted off.\<close>

definition free_solvers :: "nid \<Rightarrow> sid list \<Rightarrow> (world, sid list) prog" where
  "free_solvers n solved = bindM (solvers (SolversAt (Some n))) (\<lambda>ss. foldM (\<lambda>s acc.
     bindM (getM w_idle) (\<lambda>idle.
       seqM (if s \<in> set idle then modM (\<lambda>w. w\<lparr>w_idle := remove1 s (w_idle w)\<rparr>) else count_down)
         (retM (List.insert s acc)))) ss solved)"

text \<open>The solvers at a node that has run out of its time become idle.\<close>

definition idle_solvers :: "nid \<Rightarrow> bool \<Rightarrow> (world, unit) prog" where
  "idle_solvers n count = bindM (solvers (SolversAt (Some n))) (forM (\<lambda>s. bindM (getM w_idle) (\<lambda>idle.
     whenM (s \<notin> set idle) (seqM (modM (\<lambda>w. w\<lparr>w_idle := w_idle w @ [s]\<rparr>)) (whenM count count_down)))))"

definition truthy :: "rat option \<Rightarrow> bool" where
  "truthy x = (case x of None \<Rightarrow> False | Some t \<Rightarrow> t \<noteq> 0)"

text \<open>A solved node, and the node that its split belongs to.\<close>

definition visit_unsat :: "nid \<Rightarrow> sid list \<Rightarrow> (world, sid list) prog" where
  "visit_unsat n solved = bindM (get_node n) (\<lambda>y.
     bindM (case n_parent y of None \<Rightarrow> retM solved
       | Some d \<Rightarrow> bindM (get_node d) (\<lambda>z.
           if n_children z = [] then retM solved
           else case n_parent z of None \<Rightarrow> raiseM AttributeError
             | Some g \<Rightarrow> bindM (get_node g) (\<lambda>u.
                 if n_status u = Unknown
                 then bindM (free_solvers g solved) (\<lambda>acc.
                        seqM (set_node g (\<lambda>v. v\<lparr>n_processed := True\<rparr>)) (retM acc))
                 else retM solved)))
     (\<lambda>acc. seqM (set_node n (\<lambda>v. v\<lparr>n_processed := True\<rparr>)) (free_solvers n acc)))"

definition visit_timeout :: "nid \<Rightarrow> (world, unit) prog" where
  "visit_timeout n = bindM (get_node n) (\<lambda>y.
     bindM (if \<not> n_partitioning y then retM False
            else case n_children y of [] \<Rightarrow> raiseM IndexError
              | d # _ \<Rightarrow> bindM (get_node d) (\<lambda>z. retM (n_children z \<noteq> [])))
     (\<lambda>split. if split
        then seqM (idle_solvers n (\<not> n_assumed_timout y))
               (set_node n (\<lambda>v. v\<lparr>n_processed := True, n_is_timeout := True\<rparr>))
        else whenM (\<not> n_assumed_timout y)
               (seqM (idle_solvers n True) (set_node n (\<lambda>v. v\<lparr>n_assumed_timout := True\<rparr>)))))"

text \<open>\<open>node_timeout\<close> is chosen when the first leaf has a solver of its own.\<close>

definition choose_timeout :: "iid \<Rightarrow> nid \<Rightarrow> (world, unit) prog" where
  "choose_timeout i n = bindM (get_conf c_node_timeout) (\<lambda>nt. bindM (get_node n) (\<lambda>y.
     bindM (solvers (SolversAt (Some n))) (\<lambda>ss.
     whenM (\<not> truthy nt \<and> n_children y = [] \<and> length ss = 1)
       (bindM (get_inst i) (\<lambda>x. bindM now (\<lambda>t. bindM (get_node (i_root x)) (\<lambda>r.
          case n_started r of None \<Rightarrow> raiseM TypeError
          | Some st \<Rightarrow>
             (if py_round (t - st) < 60 then set_conf (\<lambda>c. c\<lparr>c_node_timeout := Some 60\<rparr>)
              else bindM now (\<lambda>t'. set_conf (\<lambda>c. c\<lparr>c_node_timeout := Some (of_int (py_round (t' - st + 5)))\<rparr>))))))))))"

definition node_overdue :: "nid \<Rightarrow> (world, bool) prog" where
  "node_overdue n = bindM (get_conf c_node_timeout) (\<lambda>nt. bindM (get_node n) (\<lambda>y.
     case (nt, n_started y) of
       (Some tm, Some st) \<Rightarrow> (if tm \<noteq> 0 \<and> st \<noteq> 0 then bindM now (\<lambda>t. retM (st + tm \<le> t)) else retM False)
     | _ \<Rightarrow> retM False))"

definition visit_node :: "iid \<Rightarrow> nid \<Rightarrow> locals \<Rightarrow> (world, locals) prog" where
  "visit_node i n l = bindM (get_node n) (\<lambda>y.
     if n_class y \<noteq> AndNode \<or> n_processed y then retM l
     else seqM (assertM (n_status y \<noteq> Sat))
       (bindM (if n_status y = Unsat
               then bindM (visit_unsat n (l_solved l)) (\<lambda>acc. retM (l\<lparr>l_solved := acc\<rparr>))
               else bindM (node_overdue n) (\<lambda>late.
                 seqM (if late then visit_timeout n else choose_timeout i n) (retM l)))
       (\<lambda>l1. bindM (get_node n) (\<lambda>z.
          if n_partitioning z \<or> n_processed z \<or> n_children z \<noteq> [] \<or> l_target l1 \<noteq> None then retM l1
          else bindM (solvers (SolversAt (Some n))) (\<lambda>ss.
            retM (l1\<lparr>l_target := Some n,
              l_solver_partition := (l_solver_partition l1 \<or> (ss = [] \<and> n_assumed_timout z))\<rparr>))))))"

text \<open>Solvers of solved nodes go to the open nodes below the unsolved partitions of the root, those
  with the fewest solvers first, one per partition and round.\<close>

definition active_nodes :: "nid \<Rightarrow> (world, nid list) prog" where
  "active_nodes c = bindM (read_heap (all_nodes c)) (filterM (\<lambda>m. bindM (get_node m) (\<lambda>y.
     retM (n_status y = Unknown \<and> n_class y = AndNode \<and> \<not> n_processed y))))"

definition by_load :: "nid list \<Rightarrow> (world, nid list) prog" where
  "by_load ns = bindM (mapM (\<lambda>m. bindM (solvers (SolversAt (Some m))) (\<lambda>ss. retM (length ss, m))) ns)
     (\<lambda>ps. retM (map snd (sort_key fst ps)))"

definition place_at :: "nid \<Rightarrow> sid list \<Rightarrow> (world, sid list) prog" where
  "place_at c solved = bindM (active_nodes c) (\<lambda>ns. bindM (by_load ns) (\<lambda>ms.
     case (ms, solved) of (m # _, s # rest) \<Rightarrow> seqM (solver_incremental s m) (retM rest)
     | _ \<Rightarrow> retM solved))"

definition place_solved :: "iid \<Rightarrow> sid list \<Rightarrow> (world, unit) prog" where
  "place_solved i solved = whenM (solved \<noteq> []) (bindM (get_inst i) (\<lambda>x.
     bindM (read_heap (childeren (i_root x))) (\<lambda>childs.
     bindM (whileM (\<lambda>acc. acc \<noteq> []) (foldM place_at childs) solved) (\<lambda>_. retM ()))))"

text \<open>When partitions of \<open>p_node\<close> have arrived, solvers move into them.\<close>

definition movable_at :: "nid \<Rightarrow> sid list \<Rightarrow> (world, sid list) prog" where
  "movable_at m movable = bindM (solvers (SolversAt (Some m))) (\<lambda>ss. bindM (get_conf c_portfolio_min) (\<lambda>pm.
     bindM (getM w_idle) (\<lambda>idle. retM (snd (foldl (\<lambda>(counter, mv) s.
        if 0 \<le> pm \<and> pm < counter \<and> s \<notin> set idle then (counter - 1, mv @ [s]) else (counter, mv))
        (int (length ss), movable) ss)))))"

definition movable_solvers :: "hval \<Rightarrow> (world, sid list) prog" where
  "movable_solvers p = bindM (get_conf c_portfolio_min) (\<lambda>pm.
     if pm \<noteq> 0
     then (case p of HStr _ \<Rightarrow> raiseM AttributeError
       | HNode n \<Rightarrow> bindM (read_heap (path_to_node n)) (\<lambda>ns. foldM movable_at ns []))
     else solvers BusySolvers)"

definition move_into :: "hval \<Rightarrow> sid list \<Rightarrow> (world, sid list) prog" where
  "move_into p movable = (case p of HStr _ \<Rightarrow> raiseM AttributeError
     | HNode n \<Rightarrow> bindM (read_heap (childeren n)) (\<lambda>cs.
         foldM (\<lambda>c mv. case mv of [] \<Rightarrow> retM [] | s # rest \<Rightarrow> seqM (solver_incremental s c) (retM rest)) cs movable))"

definition place_movable :: "hval \<Rightarrow> (world, unit) prog" where
  "place_movable p = bindM (movable_solvers p) (\<lambda>mv.
     bindM (whileM (\<lambda>mv. mv \<noteq> []) (move_into p) mv) (\<lambda>_. retM ()))"

text \<open>Idle solvers go to leaves that nobody has tried: from an ancestor, or from a leaf that is
  assumed to time out.\<close>

definition untried_leaf :: "nid \<Rightarrow> world \<Rightarrow> bool" where
  "untried_leaf n w = (let y = cell (w_heap w) n in
     n_children y = [] \<and> n_status y = Unknown \<and> n_started y = None \<and> n_class y = AndNode \<and> \<not> n_processed y)"

definition can_take :: "nid \<Rightarrow> sid \<Rightarrow> (world, bool) prog" where
  "can_take n s = bindM (get_sock s) (\<lambda>x. case s_node x of None \<Rightarrow> raiseM TypeError
     | Some a \<Rightarrow> bindM (read_heap (is_ancestor a n)) (\<lambda>b. if b then retM True
         else bindM (get_node a) (\<lambda>y. bindM (get_node n) (\<lambda>z.
           bindM (solvers (SolversAt (Some n))) (\<lambda>ss.
             retM (n_children y = [] \<and> n_assumed_timout y \<and> \<not> n_is_timeout z \<and> ss = [] \<and> a \<noteq> n))))))"

definition give_leaf :: "nid \<Rightarrow> (world, unit) prog" where
  "give_leaf n = bindM (getM (untried_leaf n)) (\<lambda>u. bindM (getM w_idle) (\<lambda>idle.
     whenM (u \<and> idle \<noteq> []) (bindM (firstM (\<lambda>s. bindM (can_take n s) (\<lambda>b.
         if b then seqM (modM (\<lambda>w. w\<lparr>w_idle := remove1 s (w_idle w)\<rparr>))
                     (seqM (solver_incremental s n) (retM True))
         else retM False)) idle) (\<lambda>_. retM ()))))"

text \<open>The key of the sort: whether the printed paths agree on the length of the solver's.\<close>

definition text_between :: "string \<Rightarrow> nat \<Rightarrow> string" where
  "text_between s k = drop 1 (take (k - 1) s)"

definition near_key :: "nid \<Rightarrow> sid \<Rightarrow> (world, bool) prog" where
  "near_key n s = bindM (read_heap (path n)) (\<lambda>p. bindM (get_sock s) (\<lambda>x.
     case s_node x of None \<Rightarrow> raiseM AttributeError
     | Some a \<Rightarrow> bindM (read_heap (path a)) (\<lambda>q.
         let k = length (show_path q) in
         retM (text_between (show_path p) k = text_between (show_path q) k))))"

definition lend_solver :: "nid \<Rightarrow> (world, unit) prog" where
  "lend_solver n = bindM (getM w_idle) (\<lambda>idle. bindM (mapM (near_key n) idle) (\<lambda>ks.
     let order = map snd (filter fst (zip ks idle)) @ map snd (filter (Not \<circ> fst) (zip ks idle)) in
     seqM (modM (\<lambda>w. w\<lparr>w_idle := order\<rparr>))
     (case order of [] \<Rightarrow> retM () | s # _ \<Rightarrow> bindM (get_sock s) (\<lambda>x.
        whenM (s_or_waiting x = []) (seqM (solver_incremental s n)
          (modM (\<lambda>w. w\<lparr>w_idle := remove1 s (w_idle w)\<rparr>)))))))"

definition place_idle :: "nid list \<Rightarrow> locals \<Rightarrow> (world, unit) prog" where
  "place_idle nodes l = bindM (getM w_idle) (\<lambda>idle0. whenM (idle0 \<noteq> [])
     (seqM (forM give_leaf nodes)
     (seqM (bindM (getM (\<lambda>w. length (w_idle w) \<le> w_total w)) assertM)
       (case l_target l of Some n \<Rightarrow> (if l_solver_partition l then lend_solver n else retM ())
        | None \<Rightarrow> retM ()))))"

section \<open>\<open>entrust\<close>\<close>

definition by_level :: "nid list \<Rightarrow> (world, nid list) prog" where
  "by_level ns = bindM (mapM (\<lambda>m. bindM (read_heap (path m)) (\<lambda>p. retM (length p, m))) ns)
     (\<lambda>ps. retM (map snd (sort_key fst ps)))"

definition work_tree :: "iid \<Rightarrow> hval option \<Rightarrow> (world, unit) prog" where
  "work_tree i received = bindM (get_conf c_partition_timeout) (\<lambda>pt. whenM (truthy pt)
     (bindM (get_inst i) (\<lambda>x. bindM (read_heap (all_nodes (i_root x))) (\<lambda>ns0. bindM (by_level ns0) (\<lambda>nodes.
      bindM (foldM (visit_node i) nodes \<lparr>l_solved = [], l_target = None, l_solver_partition = False\<rparr>) (\<lambda>l.
      seqM (place_solved i (l_solved l))
      (seqM (case received of None \<Rightarrow> retM () | Some p \<Rightarrow> place_movable p)
      (seqM (place_idle nodes l)
        (bindM (get_node (i_root x)) (\<lambda>r. bindM (getM w_total) (\<lambda>total. bindM (get_conf c_partition_count) (\<lambda>pc.
          case l_target l of None \<Rightarrow> retM ()
          | Some n \<Rightarrow> whenM (n_kind r = SMT \<and> pc < int total)
              (bindM (partition_node n False) (\<lambda>_. retM ()))))))))))))))"

definition entrust :: "hval dict \<Rightarrow> (world, unit) prog" where
  "entrust header = (let received = map_of header RECEIVED in
     bindM (getM w_current) (\<lambda>solving.
     bindM (case solving of None \<Rightarrow> retM False
       | Some i \<Rightarrow> bindM (inst_over i) (\<lambda>over. if over then finish_current i else retM False))
     (\<lambda>return1. if return1 then retM () else
       bindM (getM w_current) (\<lambda>cur.
       bindM (case cur of None \<Rightarrow> start_next | Some i \<Rightarrow> seqM (join_solvers i) (retM False))
       (\<lambda>return2. if return2 then retM () else
         bindM (getM w_current) (\<lambda>cur'. case cur' of
           None \<Rightarrow> all_done (solving \<noteq> None)
         | Some i \<Rightarrow> work_tree i received))))))"

end
