(* ===== verification/ServerLoop.thy ===== *)
theory ServerLoop
  imports Scheduler
begin

text \<open>
  The event handlers of \<open>ParallelizationServer\<close> (\<open>server/schedular.py\<close>) and the loop of
  \<open>net.Server\<close> (\<open>server/net.py\<close>) that calls them. One turn of the loop is given the sockets that
  \<open>select\<close> reports, each with what arrives at it from then on, or the new connection for the
  listening socket.
\<close>

section \<open>Levels of the log\<close>

definition upper :: "string \<Rightarrow> string" where
  "upper s = map (\<lambda>c. let n = of_char c :: nat in if 97 \<le> n \<and> n \<le> 122 then char_of (n - 32) else c) s"

text \<open>\<open>logging._nameToLevel\<close>\<close>

definition level_of_name :: "string \<Rightarrow> log_level option" where
  "level_of_name s = map_of [(''CRITICAL'', CRITICAL), (''FATAL'', CRITICAL), (''ERROR'', ERROR),
     (''WARN'', WARNING), (''WARNING'', WARNING), (''INFO'', INFO), (''DEBUG'', DEBUG), (''NOTSET'', NOTSET)] s"

text \<open>\<open>report.split(':', 1)\<close> and the level: a \<open>ValueError\<close> without a colon, a \<open>KeyError\<close> for an
  unknown level.\<close>

definition split_report :: "string \<Rightarrow> exc + (log_level \<times> string)" where
  "split_report r = (case split_once CHR '':'' r of None \<Rightarrow> Inl ValueError
     | Some (l, m) \<Rightarrow> (case level_of_name (upper l) of None \<Rightarrow> Inl KeyError | Some k \<Rightarrow> Inr (k, m)))"

definition hstr :: "hval \<Rightarrow> string" where
  "hstr v = (case v of HStr s \<Rightarrow> s | HNode _ \<Rightarrow> [])"

section \<open>Handlers\<close>

definition sock_repr :: "sid \<Rightarrow> (world, string) prog" where
  "sock_repr s = bindM (get_sock s) (\<lambda>x. case s_class x of SolverC \<Rightarrow> solver_repr s
     | LemmaC \<Rightarrow> lemma_server_repr s
     | Plain \<Rightarrow> (if \<not> s_open x then raiseM AttributeError
         else bindM (getM w_env) (\<lambda>e. bindM (remote_address s) (\<lambda>a.
           retM (''<Socket fd='' @ show_nat (e_fileno e (s_conn x)) @ '' local='' @ peer_repr (e_local e (s_conn x))
             @ '' remote='' @ peer_repr a @ ''>'')))))"

definition handle_accept :: "sid \<Rightarrow> (world, unit) prog" where
  "handle_accept s = bindM (get_conf c_enableLog) (\<lambda>el. whenM el (bindM (remote_address s) (\<lambda>a.
     log_msg DEBUG (''new connection from '' @ peer_repr a) None None)))"

definition decoded :: "bytes \<Rightarrow> (world, string) prog" where
  "decoded payload = readM (\<lambda>_. Some (decode payload))"

text \<open>The message is counted for the drawn tree.\<close>

definition collect_vtree :: "hval dict \<Rightarrow> string \<Rightarrow> (world, unit) prog" where
  "collect_vtree header message = bindM (getM w_vtree) (\<lambda>vt.
     case collect (map_option hstr (map_of header NODE')) (map_option hstr (map_of header NODE)) message vt of
       Inl e \<Rightarrow> raiseM e | Inr vt' \<Rightarrow> modM (\<lambda>w. w\<lparr>w_vtree := vt'\<rparr>))"

text \<open>The report of a solver: the first two lines of an error set the current instance's timeout to
  zero, then everything in the \<open>try\<close> ends up in the bare \<open>except\<close>, \<open>exit(1)\<close> included.\<close>

definition solver_report :: "sid \<Rightarrow> string \<Rightarrow> hval dict \<Rightarrow> bytes \<Rightarrow> (world, unit) prog" where
  "solver_report s report header payload =
     bindM (tryM any_exc
       (case split_report report of Inl e \<Rightarrow> raiseM e
        | Inr (k, m) \<Rightarrow>
            seqM (whenM (k = ERROR) (bindM (getM w_current) (\<lambda>cur. case cur of
                None \<Rightarrow> raiseM AttributeError
              | Some i \<Rightarrow> seqM (set_inst i (\<lambda>x. x\<lparr>i_timeout := Some 0\<rparr>))
                  (bindM (get_inst i) (\<lambda>x. bindM (get_node (i_root x)) (\<lambda>r.
                     seqM (emit (Printed ['';error '', m, n_name r])) (raiseM SystemExit)))))))
              (retM (k, m)))
       (\<lambda>_. retM (INFO, report)))
     (\<lambda>(k, m). bindM (get_conf c_visualize_tree) (\<lambda>vis. seqM (whenM vis (collect_vtree header m))
        (bindM (get_conf c_enableLog) (\<lambda>el. whenM el
        (bindM (solver_repr s) (\<lambda>sr. bindM (decoded payload) (\<lambda>_.
           log_msg k (if status_of_name m \<noteq> None
              then ([CHR 0x1B] @ ''[92m'') @ sr @ '': '' @ m @ ([CHR 0x1B] @ ''[0m'')
              else sr @ '': '' @ m) None None)))))))"

definition handle_solver :: "sid \<Rightarrow> hval dict \<Rightarrow> bytes \<Rightarrow> (world, unit) prog" where
  "handle_solver s header payload = whenM (header \<noteq> [])
     (seqM (case map_of header REPORT of None \<Rightarrow> retM () | Some r \<Rightarrow> solver_report s (hstr r) header payload)
       (entrust header))"

text \<open>A new instance; any exception is logged and the scheduler runs all the same.\<close>

definition add_instance :: "string \<Rightarrow> bytes \<Rightarrow> (world, unit) prog" where
  "add_instance name payload = tryM any_exc
     (bindM (decoded payload) (\<lambda>smt. bindM (instance_new name smt) (\<lambda>i.
        bindM (get_conf c_solving_timeout) (\<lambda>t.
        seqM (set_inst i (\<lambda>x. x\<lparr>i_timeout := t\<rparr>))
        (seqM (modM (\<lambda>w. w\<lparr>w_trees := dict_set name i (w_trees w)\<rparr>))
        (bindM (get_inst i) (\<lambda>x. bindM (get_node (i_root x)) (\<lambda>r. bindM (getM w_conf) (\<lambda>c.
           whenM (n_kind r = Fixedpoint \<and> c_fixedpoint_partition c)
             (bindM (on_heap (fixedpoint_partition (i_root x))) (\<lambda>rows.
               whenM (c_db_path c \<noteq> None) (modM (\<lambda>w. w\<lparr>w_history := w_history w @ rows\<rparr>)))))))))))))
     (\<lambda>e. bindM (getM (\<lambda>w. e_traceback (w_env w) e)) (\<lambda>tb.
        log_msg ERROR (''cannot add instance: '' @ tb) None None))"

definition handle_solve :: "hval dict \<Rightarrow> bytes \<Rightarrow> (world, unit) prog" where
  "handle_solve header payload = (case map_of header NAME of None \<Rightarrow> retM ()
     | Some name \<Rightarrow> bindM (get_conf c_enableLog) (\<lambda>el.
         seqM (whenM el (log_msg INFO (''new instance '' @ [CHR 0x22] @ hstr name @ [CHR 0x22]) None None))
         (seqM (add_instance (hstr name) payload) (entrust []))))"

text \<open>A client says that it is a solver.\<close>

definition handle_new_solver :: "sid \<Rightarrow> string \<Rightarrow> bytes \<Rightarrow> (world, unit) prog" where
  "handle_new_solver sock name payload = bindM (solver_new sock name) (\<lambda>s.
     bindM (get_conf c_enableLog) (\<lambda>el.
     seqM (whenM el (bindM (solver_repr s) (\<lambda>sr. bindM (decoded payload) (\<lambda>_.
        log_msg INFO (''new '' @ sr) None None))))
     (seqM (remove_sock sock) (seqM (add_sock s)
     (bindM lemma_server (\<lambda>l.
      seqM (case l of None \<Rightarrow> retM () | Some ls \<Rightarrow> set_lemma_server s (Some ls)) (entrust [])))))))"

text \<open>A client says that it is the lemma server. The one before it is closed, and stays in
  \<open>_rlist\<close>.\<close>

definition handle_lemmas :: "sid \<Rightarrow> string \<Rightarrow> bytes \<Rightarrow> (world, unit) prog" where
  "handle_lemmas sock listening payload =
     bindM (case listening of [] \<Rightarrow> raiseM IndexError
       | c # _ \<Rightarrow> (if c = CHR '':'' then bindM (remote_address sock) (\<lambda>a. case a of
              None \<Rightarrow> raiseM TypeError | Some (ip, _) \<Rightarrow> retM (ip @ listening))
            else retM listening)) (\<lambda>addr.
     bindM lemma_server (\<lambda>old. seqM (case old of None \<Rightarrow> retM () | Some l \<Rightarrow> close_sock l)
     (seqM (remove_sock sock)
     (bindM (lemma_server_new sock addr) (\<lambda>l.
      bindM (get_conf c_enableLog) (\<lambda>el.
      seqM (whenM el (bindM (lemma_server_repr l) (\<lambda>lr. bindM (decoded payload) (\<lambda>_.
         log_msg INFO (''new '' @ lr) None None))))
      (seqM (add_sock l)
        (bindM (solvers AllSolvers) (forM (\<lambda>s. set_lemma_server s (Some l)))))))))))"

text \<open>The bare \<open>except\<close> catches what the evaluation raises; when it does not end, neither does the handler.\<close>

definition handle_eval :: "sid \<Rightarrow> string \<Rightarrow> (world, unit) prog" where
  "handle_eval sock expr = bindM (if expr = [] then retM []
       else tryM any_exc (readM (\<lambda>w. e_eval (w_env w) expr)) (\<lambda>x. getM (\<lambda>w. e_traceback (w_env w) x)))
     (\<lambda>response. write_msg sock [] (VStr response))"

definition handle_command :: "sid \<Rightarrow> hval dict \<Rightarrow> bytes \<Rightarrow> (world, unit) prog" where
  "handle_command sock header payload =
     (case map_of header COMMAND of
        Some cmd \<Rightarrow>
          (if hstr cmd = TERMINATE
           then bindM (get_conf c_visualize_tree) (\<lambda>vis. seqM (whenM vis render_vtree)
                  (seqM (log_msg INFO ''Termination command is received!'' None None) server_close))
           else if hstr cmd = SOLVE then handle_solve header payload else retM ())
      | None \<Rightarrow> (case map_of header SOLVER of
          Some name \<Rightarrow> handle_new_solver sock (hstr name) payload
        | None \<Rightarrow> (case map_of header LEMMAS of
            Some l \<Rightarrow> handle_lemmas sock (hstr l) payload
          | None \<Rightarrow> (case map_of header EVAL of
              Some e \<Rightarrow> handle_eval sock (hstr e)
            | None \<Rightarrow> retM ()))))"

text \<open>A report of the lemma server; an error ends the server.\<close>

definition lemma_report :: "string \<Rightarrow> (world, unit) prog" where
  "lemma_report report = (case split_report report of Inl e \<Rightarrow> raiseM e
     | Inr (k, m) \<Rightarrow> whenM (k = ERROR) (seqM (emit (Printed ['';error '', m])) (raiseM SystemExit)))"

definition handle_message :: "sid \<Rightarrow> hval dict \<Rightarrow> bytes \<Rightarrow> (world, unit) prog" where
  "handle_message sock header payload =
     bindM (get_conf c_enableLog) (\<lambda>el. seqM (whenM el (bindM (remote_address sock) (\<lambda>a.
        bindM (decoded payload) (\<lambda>_. log_msg DEBUG (''message from '' @ peer_repr a) None None))))
     (bindM (get_sock sock) (\<lambda>x. case s_class x of
        SolverC \<Rightarrow> handle_solver sock header payload
      | LemmaC \<Rightarrow> whenM (header \<noteq> [])
          (seqM (case map_of header REPORT of None \<Rightarrow> retM () | Some r \<Rightarrow> lemma_report (hstr r))
            (handle_command sock header payload))
      | Plain \<Rightarrow> handle_command sock header payload)))"

definition handle_close :: "sid \<Rightarrow> (world, unit) prog" where
  "handle_close sock = bindM (get_conf c_enableLog) (\<lambda>el.
     seqM (whenM el (bindM (sock_repr sock) (\<lambda>r. log_msg DEBUG (''connection closed by '' @ r) None None)))
     (bindM (get_sock sock) (\<lambda>x. case s_class x of
        SolverC \<Rightarrow>
          seqM (whenM (s_or_waiting x \<noteq> [] \<and> el) (bindM (solver_repr sock) (\<lambda>sr. bindM (nodes_repr (s_or_waiting x)) (\<lambda>ws.
             log_msg WARNING (sr @ '' had waiting or-nodes '' @ ws) None None))))
          (tryM any_exc (solver_stop sock) (\<lambda>_. retM ()))
      | LemmaC \<Rightarrow> bindM (solvers AllSolvers) (forM (\<lambda>s. set_lemma_server s None))
      | Plain \<Rightarrow> retM ())))"

definition handle_timeout :: "(world, unit) prog" where
  "handle_timeout = entrust []"

section \<open>The loop\<close>

text \<open>What \<open>select\<close> reports for a socket: what is to be received, or the new connection.\<close>

datatype ready = Incoming "arrival list" | Connection conn

text \<open>\<open>sock.read()\<close> of the three classes; a closed socket gives Python's \<open>None\<close>, which cannot be
  unpacked.\<close>

definition read_msg :: "sid \<Rightarrow> arrival list \<Rightarrow> (world, hval dict \<times> bytes) prog" where
  "read_msg s ars = bindM (get_sock s) (\<lambda>x. if \<not> s_open x then raiseM TypeError
     else case sock_read ars of None \<Rightarrow> (\<lambda>_. None)
       | Some (Inl e, _) \<Rightarrow> raiseM e
       | Some (Inr (header, payload), _) \<Rightarrow>
           (if s_class x = SolverC then solver_read s header payload
            else retM (map (\<lambda>(k, v). (k, HStr v)) header, payload)))"

definition on_ready :: "sid \<times> ready \<Rightarrow> (world, unit) prog" where
  "on_ready ev = (case ev of (s, r) \<Rightarrow> bindM (getM w_listen) (\<lambda>ls.
     if s = ls then (case r of
         Connection c \<Rightarrow> bindM (get_sock ls) (\<lambda>x. if \<not> s_open x then raiseM AttributeError else bindM (new_sock (blank_sock\<lparr>s_conn := c\<rparr>)) (\<lambda>n. seqM (add_sock n) (handle_accept n)))
       | Incoming _ \<Rightarrow> raiseM OSError)
     else bindM (tryM (\<lambda>e. e = ConnectionAborted)
         (bindM (read_msg s (case r of Incoming ars \<Rightarrow> ars | Connection _ \<Rightarrow> [Eof])) (\<lambda>m. retM (Some m)))
         (\<lambda>_. seqM (handle_close s) (seqM (close_sock s) (seqM (remove_sock s) (retM None)))))
       (\<lambda>m. case m of None \<Rightarrow> retM () | Some (header, payload) \<Rightarrow> handle_message s header payload)))"

text \<open>\<open>select\<close> calls \<open>fileno()\<close> on every socket, which raises on a closed one.\<close>

definition select_ready :: "(sid \<times> ready) list \<Rightarrow> (world, (sid \<times> ready) list) prog" where
  "select_ready evs = bindM (getM id) (\<lambda>w.
     if list_all (\<lambda>s. s_open (sock_of w s)) (w_rlist w)
     then retM (filter (\<lambda>(s, _). s \<in> set (w_rlist w)) evs) else raiseM AttributeError)"

text \<open>What the loop logs of an exception.\<close>

definition exc_name :: "exc \<Rightarrow> string" where
  "exc_name e = (case e of AttributeError \<Rightarrow> ''AttributeError'' | ValueError \<Rightarrow> ''ValueError''
     | TypeError \<Rightarrow> ''TypeError'' | IndexError \<Rightarrow> ''IndexError'' | KeyError \<Rightarrow> ''KeyError''
     | AssertionError \<Rightarrow> ''AssertionError'' | ZeroDivisionError \<Rightarrow> ''ZeroDivisionError''
     | StructError \<Rightarrow> ''error'' | UnicodeDecodeError \<Rightarrow> ''UnicodeDecodeError''
     | ConnectionAborted \<Rightarrow> ''ConnectionAbortedError'' | OSError \<Rightarrow> ''OSError''
     | StopIteration \<Rightarrow> ''StopIteration'' | SystemExit \<Rightarrow> ''SystemExit'' | KeyboardInterrupt \<Rightarrow> ''KeyboardInterrupt''
     | FileNotFoundError \<Rightarrow> ''FileNotFoundError'' | LookupError \<Rightarrow> ''LookupError''
     | RuntimeError \<Rightarrow> ''RuntimeError'' | RequiredArgumentError \<Rightarrow> ''RequiredArgumentError''
     | ExecutableNotFound \<Rightarrow> ''ExecutableNotFound'' | CalledProcessError code \<Rightarrow> ''CalledProcessError'')"

definition log_exc :: "bool \<Rightarrow> exc \<Rightarrow> (world, unit) prog" where
  "log_exc enable_log e = whenM enable_log (bindM (getM (\<lambda>w. e_traceback (w_env w) e)) (\<lambda>tb.
     log_msg ERROR (exc_name e @ [CHR 0x0A] @ join [CHR 0x0A] (map (\<lambda>l. ''   '' @ l) (split_on CHR 0x0A tb)))
       None None))"

text \<open>\<open>timeout_time\<close> is set before the handler runs, so it is returned also when the handler raises.\<close>

definition run_until_timeout :: "bool \<Rightarrow> rat \<Rightarrow> (sid \<times> ready) list \<Rightarrow> (world, rat option) prog" where
  "run_until_timeout enable_log timeout evs = bindM (getM w_rlist) (\<lambda>rl. if rl = [] then retM None
     else tryM is_Exception
       (bindM (select_ready evs) (\<lambda>r.
        bindM (if r = [] \<or> timeout = 0 then bindM now (\<lambda>t. retM (Some t)) else retM None) (\<lambda>tt.
          tryM is_Exception
            (seqM (whenM (tt \<noteq> None) handle_timeout) (seqM (forM on_ready r) (retM tt)))
            (\<lambda>e. seqM (log_exc enable_log e) (retM tt)))))
       (\<lambda>e. seqM (log_exc enable_log e) (retM None)))"

text \<open>\<open>run_forever\<close> for as many turns as \<open>select\<close> results are given. What the call means as a timeout
  is passed in the place of \<open>enable_log\<close>: the timeout is always the default.\<close>

definition TIMEOUT :: rat where "TIMEOUT = 1 / 10"

primrec run_turns :: "bool \<Rightarrow> (sid \<times> ready) list list \<Rightarrow> rat \<Rightarrow> (world, unit) prog" where
  "run_turns enable_log [] last' = retM ()"
| "run_turns enable_log (evs # turns) last' = bindM (getM w_rlist) (\<lambda>rl. if rl = [] then retM ()
     else bindM now (\<lambda>t. bindM (run_until_timeout (enable_log \<or> 0 < TIMEOUT - (t - last')) TIMEOUT evs)
       (\<lambda>lts. run_turns enable_log turns (case lts of None \<Rightarrow> last' | Some u \<Rightarrow> if u = 0 then last' else u))))"

definition run_forever :: "bool \<Rightarrow> (sid \<times> ready) list list \<Rightarrow> (world, unit) prog" where
  "run_forever enable_log turns = bindM now (\<lambda>t.
     tryM is_Exception (run_turns enable_log turns t) (log_exc enable_log))"

section \<open>The initial state\<close>

text \<open>\<open>ParallelizationServer(logger, port)\<close>: the listening socket is the first object.\<close>

definition server_new :: "config \<Rightarrow> env \<Rightarrow> world" where
  "server_new c e = \<lparr>w_heap = empty_heap, w_socks = [(0, blank_sock)], w_nsock = 1, w_rlist = [0], w_listen = 0,
     w_insts = [], w_ninst = 0, w_trees = [], w_current = None, w_idle = [], w_total = 0,
     w_terminate = False, w_counter = 75674531, w_conf = c, w_history = [], w_estimate = None,
     w_ticks = 0, w_sends = 0, w_sent = [],
     w_output = (if c_enableLog c then [Logged INFO ''server start. version 1''] else []),
     w_vtree = vtree_new, w_views = [], w_env = e\<rparr>"

end
