(* ===== verification/WorldInv.thy ===== *)
theory WorldInv
  imports ServerLoop TreeTotal
begin

text \<open>
  The invariant of the server's state (\<open>world_wf\<close>): the tree is in order and every reference that the
  server keeps, in solvers, instances, the list of trees, the idle list, points to an existing
  object of the right class. \<open>good N\<close> adds that the objects of \<open>N\<close> exist, which is how a program
  remembers what it has read. One lemma per operation shows that the operation keeps it, and (with
  \<open>d = False\<close>) that it returns.
\<close>

section \<open>References\<close>

text \<open>\<open>INoPart\<close> and \<open>IEval\<close> are no objects: they say that partitioning is switched off, and that the expressions that clients have
  evaluated end.\<close>

datatype item = INode nid | IAnd nid | IOr nid | IRoot nid | IInst iid | ISock sid | INoPart | IEval

fun has :: "item \<Rightarrow> world \<Rightarrow> bool" where
  "has (INode n) w = (n < fresh (w_heap w))"
| "has (IAnd n) w = (n < fresh (w_heap w) \<and> n_class (cell (w_heap w) n) = AndNode)"
| "has (IOr n) w = (n < fresh (w_heap w) \<and> n_class (cell (w_heap w) n) = OrNode)"
| "has (IRoot n) w = (n < fresh (w_heap w) \<and> n_class (cell (w_heap w) n) = AndNode \<and> n_parent (cell (w_heap w) n) = None)"
| "has (IInst i) w = (i < w_ninst w)"
| "has (ISock s) w = (s < w_nsock w)"
| "has INoPart w = (\<not> truthy (c_partition_timeout (w_conf w)))"
| "has IEval w = (\<forall>x. e_eval (w_env w) x \<noteq> None)"

text \<open>What a socket, an instance and a node refer to.\<close>

definition sock_items :: "sock \<Rightarrow> item set" where
  "sock_items x = IAnd ` set_option (s_node x) \<union> IOr ` set (s_or_waiting x)"

definition inst_items :: "inst \<Rightarrow> item set" where
  "inst_items x = {IRoot (i_root x)}"

definition node_items :: "node \<Rightarrow> item set" where
  "node_items x = IRoot ` {n_root x}
     \<union> (if n_class x = AndNode then IOr else IAnd) ` (set_option (n_parent x) \<union> set (n_children x))"

definition world_wf :: "world \<Rightarrow> bool" where
  "world_wf w = (heap_wf (w_heap w)
     \<and> (\<forall>s. \<forall>x \<in> sock_items (sock_of w s). has x w)
     \<and> (\<forall>i < w_ninst w. \<forall>x \<in> inst_items (inst_of w i). has x w)
     \<and> (\<forall>x \<in> IInst ` (snd ` set (w_trees w) \<union> set_option (w_current w)). has x w)
     \<and> (\<forall>x \<in> ISock ` (set (w_rlist w) \<union> set (w_idle w) \<union> {w_listen w}). has x w)
     \<and> distinct (w_rlist w))"

definition good :: "item set \<Rightarrow> world \<Rightarrow> bool" where
  "good N w = (world_wf w \<and> (\<forall>x \<in> N. has x w))"

text \<open>A root is an \<open>AndNode\<close>, and any of the three is a node.\<close>

fun avail :: "item \<Rightarrow> item set \<Rightarrow> bool" where
  "avail (INode n) N = (INode n \<in> N \<or> IAnd n \<in> N \<or> IOr n \<in> N \<or> IRoot n \<in> N)"
| "avail (IAnd n) N = (IAnd n \<in> N \<or> IRoot n \<in> N)"
| "avail x N = (x \<in> N)"

lemma good_avail: "good N w \<Longrightarrow> avail x N \<Longrightarrow> has x w"
  by (cases x) (fastforce simp: good_def)+

lemma good_wf: "good N w \<Longrightarrow> world_wf w" "good N w \<Longrightarrow> heap_wf (w_heap w)"
  by (simp_all add: good_def world_wf_def)

lemma good_Un: "good (N \<union> M) w \<longleftrightarrow> good N w \<and> (\<forall>x \<in> M. has x w)"
  by (auto simp: good_def)

section \<open>Changes that keep the invariant\<close>

text \<open>Everything that exists goes on existing.\<close>

definition extends :: "world \<Rightarrow> world \<Rightarrow> bool" where
  "extends w w' = (hextends (w_heap w) (w_heap w') \<and> w_ninst w \<le> w_ninst w' \<and> w_nsock w \<le> w_nsock w'
     \<and> c_partition_timeout (w_conf w') = c_partition_timeout (w_conf w) \<and> w_env w' = w_env w)"

lemma has_ext: "has x w \<Longrightarrow> extends w w' \<Longrightarrow> has x w'"
  by (cases x) (auto simp: extends_def dest: hextendsD(3))

lemma good_ext: "good N w \<Longrightarrow> extends w w' \<Longrightarrow> world_wf w' \<Longrightarrow> good N w'"
  using has_ext by (auto simp: good_def)

text \<open>A change of fields that the invariant does not mention.\<close>

definition same_refs :: "world \<Rightarrow> world \<Rightarrow> bool" where
  "same_refs w w' = (w_heap w' = w_heap w \<and> sock_of w' = sock_of w \<and> inst_of w' = inst_of w
     \<and> w_ninst w' = w_ninst w \<and> w_nsock w' = w_nsock w \<and> w_trees w' = w_trees w \<and> w_current w' = w_current w
     \<and> w_rlist w' = w_rlist w \<and> w_idle w' = w_idle w \<and> w_listen w' = w_listen w
     \<and> c_partition_timeout (w_conf w') = c_partition_timeout (w_conf w) \<and> w_env w' = w_env w)"

lemma has_same: "w_heap w' = w_heap w \<Longrightarrow> w_ninst w' = w_ninst w \<Longrightarrow> w_nsock w' = w_nsock w \<Longrightarrow>
    c_partition_timeout (w_conf w') = c_partition_timeout (w_conf w) \<Longrightarrow> w_env w' = w_env w \<Longrightarrow> has x w' = has x w"
  by (cases x) auto

lemma good_same_refs: "good N w \<Longrightarrow> same_refs w w' \<Longrightarrow> good N w'"
proof -
  assume g: "good N w" and r: "same_refs w w'"
  have h: "has x w' = has x w" for x by (rule has_same) (use r in \<open>simp_all add: same_refs_def\<close>)
  from g show ?thesis using r by (simp add: good_def world_wf_def same_refs_def h)
qed

lemma upholds_same_refs: "(\<And>w. same_refs w (f w)) \<Longrightarrow> upholds d (good N) (modM f)"
  using good_same_refs by (blast intro: upholds_modM)

lemma world_wf_heap:
  "world_wf w \<Longrightarrow> hextends (w_heap w) h \<Longrightarrow> world_wf (w\<lparr>w_heap := h\<rparr>) \<and> extends w (w\<lparr>w_heap := h\<rparr>)"
proof -
  assume wf: "world_wf w" and ext: "hextends (w_heap w) h"
  have we: "extends w (w\<lparr>w_heap := h\<rparr>)" using ext by (simp add: extends_def)
  have so: "sock_of (w\<lparr>w_heap := h\<rparr>) = sock_of w" "inst_of (w\<lparr>w_heap := h\<rparr>) = inst_of w"
    by (simp_all add: sock_of_def inst_of_def fun_eq_iff)
  from wf hextendsD(1) [OF ext] has_ext [OF _ we] have "world_wf (w\<lparr>w_heap := h\<rparr>)"
    by (simp add: world_wf_def so)
  with we show ?thesis by simp
qed

lemma good_heap: "good N w \<Longrightarrow> hextends (w_heap w) h \<Longrightarrow> good N (w\<lparr>w_heap := h\<rparr>)"
  using world_wf_heap good_ext good_wf(1) by blast

lemma good_put_sock:
  assumes "good N w" and "\<forall>y \<in> sock_items x. has y w"
  shows "good N (put_sock s x w)"
proof -
  have "has y (put_sock s x w) = has y w" for y by (rule has_same) simp_all
  with assms show ?thesis by (auto simp: good_def world_wf_def)
qed

lemma good_put_inst:
  assumes "good N w" and "\<forall>y \<in> inst_items x. has y w"
  shows "good N (put_inst i x w)"
proof -
  have "has y (put_inst i x w) = has y w" for y by (rule has_same) simp_all
  with assms show ?thesis by (auto simp: good_def world_wf_def)
qed

section \<open>Reading\<close>

text \<open>Reading an object makes what it refers to available.\<close>

lemma learn:
  assumes "\<And>w. good N w \<Longrightarrow> \<forall>x \<in> M (f w). has x w" and "\<And>v. upholds d (good (N \<union> M v)) (k v)"
  shows "upholds d (good N) (bindM (getM f) k)"
proof (rule upholds_learn [where F = "\<lambda>v w. \<forall>x \<in> M v. has x w"])
  show "upholds d (\<lambda>w. good N w \<and> (\<forall>x \<in> M v. has x w)) (k v)" for v
    using assms(2) [of v] by (simp add: good_Un [abs_def])
qed (use assms(1) in \<open>auto simp: getM_def upholds_simple\<close>)

named_theorems learn_rules \<open>binding the result of a read\<close>
named_theorems good_rules \<open>operations keep the invariant\<close>

lemma learn_sock [learn_rules]:
  "(\<And>x. upholds d (good (N \<union> sock_items x)) (k x)) \<Longrightarrow> upholds d (good N) (bindM (get_sock s) k)"
  unfolding get_sock_def by (rule learn [where M = sock_items]) (auto simp: good_def world_wf_def)

lemma learn_inst [learn_rules]:
  "avail (IInst i) N \<Longrightarrow> (\<And>x. upholds d (good (N \<union> inst_items x)) (k x)) \<Longrightarrow> upholds d (good N) (bindM (get_inst i) k)"
  unfolding get_inst_def by (rule learn [where M = inst_items]) (auto simp: good_def world_wf_def)

lemma has_node_items:
  assumes wf: "heap_wf (w_heap w)" and n: "n < fresh (w_heap w)" and x: "x \<in> node_items (cell (w_heap w) n)"
  shows "has x w"
proof -
  let ?h = "w_heap w"
  from anc_of_root [OF wf n] anc_le [OF _ wf n] n have "n_root (cell ?h n) < fresh ?h"
    "n_parent (cell ?h (n_root (cell ?h n))) = None" by (auto intro: le_less_trans)
  with heap_wf_root [OF wf] have r: "has (IRoot (n_root (cell ?h n))) w" by simp
  have flip: "a \<noteq> b \<Longrightarrow> a = (if b = AndNode then OrNode else AndNode)" for a b
    by (cases a; cases b) auto
  have kid: "m < fresh ?h \<and> n_class (cell ?h m) = (if n_class (cell ?h n) = AndNode then OrNode else AndNode)"
    if "n_parent (cell ?h n) = Some m \<or> m \<in> set (n_children (cell ?h n))" for m
    using that
  proof
    assume "n_parent (cell ?h n) = Some m"
    from heap_wf_parent [OF wf n this] show ?thesis using flip by blast
  next
    assume "m \<in> set (n_children (cell ?h n))"
    from heap_wf_child [OF wf n this] have "m < fresh ?h" "n_parent (cell ?h m) = Some n" by auto
    with heap_wf_parent [OF wf this] show ?thesis by (metis flip)
  qed
  from x consider "x = IRoot (n_root (cell ?h n))"
    | m where "x = (if n_class (cell ?h n) = AndNode then IOr m else IAnd m)"
        "n_parent (cell ?h n) = Some m \<or> m \<in> set (n_children (cell ?h n))"
    by (auto simp: node_items_def split: if_splits)
  then show ?thesis
  proof cases
    case 1
    with r show ?thesis by simp
  next
    case 2
    with kid [OF 2(2)] show ?thesis by (simp split: if_splits)
  qed
qed

text \<open>The class of the node is known, too, when it was known of the reference.\<close>

lemma learn_node [learn_rules]:
  assumes n: "avail (INode n) N"
    and k: "\<And>x. (avail (IAnd n) N \<longrightarrow> n_class x = AndNode) \<Longrightarrow> (avail (IOr n) N \<longrightarrow> n_class x = OrNode) \<Longrightarrow>
      upholds d (good (N \<union> node_items x \<union> (if n_parent x = None then {IRoot n} else {})
        \<union> (if n_class x = AndNode then {IAnd n} else {IOr n}))) (k x)"
  shows "upholds d (good N) (bindM (get_node n) k)"
proof -
  let ?M = "\<lambda>x. node_items x \<union> (if n_parent x = None then {IRoot n} else {})
        \<union> (if n_class x = AndNode then {IAnd n} else {IOr n})"
  let ?F = "\<lambda>x w. (\<forall>y \<in> ?M x. has y w) \<and> (avail (IAnd n) N \<longrightarrow> n_class x = AndNode) \<and> (avail (IOr n) N \<longrightarrow> n_class x = OrNode)"
  show ?thesis
  proof (rule upholds_learn [where F = ?F])
    fix w x t assume w: "good N w" and r: "get_node n w = Some (Inr x, t)"
    then have [simp]: "t = w" "x = cell (w_heap w) n" by (auto simp: get_node_def run_simps)
    from good_avail [OF w n] have f: "n < fresh (w_heap w)" by simp
    have "n_class (cell (w_heap w) n) = OrNode" if "n_class (cell (w_heap w) n) \<noteq> AndNode"
      using that by (cases "n_class (cell (w_heap w) n)") auto
    with has_node_items [OF good_wf(2) [OF w] f] heap_wf_root [OF good_wf(2) [OF w] f] f
      good_avail [OF w, of "IAnd n"] good_avail [OF w, of "IOr n"]
    show "?F x t" by (auto simp del: avail.simps)
  next
    fix x
    show "upholds d (\<lambda>w. good N w \<and> ?F x w) (k x)"
    proof (cases "(avail (IAnd n) N \<longrightarrow> n_class x = AndNode) \<and> (avail (IOr n) N \<longrightarrow> n_class x = OrNode)")
      case True
      with k [of x] have "upholds d (good (N \<union> ?M x)) (k x)" by (simp add: Un_assoc)
      with True show ?thesis unfolding good_Un [abs_def] by (simp add: upholds_def)
    next
      case False
      then have "(\<lambda>w. good N w \<and> ?F x w) = (\<lambda>_. False)" by (simp only: simp_thms)
      then show ?thesis by (simp only: upholds_def simp_thms)
    qed
  qed (simp add: get_node_def upholds_simple)
qed

lemma learn_getM [learn_rules]:
  "(\<And>v. upholds d (good (N \<union> IInst ` set_option v)) (k1 v)) \<Longrightarrow> upholds d (good N) (bindM (getM w_current) k1)"
  "(\<And>v. upholds d (good (N \<union> IInst ` snd ` set v)) (k2 v)) \<Longrightarrow> upholds d (good N) (bindM (getM w_trees) k2)"
  "(\<And>v. upholds d (good (N \<union> ISock ` set v)) (k3 v)) \<Longrightarrow> upholds d (good N) (bindM (getM w_rlist) k3)"
  "(\<And>v. upholds d (good (N \<union> ISock ` set v)) (k3 v)) \<Longrightarrow> upholds d (good N) (bindM (getM w_idle) k3)"
  "(\<And>v. upholds d (good (N \<union> ISock ` {v})) (k4 v)) \<Longrightarrow> upholds d (good N) (bindM (getM w_listen) k4)"
proof -
  show "(\<And>v. upholds d (good (N \<union> IInst ` set_option v)) (k1 v)) \<Longrightarrow> upholds d (good N) (bindM (getM w_current) k1)"
    by (rule learn [where M = "\<lambda>v. IInst ` set_option v"]) (auto simp: good_def world_wf_def)
  show "(\<And>v. upholds d (good (N \<union> IInst ` snd ` set v)) (k2 v)) \<Longrightarrow> upholds d (good N) (bindM (getM w_trees) k2)"
    by (rule learn [where M = "\<lambda>v. IInst ` snd ` set v"]) (auto simp: good_def world_wf_def)
  show "(\<And>v. upholds d (good (N \<union> ISock ` set v)) (k3 v)) \<Longrightarrow> upholds d (good N) (bindM (getM w_rlist) k3)"
    by (rule learn [where M = "\<lambda>v. ISock ` set v"]) (auto simp: good_def world_wf_def)
  show "(\<And>v. upholds d (good (N \<union> ISock ` set v)) (k3 v)) \<Longrightarrow> upholds d (good N) (bindM (getM w_idle) k3)"
    by (rule learn [where M = "\<lambda>v. ISock ` set v"]) (auto simp: good_def world_wf_def)
  show "(\<And>v. upholds d (good (N \<union> ISock ` {v})) (k4 v)) \<Longrightarrow> upholds d (good N) (bindM (getM w_listen) k4)"
    by (rule learn [where M = "\<lambda>v. ISock ` {v}"]) (auto simp: good_def world_wf_def)
qed

lemma filter_Cons_in: "filter P xs = y # ys \<Longrightarrow> y \<in> set xs"
  by (drule Cons_eq_filterD [OF sym]) auto

lemma learn_solvers [learn_rules]:
  "(\<And>v. upholds d (good (N \<union> ISock ` set v)) (k v)) \<Longrightarrow> upholds d (good N) (bindM (solvers q) k)"
  "(\<And>v. upholds d (good (N \<union> ISock ` set v)) (k v)) \<Longrightarrow> upholds d (good N) (bindM newly_joint_solver k)"
  "(\<And>v. upholds d (good (N \<union> ISock ` set_option v)) (k' v)) \<Longrightarrow> upholds d (good N) (bindM lemma_server k')"
proof -
  show "(\<And>v. upholds d (good (N \<union> ISock ` set v)) (k v)) \<Longrightarrow> upholds d (good N) (bindM (solvers q) k)"
    unfolding solvers_def by (rule learn [where M = "\<lambda>v. ISock ` set v"]) (force simp: good_def world_wf_def)
  show "(\<And>v. upholds d (good (N \<union> ISock ` set v)) (k v)) \<Longrightarrow> upholds d (good N) (bindM newly_joint_solver k)"
    unfolding newly_joint_solver_def
    by (rule learn [where M = "\<lambda>v. ISock ` set v"]) (force simp: good_def world_wf_def)
  show "(\<And>v. upholds d (good (N \<union> ISock ` set_option v)) (k' v)) \<Longrightarrow> upholds d (good N) (bindM lemma_server k')"
    unfolding lemma_server_def
    by (rule learn [where M = "\<lambda>v. ISock ` set_option v"])
      (force simp: good_def world_wf_def split: list.splits dest: filter_Cons_in)
qed

text \<open>A walk on the tree returns; what it finds exists.\<close>

lemma learn_heap:
  assumes f: "\<And>w. good N w \<Longrightarrow> f (w_heap w) \<noteq> None"
    and M: "\<And>w v. good N w \<Longrightarrow> f (w_heap w) = Some (Inr v) \<Longrightarrow> \<forall>x \<in> M v. has x w"
    and k: "\<And>v. upholds d (good (N \<union> M v)) (k v)"
  shows "upholds d (good N) (bindM (read_heap f) k)"
proof (rule upholds_learn [where F = "\<lambda>v w. \<forall>x \<in> M v. has x w"])
  show "upholds d (\<lambda>w. good N w \<and> (\<forall>x \<in> M v. has x w)) (k v)" for v
    using k [of v] by (simp add: good_Un [abs_def])
  show "upholds d (good N) (read_heap f)" unfolding read_heap_def by (rule upholds_readM) (use f in blast)
qed (use M in \<open>auto simp: read_heap_def readM_def split: option.splits\<close>)

section \<open>Primitive operations\<close>

named_theorems ref_simps \<open>references of objects\<close>

declare sock_items_def [ref_simps] and inst_items_def [ref_simps] and node_items_def [ref_simps] and blank_sock_def [ref_simps]

lemma upholds_set_sock [good_rules]:
  assumes "\<And>x y. y \<in> sock_items (f x) \<Longrightarrow> y \<in> sock_items x \<or> avail y N"
  shows "upholds d (good N) (set_sock s f)"
  unfolding set_sock_def
proof (rule upholds_modM)
  fix w assume w: "good N w"
  have "\<forall>y \<in> sock_items (sock_of w s). has y w" using w by (simp add: good_def world_wf_def)
  with assms good_avail [OF w] have "\<forall>y \<in> sock_items (f (sock_of w s)). has y w" by blast
  with w show "good N (put_sock s (f (sock_of w s)) w)" by (rule good_put_sock)
qed

lemma upholds_set_inst [good_rules]:
  assumes "avail (IInst i) N" and "\<And>x. i_root (f x) = i_root x"
  shows "upholds d (good N) (set_inst i f)"
  unfolding set_inst_def
proof (rule upholds_modM)
  fix w assume w: "good N w"
  from good_avail [OF w assms(1)] w have "\<forall>y \<in> inst_items (inst_of w i). has y w" by (simp add: good_def world_wf_def)
  with w show "good N (put_inst i (f (inst_of w i)) w)"
    by (intro good_put_inst) (simp_all add: assms(2) inst_items_def)
qed

lemma upholds_set_node [good_rules]:
  "(\<And>x. same_links x (f x)) \<Longrightarrow> upholds d (good N) (set_node n f)"
  unfolding set_node_def by (rule upholds_modM) (blast intro: good_heap hextends_upd good_wf(2))

lemma upholds_set_conf [good_rules]:
  "(\<And>c. c_partition_timeout (f c) = c_partition_timeout c) \<Longrightarrow> upholds d (good N) (set_conf f)"
  unfolding set_conf_def by (rule upholds_same_refs) (simp add: same_refs_def sock_of_def inst_of_def fun_eq_iff)

lemma upholds_emit [good_rules]: "upholds d (good N) (emit x)"
  unfolding emit_def by (rule upholds_same_refs) (simp add: same_refs_def sock_of_def inst_of_def fun_eq_iff)

lemma upholds_fields [good_rules]:
  "upholds d (good N) (modM (\<lambda>w. w\<lparr>w_ticks := g1 w\<rparr>))" "upholds d (good N) (modM (\<lambda>w. w\<lparr>w_sends := g2 w\<rparr>))"
  "upholds d (good N) (modM (\<lambda>w. w\<lparr>w_sent := g3 w\<rparr>))" "upholds d (good N) (modM (\<lambda>w. w\<lparr>w_total := g4 w\<rparr>))"
  "upholds d (good N) (modM (\<lambda>w. w\<lparr>w_terminate := g5 w\<rparr>))" "upholds d (good N) (modM (\<lambda>w. w\<lparr>w_counter := g6 w\<rparr>))"
  "upholds d (good N) (modM (\<lambda>w. w\<lparr>w_estimate := g7 w\<rparr>))" "upholds d (good N) (modM (\<lambda>w. w\<lparr>w_history := g8 w\<rparr>))"
  "upholds d (good N) (modM (\<lambda>w. w\<lparr>w_vtree := g9 w\<rparr>))" "upholds d (good N) (modM (\<lambda>w. w\<lparr>w_views := g10 w\<rparr>))"
  by (rule upholds_same_refs; simp add: same_refs_def sock_of_def inst_of_def fun_eq_iff)+

lemma upholds_reads [good_rules]:
  "upholds d (good N) (get_sock s)" "upholds d (good N) (get_node n)" "upholds d (good N) (get_inst i)"
  "upholds d (good N) (get_conf g)" "upholds d (good N) (solvers q)" "upholds d (good N) newly_joint_solver"
  "upholds d (good N) lemma_server" "upholds d (good N) (remote_address s)"
  by (simp_all add: get_sock_def get_node_def get_inst_def get_conf_def solvers_def newly_joint_solver_def
      lemma_server_def remote_address_def upholds_simple)

lemma upholds_now [good_rules]: "upholds d (good N) now"
  unfolding now_def by (intro keeps_intro good_rules)

lemma upholds_on_conf [good_rules]:
  assumes "\<And>c. \<exists>r c'. m c = Some (r, c') \<and> c_partition_timeout c' = c_partition_timeout c"
  shows "upholds d (good N) (on_conf m)"
proof (rule upholdsI)
  fix w assume w: "good N w"
  obtain r c where "m (w_conf w) = Some (r, c)" "c_partition_timeout c = c_partition_timeout (w_conf w)"
    using assms [of "w_conf w"] by auto
  moreover from this(2) have "good N (w\<lparr>w_conf := c\<rparr>)"
    by (intro good_same_refs [OF w]) (simp add: same_refs_def sock_of_def inst_of_def fun_eq_iff)
  ultimately show "wp d (on_conf m) (\<lambda>_. good N) (\<lambda>_. good N) w"
    by (simp add: wp_def on_conf_def split: sum.split)
qed

lemma upholds_on_vtree [good_rules]:
  assumes "\<And>v. m v \<noteq> None"
  shows "upholds d (good N) (on_vtree m)"
proof (rule upholdsI)
  fix w assume w: "good N w"
  obtain r v where "m (w_vtree w) = Some (r, v)" using assms [of "w_vtree w"] by auto
  moreover have "good N (w\<lparr>w_vtree := v\<rparr>)"
    by (rule good_same_refs [OF w]) (simp add: same_refs_def sock_of_def inst_of_def fun_eq_iff)
  ultimately show "wp d (on_vtree m) (\<lambda>_. good N) (\<lambda>_. good N) w"
    by (simp add: wp_def on_vtree_def split: sum.split)
qed

lemma upholds_write_msg [good_rules]: "upholds d (good N) (write_msg s header payload)"
  unfolding write_msg_def send_once_def by (intro keeps_intro good_rules)

lemma upholds_close_sock [good_rules]: "upholds d (good N) (close_sock s)"
  unfolding close_sock_def by (intro keeps_intro good_rules) (simp add: ref_simps)

lemma upholds_log_msg [good_rules]: "upholds d (good N) (log_msg l m a b)"
  unfolding log_msg_def by (intro keeps_intro good_rules)

lemma good_lists:
  assumes "good N w"
  shows "set r \<subseteq> set (w_rlist w) \<union> {s. ISock s \<in> N} \<Longrightarrow> distinct r \<Longrightarrow> good N (w\<lparr>w_rlist := r\<rparr>)"
    and "set r \<subseteq> set (w_idle w) \<union> {s. ISock s \<in> N} \<Longrightarrow> good N (w\<lparr>w_idle := r\<rparr>)"
    and "\<forall>x \<in> snd ` set d. x \<in> snd ` set (w_trees w) \<or> IInst x \<in> N \<Longrightarrow> good N (w\<lparr>w_trees := d\<rparr>)"
    and "\<forall>i. c = Some i \<longrightarrow> IInst i \<in> N \<Longrightarrow> good N (w\<lparr>w_current := c\<rparr>)"
proof -
  have h: "has x (w\<lparr>w_rlist := r\<rparr>) = has x w" "has x (w\<lparr>w_idle := r\<rparr>) = has x w"
    "has x (w\<lparr>w_trees := d\<rparr>) = has x w" "has x (w\<lparr>w_current := c\<rparr>) = has x w" for x r
    by (rule has_same; simp)+
  have o: "sock_of (w\<lparr>w_rlist := r\<rparr>) = sock_of w" "inst_of (w\<lparr>w_rlist := r\<rparr>) = inst_of w"
    "sock_of (w\<lparr>w_idle := r\<rparr>) = sock_of w" "inst_of (w\<lparr>w_idle := r\<rparr>) = inst_of w"
    "sock_of (w\<lparr>w_trees := d\<rparr>) = sock_of w" "inst_of (w\<lparr>w_trees := d\<rparr>) = inst_of w"
    "sock_of (w\<lparr>w_current := c\<rparr>) = sock_of w" "inst_of (w\<lparr>w_current := c\<rparr>) = inst_of w" for r
    by (simp_all add: sock_of_def inst_of_def fun_eq_iff)
  have N: "ISock s \<in> N \<Longrightarrow> s < w_nsock w" "IInst i \<in> N \<Longrightarrow> i < w_ninst w" for s i
    using good_avail [OF assms, of "ISock s"] good_avail [OF assms, of "IInst i"] by simp_all
  note wf = assms [unfolded good_def world_wf_def]
  show "set r \<subseteq> set (w_rlist w) \<union> {s. ISock s \<in> N} \<Longrightarrow> distinct r \<Longrightarrow> good N (w\<lparr>w_rlist := r\<rparr>)"
    using wf N(1) by (auto simp: good_def world_wf_def h o)
  show "set r \<subseteq> set (w_idle w) \<union> {s. ISock s \<in> N} \<Longrightarrow> good N (w\<lparr>w_idle := r\<rparr>)"
    using wf N(1) by (auto simp: good_def world_wf_def h o)
  show "good N (w\<lparr>w_trees := d\<rparr>)" if "\<forall>x \<in> snd ` set d. x \<in> snd ` set (w_trees w) \<or> IInst x \<in> N"
  proof -
    have "i < w_ninst w" if "i \<in> snd ` set (w_trees w)" for i using wf that by auto
    with that N(2) have "\<forall>i \<in> snd ` set d. i < w_ninst w" by blast
    with wf show ?thesis by (simp add: good_def world_wf_def h o ball_Un)
  qed
  show "\<forall>i. c = Some i \<longrightarrow> IInst i \<in> N \<Longrightarrow> good N (w\<lparr>w_current := c\<rparr>)"
    using wf N(2) by (auto simp: good_def world_wf_def h o)
qed

lemma upholds_remove_sock [good_rules]: "upholds d (good N) (remove_sock s)"
proof -
  have "upholds d (good N) (modM (\<lambda>w. w\<lparr>w_rlist := remove1 s (w_rlist w)\<rparr>))"
  proof (rule upholds_modM)
    fix w assume w: "good N w"
    then have "distinct (w_rlist w)" by (simp add: good_def world_wf_def)
    with w show "good N (w\<lparr>w_rlist := remove1 s (w_rlist w)\<rparr>)"
      by (intro good_lists(1)) (auto dest: in_set_remove1 [THEN iffD1, rotated] notin_set_remove1)
  qed
  then show ?thesis unfolding remove_sock_def by (intro keeps_intro)
qed

lemma upholds_add_sock [good_rules]: "avail (ISock s) N \<Longrightarrow> upholds d (good N) (add_sock s)"
  unfolding add_sock_def
proof (rule upholds_modM)
  fix w assume "avail (ISock s) N" and w: "good N w"
  moreover from w have "distinct (w_rlist w)" by (simp add: good_def world_wf_def)
  ultimately show "good N (w\<lparr>w_rlist := if s \<in> set (w_rlist w) then w_rlist w else w_rlist w @ [s]\<rparr>)"
    by (intro good_lists(1)) auto
qed

lemma upholds_idle [good_rules]:
  "upholds d (good N) (modM (\<lambda>w. w\<lparr>w_idle := remove1 s (w_idle w)\<rparr>))"
  "avail (ISock s) N \<Longrightarrow> upholds d (good N) (modM (\<lambda>w. w\<lparr>w_idle := w_idle w @ [s]\<rparr>))"
  "\<forall>s \<in> set ss. avail (ISock s) N \<Longrightarrow> upholds d (good N) (modM (\<lambda>w. w\<lparr>w_idle := ss\<rparr>))"
  by (rule upholds_modM, rule good_lists(2); auto dest: notin_set_remove1)+

text \<open>A new socket object exists from then on.\<close>

lemma learn_new_sock [learn_rules]:
  assumes x: "\<And>y. y \<in> sock_items x \<Longrightarrow> avail y N"
    and k: "\<And>s. upholds d (good (N \<union> {ISock s})) (k s)"
  shows "upholds d (good N) (bindM (new_sock x) k)"
proof (rule upholds_learn [where F = "\<lambda>s w. \<forall>y \<in> {ISock s}. has y w"])
  have step: "good N (put_sock (w_nsock w) x (w\<lparr>w_nsock := Suc (w_nsock w)\<rparr>))
      \<and> has (ISock (w_nsock w)) (put_sock (w_nsock w) x (w\<lparr>w_nsock := Suc (w_nsock w)\<rparr>))" if w: "good N w" for w
  proof -
    let ?w = "w\<lparr>w_nsock := Suc (w_nsock w)\<rparr>"
    have so: "sock_of ?w = sock_of w" "inst_of ?w = inst_of w" by (simp_all add: sock_of_def inst_of_def fun_eq_iff)
    have ext: "extends w ?w" using good_wf(2) [OF w] by (simp add: extends_def hextends_refl)
    have up: "has y ?w" if "has y w" for y using has_ext [OF that ext] .
    from good_wf(1) [OF w] up have "world_wf ?w" by (auto simp: world_wf_def so less_Suc_eq)
    with good_ext [OF w ext] have "good N ?w" .
    moreover have "\<forall>y \<in> sock_items x. has y ?w" using x good_avail [OF \<open>good N ?w\<close>] by blast
    ultimately show ?thesis using good_put_sock by simp
  qed
  then show "upholds d (good N) (new_sock x)"
    by (auto simp: new_sock_def upholds_def wp_simps)
  show "\<forall>y \<in> {ISock s}. has y t" if "good N w" "new_sock x w = Some (Inr s, t)" for w s t
    using step [OF that(1)] that(2) by (auto simp: new_sock_def run_simps)
  show "upholds d (\<lambda>w. good N w \<and> (\<forall>y \<in> {ISock s}. has y w)) (k s)" for s
    using k [of s] unfolding good_Un [abs_def] .
qed

end
