(* ===== verification/ServerInv.thy ===== *)
theory ServerInv
  imports WorldInv
begin

text \<open>
  Every operation of the sockets, of the scheduler and of the event loop keeps the invariant of the
  server's state. Those without a loop that waits for progress also return; \<open>d\<close> stands for either.
\<close>

section \<open>Walks and changes of the tree\<close>

lemma learn_walk:
  assumes "\<And>h. heap_wf h \<Longrightarrow> n < fresh h \<Longrightarrow> f h \<noteq> None" and "avail (INode n) N" and "\<And>v. upholds d (good N) (k v)"
  shows "upholds d (good N) (bindM (read_heap f) k)"
proof (rule learn_heap [where M = "\<lambda>_. {}"])
  show "f (w_heap w) \<noteq> None" if "good N w" for w
    using assms(1) good_wf(2) [OF that] good_avail [OF that assms(2)] by simp
qed (use assms(3) in simp_all)

lemma level_total: "heap_wf h \<Longrightarrow> n < fresh h \<Longrightarrow> level n h \<noteq> None"
  using path_total by (simp add: level_def)

lemmas learn_path [learn_rules] =
  learn_walk [OF path_total] learn_walk [OF path_nodes_total] learn_walk [OF level_total]

lemma learn_is_ancestor [learn_rules]:
  assumes "avail (INode a) N" and "avail (INode n) N" and "\<And>v. upholds d (good N) (k v)"
  shows "upholds d (good N) (bindM (read_heap (is_ancestor a n)) k)"
proof (rule learn_heap [where M = "\<lambda>_. {}"])
  show "is_ancestor a n (w_heap w) \<noteq> None" if "good N w" for w
    using is_ancestor_total good_wf(2) [OF that] good_avail [OF that assms(1)] good_avail [OF that assms(2)] by simp
qed (use assms(3) in simp_all)

lemma learn_to_string [learn_rules]:
  assumes "avail (INode r) N" "avail (INode n) N" "\<And>a. st = Some a \<Longrightarrow> avail (INode a) N"
    and "\<And>v. upholds d (good N) (k v)"
  shows "upholds d (good N) (bindM (read_heap (to_string r n st)) k)"
proof (rule learn_heap [where M = "\<lambda>_. {}"])
  fix w assume w: "good N w"
  show "to_string r n st (w_heap w) \<noteq> None"
    using good_avail [OF w assms(1)] good_avail [OF w assms(2)] good_avail [OF w assms(3)]
    by (intro to_string_total good_wf(2) [OF w]) auto
qed (use assms(4) in simp_all)

lemma learn_all_nodes [learn_rules]:
  assumes "avail (INode n) N" and "\<And>v. upholds d (good (N \<union> INode ` set v)) (k v)"
  shows "upholds d (good N) (bindM (read_heap (all_nodes n)) k)"
proof (rule learn_heap [where M = "\<lambda>v. INode ` set v"])
  fix w v assume w: "good N w"
  from good_avail [OF w assms(1)] have n: "n < fresh (w_heap w)" by simp
  from all_nodes_total [OF good_wf(2) [OF w] n] obtain ms where
    ms: "all_nodes n (w_heap w) = Some (Inr ms)" "\<forall>m \<in> set ms. m < fresh (w_heap w)" .
  then show "all_nodes n (w_heap w) \<noteq> None" by simp
  assume "all_nodes n (w_heap w) = Some (Inr v)"
  with ms show "\<forall>x \<in> INode ` set v. has x w" by simp
qed (rule assms(2))

lemma learn_childeren [learn_rules]:
  assumes "avail (IAnd n) N" and "\<And>v. upholds d (good (N \<union> IAnd ` set v)) (k v)"
  shows "upholds d (good N) (bindM (read_heap (childeren n)) k)"
proof (rule learn_heap [where M = "\<lambda>v. IAnd ` set v"])
  fix w v assume w: "good N w"
  from good_avail [OF w assms(1)] have n: "n < fresh (w_heap w)" "n_class (cell (w_heap w) n) = AndNode" by simp_all
  show "childeren n (w_heap w) \<noteq> None" using childeren_total(1) [OF good_wf(2) [OF w] n] .
  assume "childeren n (w_heap w) = Some (Inr v)"
  with childeren_total(2) [OF good_wf(2) [OF w] n this] show "\<forall>x \<in> IAnd ` set v. has x w" by auto
qed (rule assms(2))

lemma learn_path_to_node [learn_rules]:
  assumes "avail (IAnd n) N" and "\<And>v. upholds d (good (N \<union> IAnd ` set v)) (k v)"
  shows "upholds d (good N) (bindM (read_heap (path_to_node n)) k)"
proof (rule learn_heap [where M = "\<lambda>v. IAnd ` set v"])
  fix w v assume w: "good N w"
  from good_avail [OF w assms(1)] have n: "n < fresh (w_heap w)" "n_class (cell (w_heap w) n) = AndNode" by simp_all
  from path_to_node_total [OF good_wf(2) [OF w] n] obtain ms where
    ms: "path_to_node n (w_heap w) = Some (Inr ms)"
      "\<forall>m \<in> set ms. m < fresh (w_heap w) \<and> n_class (cell (w_heap w) m) = AndNode" .
  then show "path_to_node n (w_heap w) \<noteq> None" by simp
  assume "path_to_node n (w_heap w) = Some (Inr v)"
  with ms show "\<forall>x \<in> IAnd ` set v. has x w" by auto
qed (rule assms(2))

lemma learn_on_heap:
  assumes m: "\<And>w. good N w \<Longrightarrow> wp False m (\<lambda>x h'. hextends (w_heap w) h' \<and> (\<forall>y \<in> M x. has y (w\<lparr>w_heap := h'\<rparr>)))
        (\<lambda>_ h'. hextends (w_heap w) h') (w_heap w)"
    and k: "\<And>x. upholds d (good (N \<union> M x)) (k x)"
  shows "upholds d (good N) (bindM (on_heap m) k)"
proof (rule upholds_learn [where F = "\<lambda>x w. \<forall>y \<in> M x. has y w"])
  show "upholds d (good N) (on_heap m)"
  proof (rule upholdsI)
    fix w assume w: "good N w"
    from m [OF w] good_heap [OF w] show "wp d (on_heap m) (\<lambda>_. good N) (\<lambda>_. good N) w"
      by (cases "m (w_heap w)") (auto simp: wp_def on_heap_def split: sum.splits)
  qed
  show "\<forall>y \<in> M x. has y t" if "good N w" "on_heap m w = Some (Inr x, t)" for w x t
    using m [OF that(1)] that(2) by (auto simp: wp_def on_heap_def split: option.splits)
  show "upholds d (\<lambda>w. good N w \<and> (\<forall>y \<in> M x. has y w)) (k x)" for x
    using k [of x] unfolding good_Un [abs_def] .
qed

lemma upholds_on_heap:
  assumes "\<And>w. good N w \<Longrightarrow> wp False m (\<lambda>x h'. hextends (w_heap w) h') (\<lambda>_ h'. hextends (w_heap w) h') (w_heap w)"
  shows "upholds d (good N) (on_heap m)"
proof -
  have "upholds d (good N) (bindM (on_heap m) retM)"
    by (rule learn_on_heap [where M = "\<lambda>_. {}"]) (use assms upholds_simple in simp_all)
  moreover have "bindM (on_heap m) retM = on_heap m"
    by (auto simp: bindM_def retM_def fun_eq_iff split: option.splits sum.splits)
  ultimately show ?thesis by simp
qed

lemma learn_or_node [learn_rules]:
  assumes "avail (INode n) N" and "\<And>x. upholds d (good (N \<union> {IOr x})) (k x)"
  shows "upholds d (good N) (bindM (on_heap (or_node (Some n) smt)) k)"
proof (rule learn_on_heap [where M = "\<lambda>x. {IOr x}"])
  fix w assume w: "good N w"
  from good_avail [OF w assms(1)] good_wf(2) [OF w]
  show "wp False (or_node (Some n) smt) (\<lambda>x h'. hextends (w_heap w) h' \<and> (\<forall>y \<in> {IOr x}. has y (w\<lparr>w_heap := h'\<rparr>)))
     (\<lambda>_ h'. hextends (w_heap w) h') (w_heap w)"
    by (intro wp_mono [OF wp_or_node]) (auto intro: hextends_refl)
qed (rule assms(2))

lemma learn_and_node [learn_rules]:
  assumes "avail (INode n) N" and "\<And>x. upholds d (good (N \<union> {IAnd x})) (k x)"
  shows "upholds d (good N) (bindM (on_heap (and_node (Some n) smt)) k)"
proof (rule learn_on_heap [where M = "\<lambda>x. {IAnd x}"])
  fix w assume w: "good N w"
  from good_avail [OF w assms(1)] good_wf(2) [OF w]
  show "wp False (and_node (Some n) smt) (\<lambda>x h'. hextends (w_heap w) h' \<and> (\<forall>y \<in> {IAnd x}. has y (w\<lparr>w_heap := h'\<rparr>)))
     (\<lambda>_ h'. hextends (w_heap w) h') (w_heap w)"
    by (intro wp_mono [OF wp_and_node]) (auto intro: hextends_refl)
qed (rule assms(2))

lemma learn_parse [learn_rules]:
  assumes "\<And>x. upholds d (good (N \<union> {IRoot x})) (k x)"
  shows "upholds d (good N) (bindM (on_heap (parse name smt)) k)"
proof (rule learn_on_heap [where M = "\<lambda>x. {IRoot x}"])
  fix w assume w: "good N w"
  have "n_class (cell h n) = AndNode" if "hextends (w_heap w) h" "n < fresh h" "n_parent (cell h n) = None" for h n
    using heap_wf_root [OF hextendsD(1) [OF that(1)] that(2,3)] by simp
  with good_wf(2) [OF w]
  show "wp False (parse name smt) (\<lambda>x h'. hextends (w_heap w) h' \<and> (\<forall>y \<in> {IRoot x}. has y (w\<lparr>w_heap := h'\<rparr>)))
     (\<lambda>_ h'. hextends (w_heap w) h') (w_heap w)"
    by (intro wp_mono [OF wp_parse]) (auto intro: hextends_refl)
qed (rule assms)

lemma upholds_clear [good_rules]: "upholds d (good N) (on_heap (clear n))"
  by (rule upholds_on_heap) (simp add: clear_def wp_simps hextends_clear good_wf(2))

lemma upholds_set_status [good_rules]:
  assumes "avail (INode n) N"
  shows "upholds d (good N) (on_heap (set_status n st))"
proof (rule upholds_on_heap)
  fix w assume w: "good N w"
  from good_avail [OF w assms] have "n < fresh (w_heap w)" by simp
  from hextends_set_status [OF good_wf(2) [OF w] this, of st] obtain h'
    where "set_status n st (w_heap w) = Some (Inr (), h')" "hextends (w_heap w) h'" .
  then show "wp False (set_status n st) (\<lambda>_ h'. hextends (w_heap w) h') (\<lambda>_ h'. hextends (w_heap w) h') (w_heap w)"
    by (simp add: wp_def)
qed

section \<open>Sockets\<close>

lemma upholds_lemma_server_ops [good_rules]:
  "upholds d (good N) (lemma_init s)"
  "avail (INode n) N \<Longrightarrow> upholds d (good N) (lemma_reset s n)"
  unfolding lemma_init_def lemma_reset_def
  by (rule learn_rules good_rules keeps_intro | (simp add: ref_simps; fail))+

lemma upholds_solver_reset [good_rules]: "upholds d (good N) (solver_reset s)"
  unfolding solver_reset_def by (rule learn_rules good_rules keeps_intro | (simp add: ref_simps; fail))+

lemma upholds_solver_repr [good_rules]: "upholds d (good N) (solver_repr s)"
  unfolding solver_repr_def by (rule learn_rules good_rules keeps_intro | (simp add: ref_simps; fail))+

lemma upholds_lemma_server_repr [good_rules]: "upholds d (good N) (lemma_server_repr s)"
  unfolding lemma_server_repr_def by (rule learn_rules good_rules keeps_intro | (simp add: ref_simps; fail))+

lemma upholds_solver_stop [good_rules]: "upholds d (good N) (solver_stop s)"
  unfolding solver_stop_def by (rule learn_rules good_rules keeps_intro | (simp add: ref_simps; fail))+

lemma upholds_solver_terminate [good_rules]: "upholds d (good N) (solver_terminate s)"
  unfolding solver_terminate_def by (rule learn_rules good_rules keeps_intro | (simp add: ref_simps; fail))+

lemma upholds_node_start [good_rules]: "avail (INode n) N \<Longrightarrow> upholds d (good N) (node_start n)"
  unfolding node_start_def
  by (rule learn_rules good_rules keeps_intro | (simp add: ref_simps same_links_def; fail))+

lemma upholds_solver_solve [good_rules]: "avail (IAnd n) N \<Longrightarrow> upholds d (good N) (solver_solve s n ps)"
  unfolding solver_solve_def
  by (rule learn_rules good_rules keeps_intro | (auto simp: ref_simps; fail)[1])+

lemma upholds_solver_incremental [good_rules]: "avail (IAnd n) N \<Longrightarrow> upholds d (good N) (solver_incremental s n)"
  unfolding solver_incremental_def
  by (rule learn_rules good_rules keeps_intro | (auto simp: ref_simps; fail)[1])+

lemma upholds_set_lemma_server [good_rules]: "upholds d (good N) (set_lemma_server s ls)"
  unfolding set_lemma_server_def
  by (rule learn_rules good_rules keeps_intro | (auto simp: ref_simps; fail)[1])+

lemma upholds_ask_partitions [good_rules]: "upholds d (good N) (ask_partitions s k None)"
  unfolding ask_partitions_def option.case
  by (rule learn_rules good_rules keeps_intro | (auto simp: ref_simps same_links_def; fail)[1])+

lemma learn_solver_new [learn_rules]:
  assumes "\<And>s M. N \<subseteq> M \<Longrightarrow> ISock s \<in> M \<Longrightarrow> upholds d (good M) (k s)"
  shows "upholds d (good N) (bindM (solver_new sock name) k)"
  unfolding solver_new_def solver_initialize_def regroup
  by (rule learn_rules good_rules keeps_intro assms | (auto simp: ref_simps; fail)[1])+

lemma learn_lemma_server_new [learn_rules]:
  assumes "\<And>s M. N \<subseteq> M \<Longrightarrow> ISock s \<in> M \<Longrightarrow> upholds d (good M) (k s)"
  shows "upholds d (good N) (bindM (lemma_server_new sock l) k)"
  unfolding lemma_server_new_def regroup
  by (rule learn_rules good_rules keeps_intro assms | (auto simp: ref_simps; fail)[1])+

section \<open>Reading reports\<close>

declare learn_filterM [learn_rules]

lemma upholds_decoded [good_rules]: "upholds d (good N) (decoded payload)"
  unfolding decoded_def by (rule upholds_readM) simp

lemma upholds_debug_check [good_rules]: "avail (INode n) N \<Longrightarrow> upholds d (good N) (debug_check n p r)"
  unfolding debug_check_def
  by (rule learn_rules good_rules keeps_intro | (auto simp: ref_simps; fail)[1])+

lemma upholds_close_below [good_rules]: "avail (INode n) N \<Longrightarrow> upholds d (good N) (close_below n)"
  unfolding close_below_def
  by (rule learn_rules good_rules keeps_intro | (auto simp: ref_simps; fail)[1])+

lemma upholds_read_status [good_rules]: "avail (INode n) N \<Longrightarrow> upholds d (good N) (read_status s n st)"
  unfolding read_status_def
  by (rule learn_rules good_rules keeps_intro | (auto simp: ref_simps dest: in_set_butlastD; fail)[1])+

text \<open>The nodes in a header.\<close>

definition header_items :: "hval dict \<Rightarrow> item set" where
  "header_items h = (\<Union>v \<in> snd ` set h. case v of HNode n \<Rightarrow> {IAnd n} | HStr _ \<Rightarrow> {})"

lemma vals_dict_set: "snd ` set (dict_set k v d) \<subseteq> insert v (snd ` set d)"
  by (induction k v d rule: dict_set.induct) auto

lemma header_items_set: "header_items (dict_set k v h) \<subseteq> header_items h \<union> (case v of HNode n \<Rightarrow> {IAnd n} | HStr _ \<Rightarrow> {})"
  using vals_dict_set [of k v h] unfolding header_items_def by fast

lemma header_items_texts [simp]: "header_items (map (\<lambda>(k, v). (k, HStr v)) fs) = {}"
  "header_items (dict_del x (map (\<lambda>(k, v). (k, HStr v)) fs)) = {}" "header_items [] = {}"
  by (auto simp: header_items_def dict_del_def)

lemma learn_read_partitions [learn_rules]:
  assumes d: "avail (IOr d') N" and h: "header_items header = {}"
    and k: "\<And>r M. N \<subseteq> M \<Longrightarrow> header_items r \<subseteq> M \<Longrightarrow> upholds d (good M) (k r)"
  shows "upholds d (good N) (bindM (read_partitions d' header payload) k)"
proof -
  have texts: "header_items (dict_set REPORT (HStr t) header) = {}" for t
    using header_items_set [of REPORT "HStr t" header] h by auto
  have given: "header_items (dict_set REPORT (HStr t) (dict_set RECEIVED (HNode p) header)) \<subseteq> {IAnd p}" for t p
    using header_items_set [of REPORT "HStr t" "dict_set RECEIVED (HNode p) header"]
      header_items_set [of RECEIVED "HNode p" header] h by auto
  show ?thesis
    unfolding read_partitions_def regroup Let_def
    by (insert d) (rule learn_rules good_rules keeps_intro k order_trans [OF given]
        | (simp add: texts ref_simps; fail) | (blast; fail)[1])+
qed

lemma learn_solver_read [learn_rules]:
  assumes k: "\<And>r M. N \<subseteq> M \<Longrightarrow> header_items (fst r) \<subseteq> M \<Longrightarrow> upholds d (good M) (k r)"
  shows "upholds d (good N) (bindM (solver_read s fs payload) k)"
  unfolding solver_read_def regroup Let_def
  by (rule learn_rules good_rules keeps_intro k | (auto simp: ref_simps dest: in_set_butlastD; fail)[1])+

section \<open>Instances\<close>

lemma learn_instance_new [learn_rules]:
  assumes k: "\<And>i M. N \<subseteq> M \<Longrightarrow> IInst i \<in> M \<Longrightarrow> upholds d (good M) (k i)"
  shows "upholds d (good N) (bindM (instance_new name smt) k)"
  unfolding instance_new_def regroup
proof (rule learn_rules)+
  fix r
  let ?m = "\<lambda>i. modM (\<lambda>w. put_inst i (blank_inst\<lparr>i_root := r\<rparr>) (w\<lparr>w_ninst := Suc i\<rparr>))"
  have "upholds d (good (N \<union> {IRoot r})) (bindM (bindM (getM w_ninst) (\<lambda>i. seqM (?m i) (retM i))) k)"
  proof (rule upholds_learn [where F = "\<lambda>i w. \<forall>x \<in> {IInst i}. has x w"])
    have step: "good (N \<union> {IRoot r}) (put_inst (w_ninst w) (blank_inst\<lparr>i_root := r\<rparr>) (w\<lparr>w_ninst := Suc (w_ninst w)\<rparr>))
        \<and> has (IInst (w_ninst w)) (put_inst (w_ninst w) (blank_inst\<lparr>i_root := r\<rparr>) (w\<lparr>w_ninst := Suc (w_ninst w)\<rparr>))"
      if w: "good (N \<union> {IRoot r}) w" for w
    proof -
      let ?w = "put_inst (w_ninst w) (blank_inst\<lparr>i_root := r\<rparr>) (w\<lparr>w_ninst := Suc (w_ninst w)\<rparr>)"
      have ext: "extends w ?w" using good_wf(2) [OF w] by (simp add: extends_def hextends_refl)
      have up: "has y ?w" if "has y w" for y using has_ext [OF that ext] .
      have so: "sock_of ?w = sock_of w" "inst_of ?w = (inst_of w)(w_ninst w := blank_inst\<lparr>i_root := r\<rparr>)"
        by (simp_all add: sock_of_def inst_of_def fun_eq_iff put_inst_def update_conv)
      have "has (IRoot r) ?w" using up good_avail [OF w, of "IRoot r"] by auto
      then have "\<forall>y \<in> inst_items (blank_inst\<lparr>i_root := r\<rparr>). has y ?w" by (simp add: inst_items_def)
      with good_wf(1) [OF w] up have "world_wf ?w"
        unfolding world_wf_def so by (auto simp: less_Suc_eq simp del: has.simps)
      with good_ext [OF w ext] show ?thesis by simp
    qed
    then show "upholds d (good (N \<union> {IRoot r})) (bindM (getM w_ninst) (\<lambda>i. seqM (?m i) (retM i)))"
      by (auto simp: upholds_def wp_simps)
    show "\<forall>y \<in> {IInst i}. has y t" if "good (N \<union> {IRoot r}) w"
      "bindM (getM w_ninst) (\<lambda>i. seqM (?m i) (retM i)) w = Some (Inr i, t)" for w i t
      using step [OF that(1)] that(2) by (auto simp: run_simps)
    show "upholds d (\<lambda>w. good (N \<union> {IRoot r}) w \<and> (\<forall>y \<in> {IInst i}. has y w)) (k i)" for i
      using k [of "N \<union> {IRoot r} \<union> {IInst i}" i] unfolding good_Un [abs_def] by auto
  qed
  then show "upholds d (good (N \<union> {IRoot r})) (bindM (getM w_ninst) (\<lambda>i. seqM (?m i) (k i)))"
    by (simp add: regroup)
qed

lemma upholds_when_timeout [good_rules]: "avail (IInst i) N \<Longrightarrow> upholds d (good N) (when_timeout i)"
  unfolding when_timeout_def
  by (rule learn_rules good_rules keeps_intro | (auto simp: ref_simps; fail)[1])+

end
