(* ===== verification/SchedInv.thy ===== *)
theory SchedInv
  imports ServerInv
begin

text \<open>
  The scheduler and the event loop keep the invariant of the server's state.
\<close>

section \<open>Scheduling\<close>

lemma upholds_get_level_children [good_rules]: "upholds d (good N) (get_level_children l)"
  unfolding get_level_children_def by (rule upholds_readM) simp

lemma upholds_partition_node [good_rules]: "avail (INode n) N \<Longrightarrow> upholds d (good N) (partition_node n force)"
  unfolding partition_node_def
  by (rule learn_rules good_rules keeps_intro | (auto simp: ref_simps; fail)[1])+

lemma upholds_case_param [keeps_intro]:
  "(\<And>v. p = PVal v \<Longrightarrow> upholds d I (m v)) \<Longrightarrow> (\<And>f. p = PCall f \<Longrightarrow> upholds d I (k f)) \<Longrightarrow>
   upholds d I (case p of PVal v \<Rightarrow> m v | PCall f \<Rightarrow> k f)"
  by (simp split: param.splits)

lemma config_entrust_total:
  "\<exists>r c'. config_entrust h name k c = Some (r, c') \<and> c_partition_timeout c' = c_partition_timeout c"
proof -
  have "returns (\<lambda>c. c_partition_timeout c = t) (config_entrust h name k)" for t
    unfolding config_entrust_def param_step_def Let_def
    by (rule keeps_intro upholds_modM | (simp; fail))+
  from returns_run [OF this refl] show ?thesis by blast
qed

lemma upholds_entrust_config [good_rules]: "upholds d (good N) (entrust_config ps s r)"
  unfolding entrust_config_def
  by (rule learn_rules good_rules keeps_intro config_entrust_total | (auto simp: ref_simps; fail)[1])+

lemma upholds_start_solver [good_rules]: "avail (IInst i) N \<Longrightarrow> upholds d (good N) (start_solver i s)"
  unfolding start_solver_def
  by (rule learn_rules good_rules keeps_intro | (auto simp: ref_simps; fail)[1])+

lemma upholds_inst_over [good_rules]: "avail (IInst i) N \<Longrightarrow> upholds d (good N) (inst_over i)"
  unfolding inst_over_def
  by (rule learn_rules good_rules keeps_intro | (auto simp: ref_simps; fail)[1])+

lemma upholds_schedulable [good_rules]: "avail (IInst i) N \<Longrightarrow> upholds d (good N) (schedulable i)"
  unfolding schedulable_def
  by (rule learn_rules good_rules keeps_intro | (auto simp: ref_simps; fail)[1])+

lemma upholds_report_stuck [good_rules]: "avail (IAnd n) N \<Longrightarrow> upholds d (good N) (report_stuck n)"
  unfolding report_stuck_def
  by (rule learn_rules good_rules keeps_intro | (auto simp: ref_simps; fail)[1])+

lemma upholds_trees_del [good_rules]:
  "upholds d (good N) (modM (\<lambda>w. w\<lparr>w_trees := dict_del k (w_trees w)\<rparr>))"
  by (rule upholds_modM, rule good_lists(3)) (auto simp: dict_del_def)

lemma upholds_report_result [good_rules]: "avail (IInst i) N \<Longrightarrow> upholds d (good N) (report_result i)"
  unfolding report_result_def
  by (rule learn_rules good_rules keeps_intro | (auto simp: ref_simps; fail)[1])+

lemma upholds_solvers_in [good_rules]: "upholds d (good N) (solvers_in r)"
  unfolding solvers_in_def
  by (rule learn_rules good_rules keeps_intro | (auto simp: ref_simps; fail)[1])+

lemma render_total: "render name f v \<noteq> None"
proof -
  have "returns (\<lambda>_. True) (render name f)"
    unfolding render_def draw_row_def draw_last_def draw_def get_alias_def Let_def
    by (rule keeps_intro upholds_modM TrueI)+
  from returns_run [OF this, of v] show ?thesis by auto
qed

lemma upholds_render_vtree [good_rules]: "upholds d (good N) render_vtree"
  unfolding render_vtree_def Let_def
  by (rule learn_rules good_rules keeps_intro render_total | (auto simp: ref_simps; fail)[1])+

lemma upholds_finish_vtree [good_rules]: "upholds d (good N) finish_vtree"
  unfolding finish_vtree_def
  by (rule learn_rules good_rules keeps_intro | (auto simp: ref_simps; fail)[1])+

lemma upholds_current [good_rules]:
  "upholds d (good N) (modM (\<lambda>w. w\<lparr>w_current := None, w_idle := []\<rparr>))"
  "avail (IInst i) N \<Longrightarrow> upholds d (good N) (modM (\<lambda>w. w\<lparr>w_current := Some i\<rparr>))"
proof -
  show "upholds d (good N) (modM (\<lambda>w. w\<lparr>w_current := None, w_idle := []\<rparr>))"
    by (rule upholds_modM, rule good_lists(2), rule good_lists(4)) auto
  show "avail (IInst i) N \<Longrightarrow> upholds d (good N) (modM (\<lambda>w. w\<lparr>w_current := Some i\<rparr>))"
    by (rule upholds_modM, rule good_lists(4)) auto
qed

lemma upholds_finish_current [good_rules]: "avail (IInst i) N \<Longrightarrow> upholds d (good N) (finish_current i)"
  unfolding finish_current_def
  by (rule learn_rules good_rules keeps_intro | (auto simp: ref_simps; fail)[1])+

lemma upholds_start_next [good_rules]: "upholds d (good N) start_next"
  unfolding start_next_def
  by (rule learn_rules good_rules keeps_intro | (auto simp: ref_simps; fail)[1])+

lemma upholds_join_solvers [good_rules]: "avail (IInst i) N \<Longrightarrow> upholds d (good N) (join_solvers i)"
  unfolding join_solvers_def
  by (rule learn_rules good_rules keeps_intro | (auto simp: ref_simps; fail)[1])+

text \<open>Closing pops a socket per round.\<close>

lemma wp_server_close:
  "good N w \<Longrightarrow> wp False server_close (\<lambda>_ t. good N t \<and> w_rlist t = []) (\<lambda>_. good N) w"
  unfolding server_close_def wp_simps
proof (rule wp_whileM_total [where J = "\<lambda>r t. good N t \<and> r = w_rlist t" and meas = "\<lambda>r t. length r"])
  fix r t assume J: "good N t \<and> r = w_rlist t" and ne: "r \<noteq> []"
  let ?t = "t\<lparr>w_rlist := tl r\<rparr>"
  from J have "distinct (w_rlist t)" by (simp add: good_def world_wf_def)
  with J ne have g: "good N ?t" by (intro good_lists(1)) (auto dest: list.set_sel(2) intro: distinct_tl)
  have so: "sock_of ?t = sock_of t" by (simp add: sock_of_def fun_eq_iff)
  have "good N (put_sock s (sock_of t s\<lparr>s_open := False\<rparr>) ?t)" for s
    using g by (intro good_put_sock) (auto simp: so sock_items_def good_def world_wf_def)
  with ne g show "wp False (seqM (modM (\<lambda>w. w\<lparr>w_rlist := tl r\<rparr>)) (seqM (close_sock (hd r)) (getM w_rlist)))
      (\<lambda>r' t'. (good N t' \<and> r' = w_rlist t') \<and> length r' < length r) (\<lambda>_. good N) t"
    by (simp add: wp_simps close_sock_def get_sock_def set_sock_def so)
qed (auto simp: wp_simps)

lemma upholds_server_close [good_rules]: "upholds d (good N) server_close"
  by (rule returns_keeps, rule upholdsI) (blast intro: wp_mono wp_server_close)

lemma upholds_all_done [good_rules]: "upholds d (good N) (all_done b)"
  unfolding all_done_def
  by (rule learn_rules good_rules keeps_intro | (auto simp: ref_simps; fail)[1])+

section \<open>Moving solvers\<close>

lemma upholds_count_down [good_rules]: "upholds d (good N) count_down"
  unfolding count_down_def by (rule good_rules) simp

lemma upholds_free_solvers [good_rules]: "upholds d (good N) (free_solvers n acc)"
  unfolding free_solvers_def
  by (rule learn_rules good_rules keeps_intro | (auto simp: ref_simps; fail)[1])+

lemma upholds_idle_solvers [good_rules]: "upholds d (good N) (idle_solvers n b)"
  unfolding idle_solvers_def
  by (rule learn_rules good_rules keeps_intro | (auto simp: ref_simps; fail)[1])+

lemma upholds_visit_unsat [good_rules]: "avail (IAnd n) N \<Longrightarrow> upholds d (good N) (visit_unsat n acc)"
  unfolding visit_unsat_def
  by (rule learn_rules good_rules keeps_intro | (auto simp: ref_simps same_links_def; fail)[1])+

lemma upholds_visit_timeout [good_rules]: "avail (INode n) N \<Longrightarrow> upholds d (good N) (visit_timeout n)"
  unfolding visit_timeout_def
  by (rule learn_rules good_rules keeps_intro | (auto simp: ref_simps same_links_def split: if_splits; fail)[1])+

lemma upholds_choose_timeout [good_rules]:
  "avail (IInst i) N \<Longrightarrow> avail (INode n) N \<Longrightarrow> upholds d (good N) (choose_timeout i n)"
  unfolding choose_timeout_def
  by (rule learn_rules good_rules keeps_intro | (auto simp: ref_simps; fail)[1])+

lemma upholds_node_overdue [good_rules]: "avail (INode n) N \<Longrightarrow> upholds d (good N) (node_overdue n)"
  unfolding node_overdue_def
  by (rule learn_rules good_rules keeps_intro | (auto simp: ref_simps; fail)[1])+

text \<open>The node to be partitioned is an \<open>AndNode\<close>.\<close>

definition target_items :: "locals \<Rightarrow> item set" where
  "target_items l = IAnd ` set_option (l_target l)"

lemma target_items_update [simp]: "target_items (l\<lparr>l_solved := x\<rparr>) = target_items l"
  "target_items (l\<lparr>l_target := t, l_solver_partition := b\<rparr>) = IAnd ` set_option t"
  "target_items \<lparr>l_solved = x, l_target = t, l_solver_partition = b\<rparr> = IAnd ` set_option t"
  by (simp_all add: target_items_def)

lemma learn_visit_node:
  assumes n: "avail (INode n) N" "avail (IInst i) N" "target_items l \<subseteq> N"
    and k: "\<And>r M. N \<subseteq> M \<Longrightarrow> target_items r \<subseteq> M \<Longrightarrow> upholds d (good M) (k r)"
  shows "upholds d (good N) (bindM (visit_node i n l) k)"
  unfolding visit_node_def regroup
  by (insert n) (rule learn_rules good_rules keeps_intro k | (auto simp: ref_simps; fail)[1])+

lemma learn_visit_nodes [learn_rules]:
  assumes "\<forall>n \<in> set ns. avail (INode n) N" "avail (IInst i) N" "target_items l \<subseteq> N"
    and "\<And>r M. N \<subseteq> M \<Longrightarrow> target_items r \<subseteq> M \<Longrightarrow> upholds d (good M) (k r)"
  shows "upholds d (good N) (bindM (foldM (visit_node i) ns l) k)"
  using assms
proof (induction ns arbitrary: N l)
  case Nil
  then show ?case by (simp add: regroup)
next
  case (Cons n ns)
  have "upholds d (good M) (bindM (foldM (visit_node i) ns r) k)" if "N \<subseteq> M" "target_items r \<subseteq> M" for r M
    using that Cons.prems by (intro Cons.IH) (auto)
  then show ?case using Cons.prems by (simp add: regroup learn_visit_node)
qed

end
