(* ===== verification/LoopInv.thy ===== *)
theory LoopInv
  imports SchedInv
begin

text \<open>
  The rest of the scheduler (moving solvers in the tree, \<open>entrust\<close>), the event handlers and the
  loop keep the invariant of the server's state. Two loops of \<open>entrust\<close> wait for progress, so
  here \<open>keeps\<close> is the rule and \<open>returns\<close> holds without partitioning, when what arrives at
  a socket is a whole message or ends, and the evaluations of \<open>handle_eval\<close> end.
\<close>

section \<open>Lists of nodes\<close>

lemma filterM_pure:
  "(\<And>x. x \<in> set xs \<Longrightarrow> p x s = Some (Inr (q x), s)) \<Longrightarrow> filterM p xs s = Some (Inr (filter q xs), s)"
  by (induction xs) (simp_all add: run_simps bindM_def)

lemma mapM_pure:
  "(\<And>x. x \<in> set xs \<Longrightarrow> f x s = Some (Inr (q x), s)) \<Longrightarrow> mapM f xs s = Some (Inr (map q xs), s)"
  by (induction xs) (simp_all add: run_simps bindM_def)

lemma learn_active_nodes [learn_rules]:
  assumes n: "avail (INode n) N" and k: "\<And>v. upholds d (good (N \<union> IAnd ` set v)) (k v)"
  shows "upholds d (good N) (bindM (active_nodes n) k)"
proof (rule upholds_learn [where F = "\<lambda>v w. \<forall>x \<in> IAnd ` set v. has x w"])
  show "upholds d (good N) (active_nodes n)"
    unfolding active_nodes_def
    by (insert n) (rule learn_rules good_rules keeps_intro | (auto simp: ref_simps; fail)[1])+
  fix w v t assume w: "good N w" and r: "active_nodes n w = Some (Inr v, t)"
  from good_avail [OF w n] have f: "n < fresh (w_heap w)" by simp
  from all_nodes_total [OF good_wf(2) [OF w] f] obtain ms where
    ms: "all_nodes n (w_heap w) = Some (Inr ms)" "\<forall>m \<in> set ms. m < fresh (w_heap w)" .
  let ?q = "\<lambda>m. n_status (cell (w_heap w) m) = Unknown \<and> n_class (cell (w_heap w) m) = AndNode
      \<and> \<not> n_processed (cell (w_heap w) m)"
  have "filterM (\<lambda>m. bindM (get_node m) (\<lambda>y. retM (n_status y = Unknown \<and> n_class y = AndNode \<and> \<not> n_processed y))) ms w
      = Some (Inr (filter ?q ms), w)"
    by (rule filterM_pure) (simp add: get_node_def run_simps bindM_def)
  with r ms have "v = filter ?q ms" "t = w"
    by (auto simp: active_nodes_def read_heap_def readM_def bindM_def)
  with ms(2) show "\<forall>x \<in> IAnd ` set v. has x t" by auto
next
  show "upholds d (\<lambda>w. good N w \<and> (\<forall>x \<in> IAnd ` set v. has x w)) (k v)" for v
    using k [of v] unfolding good_Un [abs_def] .
qed

lemma learn_by_load [learn_rules]:
  assumes "\<And>ms. set ms = set ns \<Longrightarrow> upholds d (good N) (k ms)"
  shows "upholds d (good N) (bindM (by_load ns) k)"
proof (rule upholds_value [OF _ _ assms])
  show "upholds d (good N) (by_load ns)"
    unfolding by_load_def by (rule learn_rules good_rules keeps_intro | (auto simp: ref_simps; fail)[1])+
  fix w ms t assume r: "by_load ns w = Some (Inr ms, t)"
  have "mapM (\<lambda>m. bindM (solvers (SolversAt (Some m))) (\<lambda>ss. retM (length ss, m))) ns w
      = Some (Inr (map (\<lambda>m. (length (filter (solver_at (SolversAt (Some m)) w) (w_rlist w)), m)) ns), w)"
    by (rule mapM_pure) (simp add: solvers_def run_simps bindM_def)
  with r show "set ms = set ns"
    by (auto simp: by_load_def bindM_def run_simps image_image)
qed

lemma learn_by_level [learn_rules]:
  assumes "\<forall>n \<in> set ns. avail (INode n) N" and "\<And>ms. set ms = set ns \<Longrightarrow> upholds d (good N) (k ms)"
  shows "upholds d (good N) (bindM (by_level ns) k)"
proof (rule upholds_value [OF _ _ assms(2)])
  show "upholds d (good N) (by_level ns)"
    unfolding by_level_def
    by (insert assms(1)) (rule learn_rules good_rules keeps_intro | (auto simp: ref_simps; fail)[1])+
  fix w ms t assume r: "by_level ns w = Some (Inr ms, t)"
  let ?f = "\<lambda>m. bindM (read_heap (path m)) (\<lambda>p. retM (length p, m))"
  from r obtain ps where ps: "mapM ?f ns w = Some (Inr ps, t)" and ms: "ms = map snd (sort_key fst ps)"
    by (auto simp: by_level_def bindM_def retM_def split: option.splits sum.splits)
  have "list_all2 (\<lambda>n p. snd p = n) ns ps"
    by (rule mapM_all2 [OF _ ps]) (auto simp: bindM_def retM_def split: option.splits sum.splits)
  then have "map snd ps = ns" by (induction rule: list_all2_induct) auto
  then show "set ms = set ns" unfolding ms by (simp add: image_set [symmetric]) (metis image_set)
qed

section \<open>Moving solvers\<close>

lemma upholds_place_at [good_rules]: "avail (INode c) N \<Longrightarrow> upholds d (good N) (place_at c ss)"
  unfolding place_at_def
  by (rule learn_rules good_rules keeps_intro | (auto simp: ref_simps; fail)[1])+

lemma keeps_place_solved [good_rules]: "avail (IInst i) N \<Longrightarrow> keeps (good N) (place_solved i ss)"
  unfolding place_solved_def
  by (rule learn_rules good_rules keeps_intro keeps_whileM | (auto simp: ref_simps; fail)[1])+

lemma upholds_movable_at [good_rules]: "upholds d (good N) (movable_at m mv)"
  unfolding movable_at_def
  by (rule learn_rules good_rules keeps_intro | (auto simp: ref_simps; fail)[1])+

text \<open>What a header may hold as the received node.\<close>

definition hval_items :: "hval \<Rightarrow> item set" where
  "hval_items p = (case p of HNode n \<Rightarrow> {IAnd n} | HStr _ \<Rightarrow> {})"

lemma hval_items_node [simp]: "hval_items (HNode n) = {IAnd n}"
  by (simp add: hval_items_def)

lemma upholds_case_hval [keeps_intro]:
  "(\<And>t. p = HStr t \<Longrightarrow> upholds d I (m t)) \<Longrightarrow> (\<And>n. p = HNode n \<Longrightarrow> upholds d I (k n)) \<Longrightarrow>
   upholds d I (case p of HStr t \<Rightarrow> m t | HNode n \<Rightarrow> k n)"
  by (simp split: hval.splits)

lemma upholds_movable_solvers [good_rules]: "hval_items p \<subseteq> N \<Longrightarrow> upholds d (good N) (movable_solvers p)"
  unfolding movable_solvers_def
  by (rule learn_rules good_rules keeps_intro | (auto simp: ref_simps; fail)[1])+

lemma upholds_move_into [good_rules]: "hval_items p \<subseteq> N \<Longrightarrow> upholds d (good N) (move_into p mv)"
  unfolding move_into_def
  by (rule learn_rules good_rules keeps_intro | (auto simp: ref_simps; fail)[1])+

lemma keeps_place_movable [good_rules]: "hval_items p \<subseteq> N \<Longrightarrow> keeps (good N) (place_movable p)"
  unfolding place_movable_def
  by (rule learn_rules good_rules keeps_intro | (auto simp: ref_simps; fail)[1])+

lemma upholds_can_take [good_rules]: "avail (INode n) N \<Longrightarrow> upholds d (good N) (can_take n s)"
  unfolding can_take_def
  by (rule learn_rules good_rules keeps_intro | (auto simp: ref_simps; fail)[1])+

lemma learn_untried_leaf [learn_rules]:
  assumes "avail (INode n) N" and "\<And>u. upholds d (good (N \<union> (if u then {IAnd n} else {}))) (k u)"
  shows "upholds d (good N) (bindM (getM (untried_leaf n)) k)"
proof (rule learn [where M = "\<lambda>u. if u then {IAnd n} else {}"])
  show "\<forall>x \<in> if untried_leaf n w then {IAnd n} else {}. has x w" if w: "good N w" for w
    using good_avail [OF w assms(1)] by (simp add: untried_leaf_def Let_def)
qed (rule assms(2))

lemma upholds_give_leaf [good_rules]: "avail (INode n) N \<Longrightarrow> upholds d (good N) (give_leaf n)"
  unfolding give_leaf_def
  by (rule learn_rules good_rules keeps_intro | (auto simp: ref_simps; fail)[1])+

lemma upholds_near_key [good_rules]: "avail (INode n) N \<Longrightarrow> upholds d (good N) (near_key n s)"
  unfolding near_key_def Let_def
  by (rule learn_rules good_rules keeps_intro | (auto simp: ref_simps; fail)[1])+

lemma order_set: "set (map snd (filter fst (zip ks xs)) @ map snd (filter (Not \<circ> fst) (zip ks xs))) \<subseteq> set xs"
  by (auto dest: set_zip_rightD)

lemma upholds_lend_solver [good_rules]: "avail (IAnd n) N \<Longrightarrow> upholds d (good N) (lend_solver n)"
proof -
  assume n: "avail (IAnd n) N"
  let ?o = "\<lambda>ks (xs :: sid list). map snd (filter fst (zip ks xs)) @ map snd (filter (Not \<circ> fst) (zip ks xs))"
  have all: "\<forall>s \<in> set (?o ks xs). avail (ISock s) (M \<union> ISock ` set xs)" for ks xs M
    using order_set [of ks xs] by auto
  show ?thesis
    unfolding lend_solver_def Let_def
    by (insert n) (rule learn_rules upholds_idle(3) [OF all] good_rules keeps_intro | (auto simp: ref_simps; fail)[1])+
qed

lemma upholds_place_idle [good_rules]:
  "\<forall>n \<in> set ns. avail (INode n) N \<Longrightarrow> target_items l \<subseteq> N \<Longrightarrow> upholds d (good N) (place_idle ns l)"
  unfolding place_idle_def target_items_def
  by (rule learn_rules good_rules keeps_intro | (auto simp: ref_simps; fail)[1])+

section \<open>\<open>entrust\<close>\<close>

lemma keeps_work_tree:
  "avail (IInst i) N \<Longrightarrow> (\<And>p. received = Some p \<Longrightarrow> hval_items p \<subseteq> N) \<Longrightarrow> keeps (good N) (work_tree i received)"
  unfolding work_tree_def
  by (rule learn_rules good_rules keeps_intro | (auto simp: ref_simps target_items_def; fail)[1])+

text \<open>Without partitioning the tree is not worked on, and nothing waits for progress.\<close>

lemma upholds_work_tree_off: "INoPart \<in> N \<Longrightarrow> upholds d (good N) (work_tree i received)"
  unfolding work_tree_def get_conf_def
proof (rule upholds_learn [where F = "\<lambda>pt _. \<not> truthy pt"])
  assume off: "INoPart \<in> N"
  show "\<not> truthy pt" if "good N w" "getM (\<lambda>w. c_partition_timeout (w_conf w)) w = Some (Inr pt, t)" for w pt t
    using that good_avail [OF that(1), of INoPart] off by (auto simp: run_simps)
  show "upholds d (\<lambda>w. good N w \<and> \<not> truthy pt) (whenM (truthy pt) k)" for pt k
    by (cases "truthy pt") (simp_all add: whenM_def upholds_def wp_simps)
qed (rule keeps_intro)

lemma upholds_work_tree [good_rules]:
  "avail (IInst i) N \<Longrightarrow> (\<And>p. received = Some p \<Longrightarrow> hval_items p \<subseteq> N) \<Longrightarrow> d \<or> INoPart \<in> N \<Longrightarrow>
   upholds d (good N) (work_tree i received)"
  using keeps_work_tree upholds_work_tree_off by (cases d) auto

lemma header_received: "map_of header RECEIVED = Some p \<Longrightarrow> hval_items p \<subseteq> header_items header"
  by (drule map_of_SomeD) (force simp: header_items_def hval_items_def)

lemma upholds_entrust [good_rules]:
  "header_items header \<subseteq> N \<Longrightarrow> d \<or> INoPart \<in> N \<Longrightarrow> upholds d (good N) (entrust header)"
  unfolding entrust_def Let_def
  by (rule learn_rules good_rules keeps_intro | (auto simp: ref_simps dest: header_received; fail)[1])+

section \<open>Handlers\<close>

lemma path_read: "heap_wf h \<Longrightarrow> n < fresh h \<Longrightarrow> \<exists>r. path n h = Some r"
  using path_total [of h n] by auto

lemma wp_fixedpoint_partition:
  assumes wf: "heap_wf h" and n: "n < fresh h"
  shows "wp False (fixedpoint_partition n) (\<lambda>_ h'. hextends h h') (\<lambda>_ h'. hextends h h') h"
proof -
  let ?J = "\<lambda>h'. hextends h h' \<and> n < fresh h'"
  have rd: "wp False (readM (path m)) Q (\<lambda>_ h'. hextends h h') h'" if "hextends h h'" "m < fresh h'" "\<And>p. Q p h'" for m Q h'
    using path_read [OF hextendsD(1) [OF that(1)] that(2)] that by (auto simp: wp_simps split: sum.splits)
  have step: "hextends h h''" if "hextends h h'" "hextends h' h''" for h' h'' using that by (rule hextends_trans)
  have kids: "wp False (foldM (\<lambda>q rows. bindM (and_node (Some d) (t q)) (\<lambda>c. bindM (readM (path c)) (\<lambda>cp.
      retM (rows @ [r cp])))) qs rows) (\<lambda>_ h'. hextends h h') (\<lambda>_ h'. hextends h h') h'"
    if "hextends h h'" "d < fresh h'" for d t r qs rows h'
  proof (rule wp_foldM [where J = "\<lambda>_ _ h'. hextends h h' \<and> d < fresh h'"])
    fix q qs rows h'' assume J: "hextends h h'' \<and> d < fresh h''"
    then have "heap_wf h''" "d < fresh h''" using hextendsD(1) by auto
    then have "wp False (and_node (Some d) (t q)) (\<lambda>c h3. hextends h h3 \<and> d < fresh h3 \<and> c < fresh h3)
        (\<lambda>_ h3. hextends h h3) h''"
      using J step hextendsD(2) by (intro wp_mono [OF wp_and_node]) (auto intro: less_le_trans)
    then show "wp False (bindM (and_node (Some d) (t q)) (\<lambda>c. bindM (readM (path c)) (\<lambda>cp. retM (rows @ [r cp]))))
      (\<lambda>_ h'. hextends h h' \<and> d < fresh h') (\<lambda>_ h'. hextends h h') h''"
      unfolding wp_bindM by (rule wp_mono) (auto intro!: rd simp: wp_retM)
  qed (use that in auto)
  let ?h = "\<lambda>obj. upd n (\<lambda>y. y\<lparr>n_json := obj\<rparr>) h"
  have ext: "hextends h (?h obj)" for obj by (rule hextends_upd [OF wf]) (simp add: same_links_def)
  have ors: "wp False (or_node (Some n) s) (\<lambda>d h'. hextends h h' \<and> n < fresh h' \<and> d < fresh h') (\<lambda>_ h'. hextends h h') (?h obj)"
    for obj s
    using hextendsD(1) [OF ext] n step [OF ext] ext
    by (intro wp_mono [OF wp_or_node]) (auto dest: hextendsD(2))
  show ?thesis
    unfolding fixedpoint_partition_def Let_def
    by (auto simp: wp_getM wp_bindM wp_seqM wp_modM ext wp_raiseM split: prod.split sum.split
        intro!: wp_mono [OF ors] rd kids)
qed

lemma upholds_fixedpoint_partition:
  assumes "avail (INode n) N"
  shows "upholds d (good N) (on_heap (fixedpoint_partition n))"
proof (rule upholds_on_heap)
  fix w assume w: "good N w"
  with good_avail [OF w assms] show "wp False (fixedpoint_partition n) (\<lambda>_. hextends (w_heap w)) (\<lambda>_. hextends (w_heap w)) (w_heap w)"
    by (intro wp_fixedpoint_partition good_wf(2)) simp_all
qed

lemma upholds_trees_set [good_rules]:
  "avail (IInst i) N \<Longrightarrow> upholds d (good N) (modM (\<lambda>w. w\<lparr>w_trees := dict_set k i (w_trees w)\<rparr>))"
proof (rule upholds_modM, rule good_lists(3))
  fix w assume "avail (IInst i) N"
  then show "\<forall>x \<in> snd ` set (dict_set k i (w_trees w)). x \<in> snd ` set (w_trees w) \<or> IInst x \<in> N"
    using vals_dict_set [of k i "w_trees w"] by auto
qed

lemma upholds_add_instance [good_rules]: "upholds d (good N) (add_instance name payload)"
  unfolding add_instance_def
  by (rule learn_rules upholds_fixedpoint_partition good_rules keeps_intro | (auto simp: ref_simps; fail)[1])+

lemma upholds_sock_class [keeps_intro]:
  "(k = Plain \<Longrightarrow> upholds d I a) \<Longrightarrow> (k = SolverC \<Longrightarrow> upholds d I b) \<Longrightarrow> (k = LemmaC \<Longrightarrow> upholds d I c) \<Longrightarrow>
   upholds d I (case k of Plain \<Rightarrow> a | SolverC \<Rightarrow> b | LemmaC \<Rightarrow> c)"
  by (cases k) simp_all

lemma upholds_sock_repr [good_rules]: "upholds d (good N) (sock_repr s)"
  unfolding sock_repr_def by (rule learn_rules good_rules keeps_intro)+

lemma upholds_handle_accept [good_rules]: "upholds d (good N) (handle_accept s)"
  unfolding handle_accept_def by (rule learn_rules good_rules keeps_intro)+

lemma upholds_collect_vtree [good_rules]: "upholds d (good N) (collect_vtree header m)"
  unfolding collect_vtree_def by (rule learn_rules good_rules keeps_intro)+

lemma upholds_solver_report [good_rules]: "upholds d (good N) (solver_report s r header payload)"
  unfolding solver_report_def
  by (rule learn_rules good_rules keeps_intro | (auto simp: ref_simps; fail)[1])+

lemma upholds_handle_solver [good_rules]:
  "header_items header \<subseteq> N \<Longrightarrow> d \<or> INoPart \<in> N \<Longrightarrow> upholds d (good N) (handle_solver s header payload)"
  unfolding handle_solver_def
  by (rule learn_rules good_rules keeps_intro | (auto simp: ref_simps; fail)[1])+

lemma upholds_handle_solve [good_rules]: "d \<or> INoPart \<in> N \<Longrightarrow> upholds d (good N) (handle_solve header payload)"
  unfolding handle_solve_def
  by (rule learn_rules good_rules keeps_intro | (auto simp: ref_simps; fail)[1])+

lemma upholds_handle_new_solver [good_rules]:
  "d \<or> INoPart \<in> N \<Longrightarrow> upholds d (good N) (handle_new_solver s name payload)"
  unfolding handle_new_solver_def
  by (rule learn_rules good_rules keeps_intro | (auto simp: ref_simps; fail)[1])+

lemma upholds_handle_lemmas [good_rules]: "upholds d (good N) (handle_lemmas s l payload)"
  unfolding handle_lemmas_def regroup
  by (rule learn_rules good_rules keeps_intro | (auto simp: ref_simps; fail)[1])+

lemma upholds_eval: "d \<or> IEval \<in> N \<Longrightarrow> upholds d (good N) (readM (\<lambda>w. e_eval (w_env w) x))"
proof (rule upholds_readM)
  fix w assume "d \<or> IEval \<in> N" and "good N w"
  then show "d \<or> e_eval (w_env w) x \<noteq> None" using good_avail [of N w IEval] by auto
qed

text \<open>A program that does not return at all.\<close>

lemma upholds_never [keeps_intro]: "d \<Longrightarrow> upholds d I (\<lambda>_. None)"
  by (simp add: upholds_def wp_def)

lemma bindM_never [simp]: "bindM (\<lambda>_. None) k = (\<lambda>_. None)"
  by (simp add: bindM_def fun_eq_iff)

lemma upholds_handle_eval [good_rules]: "d \<or> IEval \<in> N \<Longrightarrow> upholds d (good N) (handle_eval s e)"
  unfolding handle_eval_def by (rule learn_rules upholds_eval good_rules keeps_intro | assumption)+

lemma upholds_handle_command [good_rules]:
  "d \<or> INoPart \<in> N \<and> IEval \<in> N \<Longrightarrow> upholds d (good N) (handle_command s header payload)"
  unfolding handle_command_def
  by (rule learn_rules good_rules keeps_intro | (auto simp: ref_simps; fail)[1])+

lemma upholds_handle_message [good_rules]:
  "header_items header \<subseteq> N \<Longrightarrow> d \<or> INoPart \<in> N \<and> IEval \<in> N \<Longrightarrow> upholds d (good N) (handle_message s header payload)"
  unfolding handle_message_def lemma_report_def
  by (rule learn_rules good_rules keeps_intro | (auto simp: ref_simps; fail)[1])+

lemma upholds_nodes_repr [good_rules]: "\<forall>n \<in> set ns. avail (INode n) N \<Longrightarrow> upholds d (good N) (nodes_repr ns)"
  unfolding nodes_repr_def node_repr_def
  by (rule learn_rules good_rules keeps_intro | (auto simp: ref_simps; fail)[1])+

lemma upholds_handle_close [good_rules]: "upholds d (good N) (handle_close s)"
  unfolding handle_close_def
  by (rule learn_rules good_rules keeps_intro | (auto simp: ref_simps; fail)[1])+

section \<open>The loop\<close>

text \<open>The client does not leave the server waiting.\<close>

definition readable :: "sid \<times> ready \<Rightarrow> bool" where
  "readable ev = (case snd ev of Incoming ars \<Rightarrow> \<not> starved ars | Connection _ \<Rightarrow> True)"

lemma learn_read_msg:
  assumes "d \<or> \<not> starved ars" and "\<And>r M. N \<subseteq> M \<Longrightarrow> header_items (fst r) \<subseteq> M \<Longrightarrow> upholds d (good M) (k r)"
  shows "upholds d (good N) (bindM (read_msg s ars) k)"
proof (cases "sock_read ars")
  case None
  with assms(1) sock_read_None have "d" by blast
  then show ?thesis
    unfolding read_msg_def None option.case regroup bindM_never by (intro learn_rules good_rules keeps_intro)
next
  case (Some rt)
  obtain r t where run: "sock_read ars = Some (r, t)" using Some by (cases rt) simp
  show ?thesis
  proof (cases r)
    case (Inl e)
    show ?thesis
      unfolding read_msg_def run Inl option.case prod.case sum.case regroup
      by (rule learn_rules good_rules keeps_intro)+
  next
    case (Inr m)
    obtain h pl where m: "m = (h, pl)" by (cases m)
    show ?thesis
      unfolding read_msg_def run Inr m option.case prod.case sum.case regroup
      by (rule learn_rules good_rules keeps_intro assms(2) | (auto simp: ref_simps; fail)[1])+
  qed
qed

text \<open>A rule for what follows a program says as much about the program's own result: what follows may
  be a test that spoils the state.\<close>

lemma found:
  assumes rule: "\<And>k :: 'a \<Rightarrow> (world, unit) prog.
      (\<And>r M. N \<subseteq> M \<Longrightarrow> H r \<subseteq> M \<Longrightarrow> upholds True (good M) (k r)) \<Longrightarrow> upholds True (good N) (bindM m k)"
    and w: "good N w" and run: "m w = Some (Inr r, t)"
  shows "\<forall>y \<in> H r. has y t"
proof (rule ccontr)
  assume not: "\<not> (\<forall>y \<in> H r. has y t)"
  let ?k = "\<lambda>r w. if \<forall>y \<in> H r. has y w then Some (Inr (), w) else Some (Inr (), w\<lparr>w_rlist := [0, 0]\<rparr>)"
  have "upholds True (good N) (bindM m ?k)"
  proof (rule rule)
    show "upholds True (good M) (?k r)" if "N \<subseteq> M" "H r \<subseteq> M" for r M
      using that by (auto simp: upholds_def wp_def good_def)
  qed
  from upholdsD [OF this w] run not have "good N (t\<lparr>w_rlist := [0, 0]\<rparr>)" by (simp add: wp_def bindM_def)
  then show False by (simp add: good_def world_wf_def)
qed

text \<open>Nothing is caught outside the \<open>try\<close> of the read, so the program may be read as one sequence
  with a handler for the read alone.\<close>

lemma upholds_handle_timeout [good_rules]: "d \<or> INoPart \<in> N \<Longrightarrow> upholds d (good N) handle_timeout"
  unfolding handle_timeout_def by (rule good_rules) simp_all

lemma learn_try_read [learn_rules]:
  assumes cs: "d \<or> \<not> starved cs" and h: "\<And>e. upholds d (good N) (h e)"
    and none: "upholds d (good N) (k None)"
    and k: "\<And>r M. N \<subseteq> M \<Longrightarrow> header_items (fst r) \<subseteq> M \<Longrightarrow> upholds d (good M) (k (Some r))"
    and hn: "\<And>e w x t. h e w = Some (Inr x, t) \<Longrightarrow> x = None"
  shows "upholds d (good N) (bindM (tryM p (bindM (read_msg s cs) (\<lambda>m. retM (Some m))) h) k)"
proof (rule upholds_learn [where F = "\<lambda>x w. case x of None \<Rightarrow> True | Some r \<Rightarrow> \<forall>y \<in> header_items (fst r). has y w"])
  have rd: "upholds d (good N) (bindM (read_msg s cs) (\<lambda>m. retM (Some m)))"
    by (rule learn_read_msg [OF cs]) (rule keeps_intro)
  show "upholds d (good N) (tryM p (bindM (read_msg s cs) (\<lambda>m. retM (Some m))) h)"
    by (intro keeps_intro rd h)
  show "upholds d (\<lambda>w. good N w \<and> (case x of None \<Rightarrow> True | Some r \<Rightarrow> \<forall>y \<in> header_items (fst r). has y w)) (k x)" for x
  proof (cases x)
    case (Some r)
    from k [of "N \<union> header_items (fst r)" r] show ?thesis unfolding good_Un [abs_def] Some by simp
  qed (use none in simp)
  fix w x t assume w: "good N w" and run: "tryM p (bindM (read_msg s cs) (\<lambda>m. retM (Some m))) h w = Some (Inr x, t)"
  show "case x of None \<Rightarrow> True | Some r \<Rightarrow> \<forall>y \<in> header_items (fst r). has y t"
  proof (cases x)
    case (Some r)
    with run hn have r: "read_msg s cs w = Some (Inr r, t)"
      by (fastforce simp: tryM_def bindM_def retM_def split: option.splits sum.splits if_splits)
    have "\<forall>y \<in> header_items (fst r). has y t"
    proof (rule found [where H = "\<lambda>r. header_items (fst r)" and N = N and m = "read_msg s cs"])
      show "keeps (good N) (bindM (read_msg s cs) k)"
        if "\<And>r M. N \<subseteq> M \<Longrightarrow> header_items (fst r) \<subseteq> M \<Longrightarrow> keeps (good M) (k r)" for k :: "_ \<Rightarrow> (world, unit) prog"
        by (rule learn_read_msg) (use that in simp_all)
    qed (rule w r)+
    with Some show ?thesis by simp
  qed simp
qed

lemma upholds_case_ready [keeps_intro]:
  "(\<And>cs. r = Incoming cs \<Longrightarrow> upholds d I (m cs)) \<Longrightarrow> (\<And>c. r = Connection c \<Longrightarrow> upholds d I (k c)) \<Longrightarrow>
   upholds d I (case r of Incoming cs \<Rightarrow> m cs | Connection c \<Rightarrow> k c)"
  by (cases r) simp_all

lemma upholds_on_ready [good_rules]:
  "d \<or> INoPart \<in> N \<and> IEval \<in> N \<Longrightarrow> d \<or> readable ev \<Longrightarrow> upholds d (good N) (on_ready ev)"
  unfolding on_ready_def
  by (rule learn_rules good_rules keeps_intro | (auto simp: ref_simps readable_def starved_def split: ready.splits; fail)[1]
      | (auto simp: seqM_def bindM_def retM_def split: option.splits sum.splits; fail)[1])+

text \<open>A turn, and any number of turns.\<close>

lemma upholds_log_exc [good_rules]: "upholds d (good N) (log_exc b e)"
  unfolding log_exc_def by (rule learn_rules good_rules keeps_intro)+

lemma upholds_select_ready [good_rules]: "upholds d (good N) (select_ready evs)"
  unfolding select_ready_def by (rule keeps_intro)+

lemma learn_select_ready [learn_rules]:
  assumes "\<And>r. set r \<subseteq> set evs \<Longrightarrow> upholds d (good N) (k r)"
  shows "upholds d (good N) (bindM (select_ready evs) k)"
proof (rule upholds_value [OF _ _ assms])
  show "upholds d (good N) (select_ready evs)" by (rule good_rules)
  show "set r \<subseteq> set evs" if "select_ready evs w = Some (Inr r, t)" for w r t
    using that by (auto simp: select_ready_def run_simps bindM_def split: if_splits)
qed

lemma upholds_run_until_timeout [good_rules]:
  "d \<or> INoPart \<in> N \<and> IEval \<in> N \<Longrightarrow> d \<or> list_all readable evs \<Longrightarrow> upholds d (good N) (run_until_timeout b t evs)"
  unfolding run_until_timeout_def
  by (rule learn_rules good_rules keeps_intro | (auto simp: ref_simps list_all_iff; fail)[1])+

lemma upholds_run_turns [good_rules]: "d \<or> INoPart \<in> N \<and> IEval \<in> N \<Longrightarrow> d \<or> list_all (list_all readable) turns \<Longrightarrow> upholds d (good N) (run_turns b turns t)"
proof (induction turns arbitrary: t N)
  case (Cons evs turns)
  show ?case
    unfolding run_turns.simps
    by (insert Cons.prems) (rule learn_rules good_rules keeps_intro Cons.IH | (auto simp: ref_simps; fail)[1])+
qed (simp add: keeps_intro)

lemma upholds_run_forever [good_rules]: "d \<or> INoPart \<in> N \<and> IEval \<in> N \<Longrightarrow> d \<or> list_all (list_all readable) turns \<Longrightarrow> upholds d (good N) (run_forever b turns)"
  unfolding run_forever_def
  by (rule learn_rules good_rules keeps_intro | (auto simp: ref_simps; fail)[1])+

section \<open>The initial state\<close>

lemma world_wf_new: "world_wf (server_new c e)"
  by (simp add: world_wf_def server_new_def sock_of_def blank_sock_def sock_items_def
    heap_wf_def empty_heap_def)

end
