(* ===== verification/ServerSpec.thy ===== *)
theory ServerSpec
  imports LoopInv TreeSpec
begin

text \<open>
  Properties of the running server: what holds in every state that turns of the loop reach, when a
  turn returns, and what the handlers do with late, broken and repeated messages.
\<close>

section \<open>Runs\<close>

text \<open>The interface of a reactive system: events lead from state to state, and each keeps an invariant;
  a live system has an answer to every event of a kind.\<close>

locale reactive =
  fixes step :: "'e \<Rightarrow> 's \<Rightarrow> 's \<Rightarrow> bool" and inv :: "'s \<Rightarrow> bool"
  assumes step_inv: "inv s \<Longrightarrow> step e s t \<Longrightarrow> inv t"

locale live_reactive = reactive step inv
  for step :: "'e \<Rightarrow> 's \<Rightarrow> 's \<Rightarrow> bool" and inv :: "'s \<Rightarrow> bool" +
  fixes kind :: "'e \<Rightarrow> bool"
  assumes step_live: "inv s \<Longrightarrow> kind e \<Longrightarrow> \<exists>t. step e s t"

inductive runs :: "('e \<Rightarrow> 's \<Rightarrow> 's \<Rightarrow> bool) \<Rightarrow> 'e list \<Rightarrow> 's \<Rightarrow> 's \<Rightarrow> bool" for step where
  runs_nil: "runs step [] s s"
| runs_cons: "step e s t \<Longrightarrow> runs step es t u \<Longrightarrow> runs step (e # es) s u"

inductive_cases runs_consE: "runs step (e # es) s u"

context reactive
begin

lemma runs_inv: "runs step es s t \<Longrightarrow> inv s \<Longrightarrow> inv t"
  by (induction rule: runs.induct) (auto intro: step_inv)

end

context live_reactive
begin

lemma runs_live: "inv s \<Longrightarrow> list_all kind es \<Longrightarrow> \<exists>t. runs step es s t \<and> inv t"
proof (induction es arbitrary: s)
  case (Cons e es)
  then obtain t where t: "step e s t" using step_live [of s e] by auto
  with Cons.IH [of t] step_inv Cons.prems show ?case by (auto intro: runs_cons)
qed (auto intro: runs_nil)

end

text \<open>A turn of the loop, whatever it returns or raises.\<close>

type_synonym event = "bool \<times> (sid \<times> ready) list"

definition turn :: "event \<Rightarrow> world \<Rightarrow> world \<Rightarrow> bool" where
  "turn ev w w' = (\<exists>r. run_until_timeout (fst ev) TIMEOUT (snd ev) w = Some (r, w'))"

interpretation server: reactive turn world_wf
proof
  fix w ev w' assume "world_wf w" "turn ev w w'"
  then have "good {} w" "turn ev w w'" by (simp_all add: good_def)
  then show "world_wf w'"
    using keeps_run [OF upholds_run_until_timeout [of True "{}"]] by (auto simp: turn_def good_def)
qed

text \<open>Without partitioning, with evaluations that end and clients that do not stall.\<close>

interpretation static: live_reactive turn "good {INoPart, IEval}" "\<lambda>ev. list_all readable (snd ev)"
proof
  fix w ev assume w: "good {INoPart, IEval} w"
  show "good {INoPart, IEval} w'" if "turn ev w w'" for w'
    using that keeps_run [OF upholds_run_until_timeout [of True "{INoPart, IEval}"] w] by (auto simp: turn_def)
  assume "list_all readable (snd ev)"
  then have "returns (good {INoPart, IEval}) (run_until_timeout (fst ev) TIMEOUT (snd ev))"
    by (intro upholds_run_until_timeout) simp_all
  from returns_run [OF this w] show "\<exists>w'. turn ev w w'" by (force simp: turn_def)
qed

text \<open>The states that a server reaches.\<close>

definition reached :: "config \<Rightarrow> env \<Rightarrow> world \<Rightarrow> bool" where
  "reached c e w = (\<exists>evs. runs turn evs (server_new c e) w)"

text \<open>A small environment: a clock that ticks in seconds, nothing fails.\<close>

definition sample_env :: env where
  "sample_env = \<lparr>e_clock = (\<lambda>n. of_nat (Suc n)), e_fails = (\<lambda>_. False), e_peer = (\<lambda>c. Some (''10.0.0.1'', c)),
     e_local = (\<lambda>_. Some (''10.0.0.9'', 3000)), e_fileno = (\<lambda>c. c), e_traceback = (\<lambda>_. ''traceback''), e_show = (\<lambda>_. ''0.00''), e_str = (\<lambda>_. ''0''), e_eval = (\<lambda>_. Some (Inr ''None'')),
     e_view = (\<lambda>_ _. None), e_exists = (\<lambda>_. True)\<rparr>"

definition sample_conf :: config where
  "sample_conf = default_config (\<lambda>_. 0)"

text \<open>C3: In every state that the server reaches, every reference it keeps is valid: the node of a
  solver is an \<open>AndNode\<close> and the nodes it waits for are \<open>OrNode\<close>s of a well-formed tree, every instance
  has a root, and the current instance, the listed instances, the registered sockets and the idle
  solvers exist; no socket is registered twice.\<close>

theorem reached_states_are_consistent:
  assumes "reached c e w"
  shows "heap_wf (w_heap w) \<and> distinct (w_rlist w)
    \<and> (\<forall>s n. s_node (sock_of w s) = Some n \<longrightarrow> n < fresh (w_heap w) \<and> n_class (cell (w_heap w) n) = AndNode)
    \<and> (\<forall>s. \<forall>d \<in> set (s_or_waiting (sock_of w s)). d < fresh (w_heap w) \<and> n_class (cell (w_heap w) d) = OrNode)
    \<and> (\<forall>i. w_current w = Some i \<or> i \<in> snd ` set (w_trees w) \<longrightarrow>
        i_root (inst_of w i) < fresh (w_heap w) \<and> n_parent (cell (w_heap w) (i_root (inst_of w i))) = None)
    \<and> (\<forall>s \<in> set (w_rlist w) \<union> set (w_idle w). s < w_nsock w)"
proof -
  from assms world_wf_new server.runs_inv have wf: "world_wf w" unfolding reached_def by blast
  then show ?thesis
    by (auto simp: world_wf_def sock_items_def inst_items_def ball_Un)
qed

lemma sample_accept:
  "turn (False, [(0, Connection 7)]) (server_new sample_conf sample_env)
     (server_new sample_conf sample_env\<lparr>w_socks := [(0, blank_sock), (1, blank_sock\<lparr>s_conn := 7\<rparr>)],
        w_nsock := 2, w_rlist := [0, 1]\<rparr>)"
  by (simp add: turn_def run_until_timeout_def server_new_def sample_conf_def default_config_def TIMEOUT_def
      run_simps bindM_def seqM_def tryM_def select_ready_def sock_of_def blank_sock_def on_ready_def new_sock_def
      put_sock_def add_sock_def handle_accept_def get_conf_def get_sock_def numeral_2_eq_2)

theorem reached_states_are_consistent_witness:
  "\<exists>w. reached sample_conf sample_env w \<and> w_rlist w = [0, 1] \<and> heap_wf (w_heap w) \<and> distinct (w_rlist w)"
proof -
  let ?w = "server_new sample_conf sample_env\<lparr>w_socks := [(0, blank_sock), (1, blank_sock\<lparr>s_conn := 7\<rparr>)],
        w_nsock := 2, w_rlist := [0, 1]\<rparr>"
  have "reached sample_conf sample_env ?w"
    unfolding reached_def using sample_accept by (blast intro: runs_cons runs_nil)
  with reached_states_are_consistent [OF this] show ?thesis by (intro exI [of _ ?w]) simp
qed

text \<open>A message that stops halfway, at a socket that is read first.\<close>

lemma stalled_turn:
  assumes "s \<in> set (w_rlist w)" and "s \<noteq> w_listen w" and "\<forall>x \<in> set (w_rlist w). s_open (sock_of w x)"
    and "starved ars"
  shows "run_until_timeout b TIMEOUT ((s, Incoming ars) # evs) w = None"
proof -
  have "sock_read ars = None" using assms(4) sock_read_None by blast
  with assms(1-3) show ?thesis
    by (auto simp: run_until_timeout_def select_ready_def on_ready_def read_msg_def get_sock_def TIMEOUT_def
        run_simps bindM_def tryM_def seqM_def whenM_def list_all_iff)
qed

text \<open>C7: The loop never gets stuck by itself. With partitioning switched off every turn returns
  whatever the clients send, and so does \<open>run_forever\<close> for any sequence of turns, as long as no client
  stalls in the middle of a message and the expressions that clients have evaluated end. A client that
  stalls in the middle of a message (or sends nothing after the socket was reported ready) blocks the
  turn that reads it.\<close>

theorem turns_return:
  assumes "world_wf w" and "\<not> truthy (c_partition_timeout (w_conf w))"
    and "\<forall>x. e_eval (w_env w) x \<noteq> None"
    and "\<forall>ev \<in> set evs. list_all readable (snd ev)" and "\<forall>evs \<in> set turns. list_all readable evs"
  shows "(\<exists>w'. runs turn evs w w' \<and> world_wf w')
    \<and> (\<exists>r w'. run_forever b turns w = Some (r, w') \<and> world_wf w')
    \<and> (\<forall>s ars more w'. s \<in> set (w_rlist w) \<and> s \<noteq> w_listen w \<and> (\<forall>x \<in> set (w_rlist w). s_open (sock_of w x))
        \<and> starved ars \<longrightarrow> \<not> turn (b, (s, Incoming ars) # more) w w')"
proof -
  from assms(1-3) have w: "good {INoPart, IEval} w" by (simp add: good_def)
  have ret: "returns (good {INoPart, IEval}) (run_forever b turns)"
    using assms(5) by (intro upholds_run_forever) (simp_all add: list_all_iff)
  from static.runs_live [OF w, of evs] returns_run [OF ret w] assms(4) stalled_turn
  show ?thesis by (auto simp: good_def turn_def list_all_iff)
qed

theorem turns_return_witness:
  "(\<exists>r w'. run_forever False [[(0, Connection 7)], []] (server_new (sample_conf\<lparr>c_partition_timeout := None\<rparr>) sample_env)
     = Some (r, w') \<and> world_wf w')"
  using turns_return [OF world_wf_new, of "sample_conf\<lparr>c_partition_timeout := None\<rparr>" sample_env "[]"
      "[[(0, Connection 7)], []]" False]
  by (simp add: truthy_def server_new_def sample_env_def readable_def)

section \<open>A second lemma server\<close>

text \<open>A socket that is closed but still registered.\<close>

definition ghost :: "sid \<Rightarrow> world \<Rightarrow> bool" where
  "ghost l w = (l \<in> set (w_rlist w) \<and> \<not> s_open (sock_of w l) \<and> l < w_nsock w)"

named_theorems ghost_rules \<open>operations that leave a closed registered socket alone\<close>

lemma ghost_other:
  "w_rlist w' = w_rlist w \<Longrightarrow> sock_of w' = sock_of w \<Longrightarrow> w_nsock w' = w_nsock w \<Longrightarrow> ghost l w' = ghost l w"
  by (simp add: ghost_def)

lemma ghost_fields [ghost_rules]:
  "upholds d (ghost l) (modM (\<lambda>w. w\<lparr>w_sends := g1 w\<rparr>))" "upholds d (ghost l) (modM (\<lambda>w. w\<lparr>w_sent := g2 w\<rparr>))"
  "upholds d (ghost l) (modM (\<lambda>w. w\<lparr>w_output := g3 w\<rparr>))" "upholds d (ghost l) (modM (\<lambda>w. w\<lparr>w_vtree := g4 w\<rparr>))"
  by (rule upholds_modM, subst ghost_other; simp add: sock_of_def fun_eq_iff)+

lemma ghost_reads [ghost_rules]:
  "upholds d (ghost l) (get_sock s)" "upholds d (ghost l) (get_conf g)" "upholds d (ghost l) (solvers q)"
  "upholds d (ghost l) lemma_server" "upholds d (ghost l) (remote_address s)" "upholds d (ghost l) (decoded pl)"
  by (simp_all add: get_sock_def get_conf_def solvers_def lemma_server_def remote_address_def decoded_def
      upholds_simple upholds_readM)

lemma ghost_write_msg [ghost_rules]: "upholds d (ghost l) (write_msg s h p)"
  unfolding write_msg_def send_once_def by (rule keeps_intro ghost_rules)+

lemma ghost_remove_sock [ghost_rules]: "s \<noteq> l \<Longrightarrow> upholds d (ghost l) (remove_sock s)"
  unfolding remove_sock_def
  by (rule keeps_intro upholds_modM | (simp add: ghost_def sock_of_def; fail))+

lemma ghost_add_sock [ghost_rules]: "upholds d (ghost l) (add_sock s)"
  unfolding add_sock_def by (rule upholds_modM) (simp add: ghost_def sock_of_def)

lemma ghost_new_sock [ghost_rules]: "upholds d (ghost l) (new_sock x)"
  unfolding new_sock_def upholds_def by (simp add: wp_simps) (simp add: ghost_def sock_of_def put_sock_def update_conv)

lemma ghost_set_lemma_server [ghost_rules]: "upholds d (ghost l) (set_lemma_server s ls)"
  unfolding set_lemma_server_def by (rule keeps_intro ghost_rules)+

lemma ghost_lemma_server_new [ghost_rules]: "upholds d (ghost l) (lemma_server_new s a)"
  unfolding lemma_server_new_def lemma_init_def by (rule keeps_intro ghost_rules)+

lemma ghost_lemma_server_repr [ghost_rules]: "upholds d (ghost l) (lemma_server_repr s)"
  unfolding lemma_server_repr_def by (rule keeps_intro ghost_rules)+

lemma ghost_log_msg [ghost_rules]: "upholds d (ghost l) (log_msg k m a b)"
  unfolding log_msg_def emit_def by (rule keeps_intro ghost_rules)+

text \<open>\<open>select\<close> raises on it, so the turn does nothing but log.\<close>

lemma deaf_turn:
  assumes "ghost l w"
  shows "\<exists>out. run_until_timeout b t evs w = Some (Inr None, w\<lparr>w_output := out\<rparr>)"
proof -
  from assms have not: "\<not> list_all (\<lambda>s. s_open (sock_of w s)) (w_rlist w)" "w_rlist w \<noteq> []"
    by (auto simp: ghost_def list_all_iff)
  have "w\<lparr>w_output := w_output w\<rparr> = w" by simp
  then show ?thesis
    using not
    by (auto simp: run_until_timeout_def select_ready_def log_exc_def log_msg_def emit_def get_conf_def run_simps
        bindM_def tryM_def seqM_def is_Exception_def whenM_def intro: exI [of _ "w_output w"])
qed

lemma deaf_run:
  assumes "ghost l w"
  shows "runs turn evs w w' \<Longrightarrow> \<exists>out. w' = w\<lparr>w_output := out\<rparr>"
proof -
  have "runs turn evs u w' \<Longrightarrow> \<exists>out. u = w\<lparr>w_output := out\<rparr> \<Longrightarrow> \<exists>out. w' = w\<lparr>w_output := out\<rparr>" for u
  proof (induction evs arbitrary: u)
    case Nil
    then show ?case by (auto elim: runs.cases)
  next
    case (Cons ev evs)
    from Cons.prems(1) obtain v where v: "turn ev u v" "runs turn evs v w'" by (auto elim: runs_consE)
    from Cons.prems(2) have "ghost l u" using assms by (auto simp: ghost_def sock_of_def)
    with v(1) deaf_turn [OF this, of "fst ev" TIMEOUT "snd ev"] obtain out where "v = u\<lparr>w_output := out\<rparr>"
      by (auto simp: turn_def)
    with Cons.prems(2) have "\<exists>out. v = w\<lparr>w_output := out\<rparr>" by auto
    from Cons.IH [OF v(2) this] show ?case .
  qed
  moreover have "w = w\<lparr>w_output := w_output w\<rparr>" by simp
  ultimately show "runs turn evs w w' \<Longrightarrow> \<exists>out. w' = w\<lparr>w_output := out\<rparr>" by blast
qed

text \<open>C19: A second lemma server makes the server deaf. When a socket other than the lemma server's
  registers as one, with an address of either form (\<open>":port"\<close>, which is completed with the peer's address, as
  the repository's lemma server sends it, or a full one), the old one is closed but stays in \<open>_rlist\<close>;
  however the handler goes on, no later turn does anything but log the exception that \<open>select\<close>
  raises on the closed socket.\<close>

theorem second_lemma_server_deafens:
  assumes wf: "world_wf w" and l: "filter (\<lambda>s. s_class (sock_of w s) = LemmaC) (w_rlist w) = l # ls"
    and op: "s_open (sock_of w l)" and sock: "sock \<noteq> l" and adr: "adr \<noteq> []"
      "hd adr = CHR '':'' \<longrightarrow> s_open (sock_of w sock) \<and> e_peer (w_env w) (s_conn (sock_of w sock)) \<noteq> None"
    and run: "handle_lemmas sock adr payload w = Some (r, w1)" and later: "runs turn evs w1 w2"
  shows "l \<in> set (w_rlist w1) \<and> \<not> s_open (sock_of w1 l) \<and> (\<exists>out. w2 = w1\<lparr>w_output := out\<rparr>)"
proof -
  have l_in: "l \<in> set (w_rlist w)" using l by (metis filter_Cons_in)
  then have lt: "l < w_nsock w" using wf by (auto simp: world_wf_def)
  let ?w = "put_sock l (sock_of w l\<lparr>s_open := False\<rparr>) w"
  have close: "close_sock l w = Some (Inr (), ?w)"
    using op by (simp add: close_sock_def get_sock_def set_sock_def run_simps bindM_def)
  have g: "ghost l ?w" using l_in lt by (simp add: ghost_def)
  define rest where "rest a = seqM (remove_sock sock) (bindM (lemma_server_new sock a) (\<lambda>l.
      bindM (get_conf c_enableLog) (\<lambda>el.
      seqM (whenM el (bindM (lemma_server_repr l) (\<lambda>lr. bindM (decoded payload) (\<lambda>_.
         log_msg INFO (''new '' @ lr) None None))))
      (seqM (add_sock l) (bindM (solvers AllSolvers) (forM (\<lambda>s. set_lemma_server s (Some l))))))))" for a
  have keep: "keeps (ghost l) (rest a)" for a
    unfolding rest_def by (insert sock) (rule keeps_intro ghost_rules | assumption)+
  define get where "get = (case adr of [] \<Rightarrow> raiseM IndexError
       | c # _ \<Rightarrow> (if c = CHR '':'' then bindM (remote_address sock) (\<lambda>a. case a of
              None \<Rightarrow> raiseM TypeError | Some (ip, _) \<Rightarrow> retM (ip @ adr))
            else retM adr))"
  have hl: "handle_lemmas sock adr payload
      = bindM get (\<lambda>a. bindM lemma_server (\<lambda>old. seqM (case old of None \<Rightarrow> retM () | Some l \<Rightarrow> close_sock l) (rest a)))"
    unfolding handle_lemmas_def rest_def get_def ..
  have "\<exists>a. get w = Some (Inr a, w)"
    using adr by (cases adr) (auto simp: get_def remote_address_def run_simps bindM_def)
  then obtain a where a: "get w = Some (Inr a, w)" ..
  have ls: "lemma_server w = Some (Inr (Some l), w)" using l by (simp add: lemma_server_def getM_def)
  have "rest a ?w = Some (r, w1)"
    using run by (simp only: hl bindM_def seqM_def a ls close option.case prod.case sum.case)
  from keeps_run [OF keep g this] have "ghost l w1" .
  with deaf_run [OF this later] show ?thesis unfolding ghost_def by blast
qed

text \<open>Two lemma servers register with the sample server: the second one makes it deaf.\<close>

definition lemma_world :: world where
  "lemma_world = (server_new (sample_conf\<lparr>c_enableLog := False\<rparr>) sample_env)\<lparr>
     w_socks := [(0, blank_sock), (1, blank_sock\<lparr>s_class := LemmaC, s_conn := 1, s_listening := ''h:1''\<rparr>),
       (2, blank_sock\<lparr>s_conn := 2\<rparr>)], w_nsock := 3, w_rlist := [0, 1, 2]\<rparr>"

theorem second_lemma_server_deafens_witness:
  "\<exists>r w1. handle_lemmas 2 '':9000'' [] lemma_world = Some (r, w1)
     \<and> (\<forall>evs w2. runs turn evs w1 w2 \<longrightarrow> (\<exists>out. w2 = w1\<lparr>w_output := out\<rparr>))"
proof -
  have wf: "world_wf lemma_world"
    by (simp add: world_wf_def lemma_world_def server_new_def sock_of_def blank_sock_def sock_items_def heap_wf_empty)
  have l: "filter (\<lambda>s. s_class (sock_of lemma_world s) = LemmaC) (w_rlist lemma_world) = [1]"
    and op: "s_open (sock_of lemma_world 1)"
    and peer: "s_open (sock_of lemma_world 2) \<and> e_peer (w_env lemma_world) (s_conn (sock_of lemma_world 2)) \<noteq> None"
    by (simp_all add: lemma_world_def sock_of_def blank_sock_def server_new_def sample_env_def)
  have "returns (good {}) (handle_lemmas 2 '':9000'' [])" by (rule upholds_handle_lemmas)
  from returns_run [OF this, of lemma_world] wf obtain r w1
    where run: "handle_lemmas 2 '':9000'' [] lemma_world = Some (r, w1)" by (auto simp: good_def)
  from second_lemma_server_deafens [OF wf l op _ _ _ run] run peer show ?thesis by auto
qed

end
