(* ===== verification/ReportSpec.thy ===== *)
theory ReportSpec
  imports ServerSpec
begin

text \<open>
  Properties of the handlers: which reports count, what an error report does, what closing does, and
  how the loop goes on after a failure.
\<close>

lemmas run_defs = get_sock_def get_node_def get_inst_def get_conf_def read_heap_def readM_def bindM_def seqM_def
  run_simps emit_def log_msg_def set_inst_def set_sock_def set_conf_def

lemma of_other [simp]:
  "inst_of (w\<lparr>w_output := x\<rparr>) = inst_of w" "sock_of (w\<lparr>w_output := x\<rparr>) = sock_of w"
  "inst_of (w\<lparr>w_heap := h\<rparr>) = inst_of w" "sock_of (w\<lparr>w_heap := h\<rparr>) = sock_of w"
  "inst_of (w\<lparr>w_rlist := r\<rparr>) = inst_of w" "sock_of (w\<lparr>w_rlist := r\<rparr>) = sock_of w"
  "inst_of (w\<lparr>w_conf := c\<rparr>) = inst_of w" "sock_of (w\<lparr>w_conf := c\<rparr>) = sock_of w"
  "inst_of (w\<lparr>w_ticks := k\<rparr>) = inst_of w" "sock_of (w\<lparr>w_ticks := k\<rparr>) = sock_of w"
  "inst_of (w\<lparr>w_sends := k\<rparr>) = inst_of w" "sock_of (w\<lparr>w_sends := k\<rparr>) = sock_of w"
  "inst_of (w\<lparr>w_sent := m\<rparr>) = inst_of w" "sock_of (w\<lparr>w_sent := m\<rparr>) = sock_of w"
  by (simp_all add: inst_of_def sock_of_def fun_eq_iff)

section \<open>Reports\<close>

text \<open>C21: A late report is dropped. A report for another instance, or for another node of the tree than
  the one the solver has been moved to, changes nothing: \<open>read\<close> gives the empty header, and the
  handler returns at once.\<close>

theorem stale_report_is_dropped:
  assumes "s_node (sock_of w s) = Some n" and "path n (w_heap w) = Some (Inr p)"
    and "\<not> c_debug (w_conf w)" and "map_of fs NAME = Some name" and "map_of fs NODE = Some node"
    and "n_name (cell (w_heap w) (n_root (cell (w_heap w) n))) \<noteq> name \<or> show_path p \<noteq> node"
  shows "solver_read s fs payload w = Some (Inr ([], []), w)
    \<and> (s_class (sock_of w s) = SolverC \<and> \<not> c_enableLog (w_conf w) \<longrightarrow> handle_message s [] [] w = Some (Inr (), w))"
proof (intro conjI impI)
  show "solver_read s fs payload w = Some (Inr ([], []), w)"
    using assms by (cases "map_of fs REPORT") (auto simp: solver_read_def run_defs Let_def)
  assume "s_class (sock_of w s) = SolverC \<and> \<not> c_enableLog (w_conf w)"
  then show "handle_message s [] [] w = Some (Inr (), w)"
    by (simp add: handle_message_def handle_solver_def run_defs)
qed

text \<open>A server with the sample tree, an instance on it and a solver at node \<open>2\<close>.\<close>

definition tree_world :: world where
  "tree_world = (server_new sample_conf sample_env)\<lparr>w_heap := sample,
     w_socks := [(0, blank_sock), (2, blank_sock\<lparr>s_class := SolverC, s_conn := 2, s_name := ''OpenSMT2'',
        s_node := Some 2, s_started := Some 1\<rparr>)], w_nsock := 3, w_rlist := [0, 2],
     w_insts := [(0, \<lparr>i_root = 0, i_started = Some 1, i_timeout = Some 100\<rparr>)], w_ninst := 1,
     w_trees := [(''f'', 0)], w_current := Some 0, w_total := 1\<rparr>"

lemma tree_world_simps [simp]:
  "w_heap tree_world = sample" "w_conf tree_world = sample_conf" "w_rlist tree_world = [0, 2]"
  "s_node (sock_of tree_world 2) = Some 2" "s_class (sock_of tree_world 2) = SolverC"
  "s_or_waiting (sock_of tree_world 2) = []" "s_open (sock_of tree_world 2)"
  "w_current tree_world = Some 0" "inst_of tree_world 0 = \<lparr>i_root = 0, i_started = Some 1, i_timeout = Some 100\<rparr>"
  "w_env tree_world = sample_env" "w_listen tree_world = 0" "w_nsock tree_world = 3" "w_ninst tree_world = 1"
  "w_trees tree_world = [(''f'', 0)]" "w_idle tree_world = []"
  by (simp_all add: tree_world_def server_new_def sock_of_def inst_of_def blank_sock_def)

lemma sample_conf_simps [simp]:
  "\<not> c_debug sample_conf" "\<not> c_enableLog sample_conf" "\<not> c_visualize_tree sample_conf"
  "c_partition_policy sample_conf = [1, 2]" "c_portfolio_min sample_conf = 1"
  by (simp_all add: sample_conf_def default_config_def)

lemma tree_world_wf: "world_wf tree_world"
proof -
  have so: "sock_of tree_world = (\<lambda>_. blank_sock)(0 := blank_sock, 2 := blank_sock\<lparr>s_class := SolverC, s_conn := 2,
      s_name := ''OpenSMT2'', s_node := Some 2, s_started := Some 1\<rparr>)"
    by (auto simp: tree_world_def sock_of_def fun_eq_iff)
  show ?thesis by (simp add: world_wf_def so sock_items_def inst_items_def blank_sock_def)
qed

theorem stale_report_is_dropped_witness:
  "solver_read 2 [(''report'', ''unsat''), (''name'', ''f''), (''node'', ''[0, 1]'')] [] tree_world = Some (Inr ([], []), tree_world)"
proof -
  have p: "path 2 (w_heap tree_world) = Some (Inr [0, 0])" by code_simp
  show ?thesis
    using stale_report_is_dropped [of tree_world 2 2 "[0, 0]" "[(''report'', ''unsat''), (''name'', ''f''), (''node'', ''[0, 1]'')]" "''f''" "''[0, 1]''" "[]"] p
    by (simp add: show_path_def show_nat.simps digit_def)
qed

text \<open>C22: An error report of a solver does not end the server: the timeout of the current instance is
  set to zero and a line is printed, but \<open>exit(1)\<close> is caught by the bare \<open>except\<close> around it. The same
  report of the lemma server does end the process.\<close>

theorem error_report_is_swallowed:
  assumes "split_report report = Inr (ERROR, m)" and "w_current w = Some i"
    and "\<not> c_enableLog (w_conf w)" and "\<not> c_visualize_tree (w_conf w)"
  shows "(let w1 = put_inst i ((inst_of w i)\<lparr>i_timeout := Some 0\<rparr>) w;
       name = n_name (cell (w_heap w) (i_root (inst_of w i))) in
       solver_report s report header payload w
         = Some (Inr (), w1\<lparr>w_output := w_output w @ [Printed ['';error '', m, name]]\<rparr>))
    \<and> lemma_report report w = Some (Inl SystemExit, w\<lparr>w_output := w_output w @ [Printed ['';error '', m]]\<rparr>)"
proof
  show "lemma_report report w = Some (Inl SystemExit, w\<lparr>w_output := w_output w @ [Printed ['';error '', m]]\<rparr>)"
    using assms(1) by (simp add: lemma_report_def run_defs)
  have conf: "w_conf (put_inst i x w) = w_conf w" for x by simp
  show "let w1 = put_inst i ((inst_of w i)\<lparr>i_timeout := Some 0\<rparr>) w;
       name = n_name (cell (w_heap w) (i_root (inst_of w i))) in
       solver_report s report header payload w
         = Some (Inr (), w1\<lparr>w_output := w_output w @ [Printed ['';error '', m, name]]\<rparr>)"
    using assms by (simp add: solver_report_def run_defs tryM_def Let_def any_exc_def)
qed

theorem error_report_is_swallowed_witness:
  "split_report ''error:out of memory'' = Inr (ERROR, ''out of memory'')
   \<and> (\<exists>w'. solver_report 2 ''error:out of memory'' [] [] tree_world = Some (Inr (), w') \<and> i_timeout (inst_of w' 0) = Some 0)"
proof -
  have r: "split_report ''error:out of memory'' = Inr (ERROR, ''out of memory'')" by code_simp
  from error_report_is_swallowed [OF r, of tree_world 0 2 "[]" "[]"]
  have "\<exists>w'. solver_report 2 ''error:out of memory'' [] [] tree_world = Some (Inr (), w') \<and> i_timeout (inst_of w' 0) = Some 0"
    by (auto simp: Let_def)
  with r show ?thesis by simp
qed

text \<open>What is below an unsatisfiable node is unsatisfiable.\<close>

lemma meaning_below:
  "anc h n m \<Longrightarrow> heap_wf h \<Longrightarrow> m < fresh h \<Longrightarrow> tree_meaning h T \<Longrightarrow> T m \<Longrightarrow> T n"
proof (induction rule: anc.induct)
  case (up b p)
  then have "T p" by (auto simp: tree_meaning_def split: if_splits)
  with up heap_wf_parent [OF up.prems(1,2) up.hyps(1)] show ?case by simp
qed

lemma on_heap_set_status:
  assumes "set_status n st (w_heap w) = Some (Inr (), h')"
  shows "wp d (on_heap (set_status n st)) Q E w = Q () (w\<lparr>w_heap := h'\<rparr>)"
  using assms by (simp add: wp_def on_heap_def)

lemma wp_get_node: "wp d (get_node m) Q E = (\<lambda>w. Q (cell (w_heap w) m) w)"
  by (simp add: get_node_def wp_simps)

lemma wp_close_below:
  assumes wf: "heap_wf (w_heap w)" and n: "n < fresh (w_heap w)" "attached (w_heap w) n"
    and J: "n_status (cell (w_heap w) n) = Unsat" and P: "P \<Longrightarrow> tree_meaning (w_heap w) T \<and> truthful (w_heap w) T \<and> \<not> T n"
  shows "wp False (close_below n) (\<lambda>_ t. status_change (w_heap w) (w_heap t) \<and> n_status (cell (w_heap t) n) = Unsat
      \<and> (\<forall>m. attached (w_heap w) m \<and> m < fresh (w_heap w) \<and> anc (w_heap w) n m \<and> n_class (cell (w_heap w) m) = AndNode
           \<longrightarrow> n_status (cell (w_heap t) m) \<noteq> Unknown)
      \<and> (P \<longrightarrow> truthful (w_heap t) T)) (\<lambda>_ _. False) w"
proof -
  let ?h = "w_heap w"
  obtain ms where ms: "all_nodes n ?h = Some (Inr ms)" "set ms = {m. m < fresh ?h \<and> attached ?h m \<and> anc ?h n m}"
    using all_nodes_attached [OF wf n] by metis
  let ?J = "\<lambda>xs t. set xs \<subseteq> set ms \<and> status_change ?h (w_heap t) \<and> n_status (cell (w_heap t) n) = Unsat
      \<and> (\<forall>m \<in> set ms - set xs. n_class (cell ?h m) = AndNode \<longrightarrow> n_status (cell (w_heap t) m) \<noteq> Unknown)
      \<and> (P \<longrightarrow> truthful (w_heap t) T)"
  have step: "wp False (bindM (get_node x) (\<lambda>y. whenM (n_status y = Unknown \<and> n_class y = AndNode) (on_heap (set_status x Unsat))))
      (\<lambda>_. ?J xs) (\<lambda>_ _. False) t" if Jt: "?J (x # xs) t" for x xs t
  proof (cases "n_status (cell (w_heap t) x) = Unknown \<and> n_class (cell (w_heap t) x) = AndNode")
    case False
    have "n_class (cell (w_heap t) m) = n_class (cell ?h m)" for m
      by (rule status_change_cell(2)) (use Jt in blast)
    with False Jt show ?thesis by (simp add: wp_simps wp_get_node) blast
  next
    case True
    let ?t = "w_heap t"
    have x: "x < fresh ?h" "anc ?h n x" using Jt ms(2) by auto
    have sc: "status_change ?h ?t" using Jt by simp
    have wft: "heap_wf ?t" using same_shape_wf [OF status_change_shape [OF sc]] wf by blast
    have xt: "x < fresh ?t" using x status_change_cell(1) [OF sc] by simp
    obtain h' where h': "set_status x Unsat ?t = Some (Inr (), h')" "status_change ?t h'" "n_status (cell h' x) = Unsat"
      "\<And>m. n_status (cell h' m) \<in> {n_status (cell ?t m), Unsat}" using set_status_returns [OF wft xt] by metis
    have "truthful h' T" if P
    proof -
      have "\<not> T x" using meaning_below [OF x(2) wf x(1)] P [OF that] by blast
      moreover have "tree_meaning ?t T" using tree_meaning_shape [OF status_change_shape [OF sc]] P [OF that] by blast
      ultimately show ?thesis
        using set_status_truthful [OF wft xt, of Unsat T] h'(1) Jt that by (auto simp: fits_def)
    qed
    moreover have "n_status (cell h' m) \<noteq> Unknown" if "n_status (cell ?t m) \<noteq> Unknown \<or> m = x" for m
      using that h'(3) h'(4) [of m] by auto
    moreover have "n_status (cell h' n) = Unsat" using h'(4) [of n] Jt by auto
    ultimately have "?J xs (t\<lparr>w_heap := h'\<rparr>)"
      using Jt status_change_trans [OF sc h'(2)] by auto
    with True show ?thesis by (simp add: wp_simps wp_get_node on_heap_set_status [OF h'(1)])
  qed
  have "?J ms w" using J P by auto
  with ms show ?thesis
    unfolding close_below_def read_heap_def
    by (simp only: wp_simps option.case sum.case) (rule wp_forM [where J = ?J], rule step, auto)
qed

text \<open>A status report sets the status of the node and, below an \<open>unsat\<close> node, closes what is open.\<close>

lemma read_status_run:
  assumes wf: "heap_wf (w_heap w)" and n: "n < fresh (w_heap w)" "attached (w_heap w) n"
  shows "\<exists>w'. read_status s n st w = Some (Inr (), w') \<and> n_status (cell (w_heap w') n) = st
    \<and> status_change (w_heap w) (w_heap w')
    \<and> (st = Unsat \<longrightarrow> (\<forall>m. attached (w_heap w) m \<and> m < fresh (w_heap w) \<and> anc (w_heap w) n m
         \<and> n_class (cell (w_heap w) m) = AndNode \<longrightarrow> n_status (cell (w_heap w') m) \<noteq> Unknown))"
proof -
  obtain h' where h': "set_status n st (w_heap w) = Some (Inr (), h')" "status_change (w_heap w) h'"
      "n_status (cell h' n) = st" "heap_wf h'" using set_status_returns [OF wf n(1), of st] by metis
  let ?w = "put_sock s ((sock_of w s)\<lparr>s_or_waiting := butlast (s_or_waiting (sock_of w s))\<rparr>) w"
  let ?w1 = "?w\<lparr>w_heap := h'\<rparr>"
  obtain ns where ns: "path_nodes_loop n [] (w_heap w) = Some ns"
    using path_nodes_total [OF wf n(1)] by (auto simp: path_nodes_def)
  have run: "read_status s n st w = whenM (st = Unsat) (close_below n) ?w1"
    using ns h'(1) by (simp add: read_status_def set_sock_def read_heap_def readM_def path_nodes_def on_heap_def
      bindM_def seqM_def run_simps)
  show ?thesis
  proof (cases "st = Unsat")
    case False
    with run h' show ?thesis by (simp add: whenM_def run_simps)
  next
    case True
    note sh = status_change_shape [OF h'(2)] same_shape_anc_iff same_shape_attached_iff
    have "wp False (close_below n) (\<lambda>_ t. status_change (w_heap ?w1) (w_heap t) \<and> n_status (cell (w_heap t) n) = Unsat
        \<and> (\<forall>m. attached (w_heap ?w1) m \<and> m < fresh (w_heap ?w1) \<and> anc (w_heap ?w1) n m \<and> n_class (cell (w_heap ?w1) m) = AndNode
             \<longrightarrow> n_status (cell (w_heap t) m) \<noteq> Unknown)
        \<and> (False \<longrightarrow> truthful (w_heap t) undefined)) (\<lambda>_ _. False) ?w1"
      using h' n True sh status_change_cell [OF h'(2)] by (intro wp_close_below) auto
    then obtain w' where "close_below n ?w1 = Some (Inr (), w')" "status_change h' (w_heap w')" "n_status (cell (w_heap w') n) = Unsat"
      "\<And>m. attached (w_heap w) m \<and> m < fresh (w_heap w) \<and> anc (w_heap w) n m \<and> n_class (cell (w_heap w) m) = AndNode
         \<longrightarrow> n_status (cell (w_heap w') m) \<noteq> Unknown"
      using sh status_change_cell [OF h'(2)] by (auto elim!: wp_total)
    with True run status_change_trans [OF h'(2)] show ?thesis by (auto simp: whenM_def)
  qed
qed

text \<open>C11: An \<open>unsat\<close> report closes everything below the node: afterwards the node is \<open>unsat\<close> and no
  partition below it that is still in the tree is open; when the report is true, so are all the
  statuses that were set.\<close>

theorem unsat_report_closes_subtree:
  assumes wf: "heap_wf (w_heap w)" and n: "n < fresh (w_heap w)" "attached (w_heap w) n"
    and T: "tree_meaning (w_heap w) T" "truthful (w_heap w) T" "\<not> T n"
  shows "\<exists>w'. read_status s n Unsat w = Some (Inr (), w') \<and> n_status (cell (w_heap w') n) = Unsat
    \<and> (\<forall>m. attached (w_heap w) m \<and> m < fresh (w_heap w) \<and> anc (w_heap w) n m \<and> n_class (cell (w_heap w) m) = AndNode
         \<longrightarrow> n_status (cell (w_heap w') m) \<noteq> Unknown)
    \<and> truthful (w_heap w') T"
proof -
  obtain h' where h': "set_status n Unsat (w_heap w) = Some (Inr (), h')" "status_change (w_heap w) h'"
      "n_status (cell h' n) = Unsat" "heap_wf h'" using set_status_returns [OF wf n(1), of Unsat] by metis
  have tr: "truthful h' T" "tree_meaning h' T"
    using set_status_truthful [OF wf n(1), of Unsat T] h'(1) T tree_meaning_shape [OF status_change_shape [OF h'(2)]]
    by (auto simp: fits_def)
  let ?w = "put_sock s ((sock_of w s)\<lparr>s_or_waiting := butlast (s_or_waiting (sock_of w s))\<rparr>) w"
  let ?w1 = "?w\<lparr>w_heap := h'\<rparr>"
  note sh = status_change_shape [OF h'(2)] same_shape_anc_iff same_shape_attached_iff
  have "wp False (close_below n) (\<lambda>_ t. status_change (w_heap ?w1) (w_heap t) \<and> n_status (cell (w_heap t) n) = Unsat
      \<and> (\<forall>m. attached (w_heap ?w1) m \<and> m < fresh (w_heap ?w1) \<and> anc (w_heap ?w1) n m \<and> n_class (cell (w_heap ?w1) m) = AndNode
           \<longrightarrow> n_status (cell (w_heap t) m) \<noteq> Unknown)
      \<and> (True \<longrightarrow> truthful (w_heap t) T)) (\<lambda>_ _. False) ?w1"
    using h' n tr T(3) sh status_change_cell [OF h'(2)] by (intro wp_close_below) auto
  then obtain w' where close: "close_below n ?w1 = Some (Inr (), w')" and w':
    "n_status (cell (w_heap w') n) = Unsat" "truthful (w_heap w') T"
    "\<And>m. attached (w_heap w) m \<and> m < fresh (w_heap w) \<and> anc (w_heap w) n m \<and> n_class (cell (w_heap w) m) = AndNode
       \<longrightarrow> n_status (cell (w_heap w') m) \<noteq> Unknown"
    using sh status_change_cell [OF h'(2)] by (auto elim!: wp_total)
  obtain ns where "path_nodes_loop n [] (w_heap w) = Some ns"
    using path_nodes_total [OF wf n(1)] by (auto simp: path_nodes_def)
  then have "read_status s n Unsat w = Some (Inr (), w')"
    using h'(1) close by (simp add: read_status_def set_sock_def read_heap_def readM_def path_nodes_def on_heap_def
      bindM_def seqM_def run_simps)
  with w' show ?thesis by blast
qed

theorem unsat_report_closes_subtree_witness:
  "\<exists>w'. read_status 2 0 Unsat tree_world = Some (Inr (), w') \<and> n_status (cell (w_heap w') 0) = Unsat
     \<and> truthful (w_heap w') (\<lambda>_. False)"
proof -
  have "tree_meaning sample (\<lambda>_. False)" by (simp add: tree_meaning_def)
  moreover have "truthful sample (\<lambda>_. False)"
  proof -
    have "n_status (cell sample n) = Unknown" for n
    proof -
      have "list_all (\<lambda>x. n_status (snd x) = Unknown) (cells sample)" by code_simp
      then show ?thesis by (rule cell_cases) simp
    qed
    then show ?thesis by (simp add: truthful_def fits_def)
  qed
  ultimately show ?thesis using unsat_report_closes_subtree [of tree_world 0 "\<lambda>_. False" 2] by auto
qed

end
