(* ===== verification/MoveSpec.thy ===== *)
theory MoveSpec
  imports ReportSpec
begin

text \<open>
  The loops of \<open>entrust\<close> that move solvers in the tree (\<open>place_movable\<close>, \<open>place_solved\<close>) go over the
  same nodes again and again until every solver has been placed. A locale for such loops says when
  they end; the two loops of \<open>server/schedular.py\<close> are its interpretations.
\<close>

section \<open>Dealing out until nothing is left\<close>

lemma wp_returns: "wp False m Q E s \<Longrightarrow> m s \<noteq> None"
  by (cases "m s") (auto simp: wp_def)

text \<open>Each \<open>c\<close> of \<open>cs\<close> in turn takes one element of the list, or none; whether it does is decided from
  the start (\<open>takes c\<close>).\<close>

locale dealing =
  fixes give :: "'c \<Rightarrow> 'x list \<Rightarrow> ('s, 'x list) prog" and cs :: "'c list"
    and body :: "'x list \<Rightarrow> ('s, 'x list) prog" and ok :: "'s \<Rightarrow> bool" and takes :: "'c \<Rightarrow> bool"
  assumes body_round: "ok s \<Longrightarrow> body xs s = foldM give cs xs s"
    and keep: "ok s \<Longrightarrow> c \<in> set cs \<Longrightarrow> \<not> takes c \<or> xs = [] \<Longrightarrow> \<exists>s'. give c xs s = Some (Inr xs, s') \<and> ok s'"
    and deal: "ok s \<Longrightarrow> c \<in> set cs \<Longrightarrow> takes c \<Longrightarrow> wp False (give c (x # xs)) (\<lambda>ys t. ys = xs \<and> ok t) (\<lambda>_ _. True) s"
begin

lemma round_keep:
  "ok s \<Longrightarrow> set ds \<subseteq> set cs \<Longrightarrow> \<forall>c \<in> set ds. \<not> takes c \<Longrightarrow> \<exists>s'. foldM give ds xs s = Some (Inr xs, s') \<and> ok s'"
proof (induction ds arbitrary: s)
  case (Cons d ds)
  then obtain s1 where "give d xs s = Some (Inr xs, s1)" "ok s1" using keep [of s d xs] by auto
  with Cons show ?case by (auto simp: bindM_def)
qed (simp add: run_simps)

lemma give_wp:
  assumes "ok s" "c \<in> set cs"
  shows "wp False (give c xs) (\<lambda>ys t. ok t \<and> ys = (if takes c then tl xs else xs)) (\<lambda>_ _. True) s"
proof (cases "takes c \<and> xs \<noteq> []")
  case True
  then obtain x xs' where "xs = x # xs'" by (cases xs) auto
  with deal [of s c x xs'] assms True show ?thesis by (auto elim: wp_mono)
next
  case False
  with keep [of s c xs] assms obtain s' where "give c xs s = Some (Inr xs, s')" "ok s'" by auto
  with False show ?thesis by (auto simp: wp_def)
qed

lemma round_deal:
  "ok s \<Longrightarrow> set ds \<subseteq> set cs \<Longrightarrow>
   wp False (foldM give ds xs) (\<lambda>ys t. ok t \<and> ys = drop (length (filter takes ds)) xs) (\<lambda>_ _. True) s"
proof (induction ds arbitrary: s xs)
  case (Cons d ds)
  then have "wp False (give d xs) (\<lambda>ys t. ok t \<and> ys = (if takes d then tl xs else xs)) (\<lambda>_ _. True) s"
    using give_wp by simp
  then show ?case
    unfolding foldM.simps wp_bindM
  proof (rule wp_mono)
    fix ys t assume t: "ok t \<and> ys = (if takes d then tl xs else xs)"
    then have "wp False (foldM give ds ys) (\<lambda>zs u. ok u \<and> zs = drop (length (filter takes ds)) ys) (\<lambda>_ _. True) t"
      using Cons by simp
    then show "wp False (foldM give ds ys) (\<lambda>zs u. ok u \<and> zs = drop (length (filter takes (d # ds))) xs) (\<lambda>_ _. True) t"
      by (rule wp_mono) (use t in \<open>simp_all add: drop_Suc drop_tl\<close>)
  qed simp_all
qed (simp add: wp_simps)

lemma returns_iff:
  assumes "ok s"
  shows "whileM (\<lambda>xs. xs \<noteq> []) body xs s \<noteq> None \<longleftrightarrow> xs = [] \<or> (\<exists>c \<in> set cs. takes c)"
proof
  assume ret: "whileM (\<lambda>xs. xs \<noteq> []) body xs s \<noteq> None"
  show "xs = [] \<or> (\<exists>c \<in> set cs. takes c)"
  proof (rule ccontr)
    assume stuck: "\<not> (xs = [] \<or> (\<exists>c \<in> set cs. takes c))"
    have "whileM (\<lambda>xs. xs \<noteq> []) body xs s = None"
      using round_keep body_round assms stuck
      by (intro whileM_diverges [where J = "\<lambda>ys t. ys = xs \<and> ok t"]) auto
    with ret show False ..
  qed
next
  assume some: "xs = [] \<or> (\<exists>c \<in> set cs. takes c)"
  have "wp False (whileM (\<lambda>xs. xs \<noteq> []) body xs) (\<lambda>_ _. True) (\<lambda>_ _. True) s" if "xs = []"
    using that by (simp add: wp_def whileM_stop)
  moreover have "wp False (whileM (\<lambda>xs. xs \<noteq> []) body xs) (\<lambda>_ _. True) (\<lambda>_ _. True) s" if "\<exists>c \<in> set cs. takes c"
  proof (rule wp_whileM_total [where J = "\<lambda>_. ok" and meas = "\<lambda>ys _. length ys"])
    fix ys t assume t: "ok t" "ys \<noteq> ([] :: 'x list)"
    from that have "filter takes cs \<noteq> []" by (simp add: filter_empty_conv)
    with t(2) have less: "length ys - length (filter takes cs) < length ys" by simp
    have "wp False (body ys) Q E t = wp False (foldM give cs ys) Q E t" for Q E
      using body_round [OF t(1)] by (simp add: wp_def)
    with round_deal [OF t(1), of cs ys] less show "wp False (body ys) (\<lambda>l' s'. ok s' \<and> length l' < length ys) (\<lambda>_ _. True) t"
      by (auto elim: wp_mono)
  qed (use assms in auto)
  ultimately have "wp False (whileM (\<lambda>xs. xs \<noteq> []) body xs) (\<lambda>_ _. True) (\<lambda>_ _. True) s"
    using some by (elim disjE)
  then show "whileM (\<lambda>xs. xs \<noteq> []) body xs s \<noteq> None" by (rule wp_returns)
qed

end

section \<open>Sending a solver down the tree\<close>

text \<open>\<open>incremental\<close> changes nothing in the tree but the time at which a node was started.\<close>

definition restarted :: "heap \<Rightarrow> heap \<Rightarrow> bool" where
  "restarted h h' = (fresh h' = fresh h \<and> (\<forall>m. cell h' m = (cell h m)\<lparr>n_started := n_started (cell h' m)\<rparr>))"

lemma restarted_refl [simp]: "restarted h h"
  by (simp add: restarted_def)

lemma restarted_cell:
  assumes "restarted h h'"
  shows "fresh h' = fresh h" "n_class (cell h' m) = n_class (cell h m)" "n_status (cell h' m) = n_status (cell h m)"
    "n_processed (cell h' m) = n_processed (cell h m)" "n_children (cell h' m) = n_children (cell h m)"
    "same_links (cell h m) (cell h' m)"
proof -
  from assms have c: "cell h' m = (cell h m)\<lparr>n_started := n_started (cell h' m)\<rparr>" and f: "fresh h' = fresh h"
    by (simp_all add: restarted_def)
  show "fresh h' = fresh h" by (fact f)
  show "n_class (cell h' m) = n_class (cell h m)" "n_status (cell h' m) = n_status (cell h m)"
    "n_processed (cell h' m) = n_processed (cell h m)" "n_children (cell h' m) = n_children (cell h m)"
    "same_links (cell h m) (cell h' m)"
    by (subst c, simp add: same_links_def)+
qed

lemma restarted_upd:
  assumes "restarted h h'"
  shows "restarted h (upd n (\<lambda>z. z\<lparr>n_started := t\<rparr>) h')"
  unfolding restarted_def
proof (intro conjI allI)
  fix m
  have c: "cell h' m = (cell h m)\<lparr>n_started := n_started (cell h' m)\<rparr>" for m
    using assms unfolding restarted_def by blast
  show "cell (upd n (\<lambda>z. z\<lparr>n_started := t\<rparr>) h') m
      = (cell h m)\<lparr>n_started := n_started (cell (upd n (\<lambda>z. z\<lparr>n_started := t\<rparr>) h') m)\<rparr>"
    by (cases "m = n") (simp_all, subst c, simp, rule c)
qed (use assms in \<open>simp add: restarted_def\<close>)

definition same_work :: "heap \<Rightarrow> world \<Rightarrow> bool" where
  "same_work h w = restarted h (w_heap w)"

named_theorems work_rules \<open>operations that change no more of the tree than starting times\<close>

lemma work_fields [work_rules]:
  "upholds d (same_work h) (modM (\<lambda>w. w\<lparr>w_sends := g1 w\<rparr>))" "upholds d (same_work h) (modM (\<lambda>w. w\<lparr>w_sent := g2 w\<rparr>))"
  "upholds d (same_work h) (modM (\<lambda>w. w\<lparr>w_ticks := g3 w\<rparr>))" "upholds d (same_work h) (set_sock s f)"
  "upholds d (same_work h) (get_sock s)" "upholds d (same_work h) (get_node n)"
  "keeps (same_work h) (read_heap r)"
  by (simp_all add: upholds_def wp_simps same_work_def set_sock_def get_sock_def get_node_def read_heap_def
      split: option.split sum.split)

lemma work_node_start [work_rules]: "upholds d (same_work h) (node_start n)"
  unfolding node_start_def now_def set_node_def
  by (rule keeps_intro work_rules upholds_modM | (simp add: same_work_def restarted_upd; fail))+

lemma work_incremental: "keeps (same_work h) (solver_incremental s n)"
  unfolding solver_incremental_def write_msg_def send_once_def now_def
  by (rule keeps_intro work_rules)+

lemma wp_incremental:
  assumes "good {} w" and "same_work h w" and "n < fresh h" and "n_class (cell h n) = AndNode"
  shows "wp False (solver_incremental s n) (\<lambda>_ t. good {} t \<and> same_work h t) (\<lambda>_ _. True) w"
proof -
  have "has (IAnd n) w" using assms restarted_cell(1,2) [of h "w_heap w"] by (simp add: same_work_def)
  with assms(1) have "good {IAnd n} w" by (simp add: good_def)
  moreover have "returns (good {IAnd n}) (solver_incremental s n)" by (rule upholds_solver_incremental) simp
  ultimately have "wp False (solver_incremental s n) (\<lambda>_. good {IAnd n}) (\<lambda>_. good {IAnd n}) w"
    by (rule upholdsD [rotated])
  from wp_conj [OF this upholdsD [OF work_incremental assms(2)]] show ?thesis
    by (rule wp_mono) (auto simp: good_def)
qed

section \<open>The two loops\<close>

definition into_child :: "nid \<Rightarrow> sid list \<Rightarrow> (world, sid list) prog" where
  "into_child c mv = (case mv of [] \<Rightarrow> retM [] | s # rest \<Rightarrow> seqM (solver_incremental s c) (retM rest))"

text \<open>The nodes at which \<open>place_at\<close> can put a solver.\<close>

definition open_below :: "heap \<Rightarrow> nid \<Rightarrow> bool" where
  "open_below h c = (case all_nodes c h of Some (Inr ms) \<Rightarrow>
     list_ex (\<lambda>m. n_status (cell h m) = Unknown \<and> n_class (cell h m) = AndNode \<and> \<not> n_processed (cell h m)) ms
   | _ \<Rightarrow> False)"

lemma childeren_restarted: "restarted h h' \<Longrightarrow> childeren n h' = childeren n h"
  by (simp add: childeren_def restarted_cell split: list.split)

text \<open>The state while solvers are moved: nothing but starting times has changed since the tree was \<open>h\<close>, in which
  \<open>n\<close> has the open partitions \<open>cs\<close>.\<close>

definition moves_ok :: "nid \<Rightarrow> nid list \<Rightarrow> heap \<Rightarrow> world \<Rightarrow> bool" where
  "moves_ok n cs h w = (good {} w \<and> same_work h w \<and> heap_wf h \<and> n < fresh h \<and> n_class (cell h n) = AndNode
     \<and> childeren n h = Some (Inr cs))"

lemma moves_ok_children: "moves_ok n cs h w \<Longrightarrow> childeren n (w_heap w) = Some (Inr cs)"
  using childeren_restarted [of h "w_heap w" n] by (simp add: moves_ok_def same_work_def)

lemma moves_ok_child: "moves_ok n cs h w \<Longrightarrow> c \<in> set cs \<Longrightarrow> c < fresh h \<and> n_class (cell h c) = AndNode"
  using childeren_total(2) [of h n cs c] by (simp add: moves_ok_def)

lemma wp_incremental_ok:
  assumes "moves_ok n cs h w" and "m < fresh h" and "n_class (cell h m) = AndNode"
  shows "wp False (solver_incremental s m) (\<lambda>_. moves_ok n cs h) (\<lambda>_ _. True) w"
  by (rule wp_mono [OF wp_incremental [of w h m s]]) (use assms in \<open>auto simp: moves_ok_def\<close>)

interpretation moving: dealing into_child cs "move_into (HNode n)" "moves_ok n cs h" "\<lambda>_. True" for cs n h
proof
  fix w xs assume "moves_ok n cs h w"
  then show "move_into (HNode n) xs w = foldM into_child cs xs w"
    by (simp add: move_into_def into_child_def [abs_def] read_heap_def readM_def bindM_def moves_ok_children)
next
  fix w c x xs assume w: "moves_ok n cs h w" and "c \<in> set cs"
  with moves_ok_child wp_incremental_ok [OF w]
  have "wp False (solver_incremental x c) (\<lambda>_. moves_ok n cs h) (\<lambda>_ _. True) w" by simp
  then show "wp False (into_child c (x # xs)) (\<lambda>ys t. ys = xs \<and> moves_ok n cs h t) (\<lambda>_ _. True) w"
    by (simp add: into_child_def wp_simps)
qed (simp add: into_child_def run_simps)

text \<open>The same for the solvers of solved nodes.\<close>

lemma filterM_getM:
  "filterM (\<lambda>m. bindM (get_node m) (\<lambda>y. retM (P y))) ms w = Some (Inr (filter (\<lambda>m. P (cell (w_heap w) m)) ms), w)"
  by (induction ms) (auto simp: get_node_def run_simps bindM_def)

lemma mapM_getM: "mapM (\<lambda>m. bindM (getM (f m)) (\<lambda>y. retM (g m y))) ms w = Some (Inr (map (\<lambda>m. g m (f m w)) ms), w)"
  by (induction ms) (auto simp: run_simps bindM_def)

lemma below_restarted: "restarted h h' \<Longrightarrow> below h n m \<Longrightarrow> below h' n m"
  by (rotate_tac, induction rule: below.induct) (auto intro: below.intros simp: restarted_cell)

lemma below_restarted': "restarted h h' \<Longrightarrow> below h' n m \<Longrightarrow> below h n m"
  by (rotate_tac, induction rule: below.induct) (auto intro: below.intros simp: restarted_cell)

lemma all_nodes_below:
  assumes "heap_wf h" and "n < fresh h"
  obtains d where "all_nodes n h = Some (Inr d)" "set d = {m. below h n m}"
  using all_of_set [OF assms(1), of "[n]" 0] assms(2) by (auto simp: all_nodes_def)

definition is_active :: "heap \<Rightarrow> nid \<Rightarrow> bool" where
  "is_active h m = (n_status (cell h m) = Unknown \<and> n_class (cell h m) = AndNode \<and> \<not> n_processed (cell h m))"

lemma is_active_restarted: "restarted h h' \<Longrightarrow> is_active h' m = is_active h m"
  by (simp add: is_active_def restarted_cell)

lemma open_below_iff: "heap_wf h \<Longrightarrow> c < fresh h \<Longrightarrow> open_below h c \<longleftrightarrow> (\<exists>m. below h c m \<and> is_active h m)"
  using all_nodes_below [of h c] by (fastforce simp: open_below_def list_ex_iff is_active_def)

lemma active_nodes_run:
  assumes w: "moves_ok n cs h w" and c: "c \<in> set cs"
  obtains ms where "active_nodes c w = Some (Inr ms, w)" "ms = [] \<longleftrightarrow> \<not> open_below h c"
    "\<forall>m \<in> set ms. m < fresh h \<and> n_class (cell h m) = AndNode"
proof -
  have r: "restarted h (w_heap w)" "heap_wf h" "heap_wf (w_heap w)" "c < fresh h" "c < fresh (w_heap w)"
    using w moves_ok_child [OF w c] restarted_cell(1) [of h "w_heap w"]
    by (auto simp: moves_ok_def same_work_def good_wf(2))
  obtain d where d: "all_nodes c (w_heap w) = Some (Inr d)" "set d = {m. below (w_heap w) c m}"
    using all_nodes_below [OF r(3,5)] .
  let ?ms = "filter (is_active (w_heap w)) d"
  have "active_nodes c w = Some (Inr ?ms, w)"
    using filterM_getM [of "\<lambda>y. n_status y = Unknown \<and> n_class y = AndNode \<and> \<not> n_processed y" d w] d(1)
    by (simp add: active_nodes_def read_heap_def readM_def bindM_def is_active_def [abs_def])
  moreover have "?ms = [] \<longleftrightarrow> \<not> open_below h c"
    using d(2) open_below_iff [OF r(2,4)] is_active_restarted [OF r(1)] below_restarted [OF r(1)] below_restarted' [OF r(1)]
    by (auto simp: filter_empty_conv)
  moreover have "m < fresh h \<and> n_class (cell h m) = AndNode" if "m \<in> set ?ms" for m
    using that d(2) below_anc [OF below_restarted' [OF r(1)] r(2,4)] is_active_restarted [OF r(1)]
    by (auto simp: is_active_def)
  ultimately show ?thesis using that by blast
qed

lemma by_load_run:
  obtains ns where "by_load ms w = Some (Inr ns, w)" "set ns = set ms" "length ns = length ms"
  using mapM_getM [of "\<lambda>m w. filter (solver_at (SolversAt (Some m)) w) (w_rlist w)" "\<lambda>m ss. (length ss, m)" ms w]
  by (simp add: by_load_def solvers_def bindM_def run_simps image_image)

interpretation placing: dealing place_at cs "foldM place_at cs" "moves_ok n cs h" "open_below h" for cs n h
proof
  fix w c and xs :: "sid list" assume w: "moves_ok n cs h w" and c: "c \<in> set cs" and none: "\<not> open_below h c \<or> xs = []"
  obtain ms where ms: "active_nodes c w = Some (Inr ms, w)" "ms = [] \<longleftrightarrow> \<not> open_below h c"
    using active_nodes_run [OF w c] by metis
  obtain ns where "by_load ms w = Some (Inr ns, w)" "set ns = set ms" "length ns = length ms" using by_load_run .
  with ms none w show "\<exists>w'. place_at c xs w = Some (Inr xs, w') \<and> moves_ok n cs h w'"
    by (cases ns; cases xs) (auto simp: place_at_def bindM_def run_simps)
next
  fix w c x xs assume w: "moves_ok n cs h w" and c: "c \<in> set cs" and some: "open_below h c"
  obtain ms where ms: "active_nodes c w = Some (Inr ms, w)" "ms = [] \<longleftrightarrow> \<not> open_below h c"
    "\<forall>m \<in> set ms. m < fresh h \<and> n_class (cell h m) = AndNode" using active_nodes_run [OF w c] .
  obtain ns where ns: "by_load ms w = Some (Inr ns, w)" "set ns = set ms" "length ns = length ms" using by_load_run .
  with ms some obtain m ns' where m: "ns = m # ns'" "m < fresh h" "n_class (cell h m) = AndNode"
    by (cases ns) auto
  have "wp False (solver_incremental x m) (\<lambda>_. moves_ok n cs h) (\<lambda>_ _. True) w"
    using wp_incremental_ok [OF w m(2,3)] .
  with ms(1) ns(1) m(1) show "wp False (place_at c (x # xs)) (\<lambda>ys t. ys = xs \<and> moves_ok n cs h t) (\<lambda>_ _. True) w"
    by (simp add: place_at_def wp_bindM wp_run wp_seqM wp_retM)
qed simp

text \<open>C17: When partitions of \<open>n\<close> have arrived, the loop that moves solvers into them returns exactly when there is
  nobody to move or \<open>n\<close> has an open partition; otherwise the server hangs.\<close>

theorem move_loop_returns_iff:
  assumes "world_wf w" and "movable_solvers (HNode n) w = Some (Inr mv, w)"
    and "n < fresh (w_heap w)" and "n_class (cell (w_heap w) n) = AndNode" and "childeren n (w_heap w) = Some (Inr cs)"
  shows "place_movable (HNode n) w = None \<longleftrightarrow> mv \<noteq> [] \<and> cs = []"
proof -
  have ok: "moves_ok n cs (w_heap w) w"
    using assms good_wf(2) [of "{}" w] by (simp add: moves_ok_def same_work_def good_def)
  have "place_movable (HNode n) w \<noteq> None \<longleftrightarrow> whileM (\<lambda>xs. xs \<noteq> []) (move_into (HNode n)) mv w \<noteq> None"
    using assms(2) by (simp add: place_movable_def bindM_def retM_def split: option.split prod.split sum.split)
  also have "\<dots> \<longleftrightarrow> mv = [] \<or> (\<exists>c \<in> set cs. True)" by (rule moving.returns_iff [OF ok])
  finally show ?thesis by (cases "place_movable (HNode n) w"; cases cs) auto
qed

text \<open>The sample server when both partitions are refuted but the root is not yet, and every busy solver may be
  moved.\<close>

definition hang_world :: world where
  "hang_world = tree_world\<lparr>w_conf := sample_conf\<lparr>c_portfolio_min := 0\<rparr>,
     w_heap := upd 2 (\<lambda>x. x\<lparr>n_status := Unsat\<rparr>) (upd 3 (\<lambda>x. x\<lparr>n_status := Unsat\<rparr>) sample)\<rparr>"

lemma hang_world_simps [simp]: "w_rlist hang_world = [0, 2]" "sock_of hang_world = sock_of tree_world"
  "w_conf hang_world = sample_conf\<lparr>c_portfolio_min := 0\<rparr>" "inst_of hang_world = inst_of tree_world" "w_ninst hang_world = 1"
  "w_heap hang_world = upd 2 (\<lambda>x. x\<lparr>n_status := Unsat\<rparr>) (upd 3 (\<lambda>x. x\<lparr>n_status := Unsat\<rparr>) sample)"
  by (simp_all add: hang_world_def)

lemma hang_world_wf: "world_wf hang_world"
proof -
  have up: "hextends h (upd n (\<lambda>x. x\<lparr>n_status := Unsat\<rparr>) h)" if "heap_wf h" for h n
    using that by (intro hextends_upd) (simp_all add: same_links_def)
  have "good {} tree_world" using tree_world_wf by (simp add: good_def)
  then have "good {} (tree_world\<lparr>w_heap := upd 3 (\<lambda>x. x\<lparr>n_status := Unsat\<rparr>) sample\<rparr>)"
    by (rule good_heap) (use up in simp)
  then have "good {} (tree_world\<lparr>w_heap := upd 3 (\<lambda>x. x\<lparr>n_status := Unsat\<rparr>) sample,
      w_heap := upd 2 (\<lambda>x. x\<lparr>n_status := Unsat\<rparr>) (upd 3 (\<lambda>x. x\<lparr>n_status := Unsat\<rparr>) sample)\<rparr>)"
    by (rule good_heap, simp, intro up same_shape_wf [OF same_shape_upd sample_wf]) (simp add: same_links_def)
  then have "good {} hang_world"
    by (rule good_same_refs) (simp add: same_refs_def hang_world_def fun_eq_iff)
  then show ?thesis by (simp add: good_def)
qed

theorem move_loop_returns_iff_witness: "place_movable (HNode 0) hang_world = None"
proof -
  have "movable_solvers (HNode 0) hang_world = Some (Inr [2], hang_world)"
    by (simp add: movable_solvers_def get_conf_def solvers_def solver_at_def run_simps bindM_def sock_of_def tree_world_def blank_sock_def)
  moreover have "childeren 0 (w_heap hang_world) = Some (Inr [])" by (simp add: childeren_def)
  ultimately show ?thesis
    using move_loop_returns_iff [OF hang_world_wf, of 0 "[2]" "[]"] by simp
qed

text \<open>C18: The loop over the solvers of solved nodes returns exactly when there is none or one of the root's open
  partitions has an open node that has not been processed.\<close>

theorem place_loop_returns_iff:
  assumes "world_wf w" and "i < w_ninst w" and "childeren (i_root (inst_of w i)) (w_heap w) = Some (Inr cs)"
  shows "place_solved i solved w = None \<longleftrightarrow> solved \<noteq> [] \<and> list_all (\<lambda>c. \<not> open_below (w_heap w) c) cs"
proof (cases "solved = []")
  case False
  let ?r = "i_root (inst_of w i)"
  have "?r < fresh (w_heap w)" "n_class (cell (w_heap w) ?r) = AndNode"
    using assms(1,2) by (auto simp: world_wf_def inst_items_def)
  with assms good_wf(2) [of "{}" w] have ok: "moves_ok ?r cs (w_heap w) w"
    by (simp add: moves_ok_def same_work_def good_def)
  have "place_solved i solved w \<noteq> None \<longleftrightarrow> whileM (\<lambda>xs. xs \<noteq> []) (foldM place_at cs) solved w \<noteq> None"
    using False assms(3) by (simp add: place_solved_def run_defs split: option.split prod.split sum.split)
  also have "\<dots> \<longleftrightarrow> solved = [] \<or> (\<exists>c \<in> set cs. open_below (w_heap w) c)" by (rule placing.returns_iff [OF ok])
  finally show ?thesis by (auto simp: list_all_iff simp del: not_None_eq)
qed (simp add: place_solved_def run_simps)

theorem place_loop_returns_iff_witness: "place_solved 0 [2] hang_world = None \<and> place_solved 0 [2] tree_world \<noteq> None"
proof
  have "childeren (i_root (inst_of hang_world 0)) (w_heap hang_world) = Some (Inr [])" by (simp add: childeren_def)
  with place_loop_returns_iff [OF hang_world_wf, of 0 "[]" "[2]"] show "place_solved 0 [2] hang_world = None" by simp
  have "childeren (i_root (inst_of tree_world 0)) (w_heap tree_world) = Some (Inr [2, 3])" by (simp add: childeren_def)
  moreover have "open_below (w_heap tree_world) 2" by code_simp
  ultimately show "place_solved 0 [2] tree_world \<noteq> None"
    using place_loop_returns_iff [OF tree_world_wf, of 0 "[2, 3]" "[2]"] by simp
qed

end
