(* ===== verification/Session.thy ===== *)
theory Session
  imports ReportSpec
begin

text \<open>
  The conversation of the server with one solver. A solver that obeys what it is sent is either idle
  or at a node of an instance with an assertion stack (\<open>peer\<close>); the server keeps only the node
  (\<open>s_node\<close>). The commands of \<open>Solver\<close> in \<open>server/schedular.py\<close> keep the two in step: a solver is told
  to stop before it is given a new instance, \<open>incremental\<close> names the node that it is at, and the scripts
  that it has been sent build the assertion stack of its node.
\<close>

section \<open>The solver's side\<close>

datatype peer = Idle | At string "nat list" frames

type_synonym message = "pyval dict \<times> pyval"

definition says :: "message \<Rightarrow> string \<Rightarrow> pyval \<Rightarrow> bool" where
  "says m k v = (map_of (fst m) k = Some v)"

definition commands :: "string list" where
  "commands = [SOLVE, INCREMENTAL, STOP, PARTITION, TERMINATE]"

text \<open>What it does with a message; \<open>None\<close> when the message is not allowed where it is. It runs a script line by
  line.\<close>

definition peer_step :: "message \<Rightarrow> peer \<Rightarrow> peer option" where
  "peer_step m p = (if says m COMMAND (VStr SOLVE)
     then (case (p, map_of (fst m) NAME, map_of (fst m) NODE, map_of (fst m) NODE', snd m) of
         (Idle, Some (VStr name), Some (VPath a), None, VStr smt) \<Rightarrow> map_option (At name a) (run_lines (script_lines smt) [[]])
       | _ \<Rightarrow> None)
     else if list_ex (\<lambda>c. says m COMMAND (VStr c)) commands
     then (case p of Idle \<Rightarrow> None
       | At name a st \<Rightarrow>
          if \<not> (says m NAME (VStr name) \<and> says m NODE (VPath a)) then None
          else if says m COMMAND (VStr STOP) then Some Idle
          else if says m COMMAND (VStr INCREMENTAL)
          then (case (map_of (fst m) NODE', snd m) of
              (Some (VPath b), VStr smt) \<Rightarrow> map_option (At name b) (run_lines (script_lines smt) st)
            | _ \<Rightarrow> None)
          else Some p)
     else Some p)"

definition peer_run :: "message list \<Rightarrow> peer option" where
  "peer_run ms = foldl (\<lambda>p m. Option.bind p (peer_step m)) (Some Idle) ms"

definition peer_after :: "message list \<Rightarrow> peer \<Rightarrow> bool" where
  "peer_after ms p = (peer_run ms = Some p)"

lemma peer_after_solve: "peer_after ms Idle \<Longrightarrow> says m COMMAND (VStr SOLVE) \<Longrightarrow> says m NAME (VStr name) \<Longrightarrow> says m NODE (VPath a) \<Longrightarrow>
    map_of (fst m) NODE' = None \<Longrightarrow> snd m = VStr smt \<Longrightarrow> run_lines (script_lines smt) [[]] = Some st \<Longrightarrow> peer_after (ms @ [m]) (At name a st)"
  by (simp add: peer_after_def peer_run_def peer_step_def says_def)

lemma peer_after_incremental: "peer_after ms (At name a st) \<Longrightarrow> says m COMMAND (VStr INCREMENTAL) \<Longrightarrow> says m NAME (VStr name) \<Longrightarrow>
    says m NODE (VPath a) \<Longrightarrow> says m NODE' (VPath b) \<Longrightarrow>
    snd m = VStr smt \<Longrightarrow> run_lines (script_lines smt) st = Some st' \<Longrightarrow> peer_after (ms @ [m]) (At name b st')"
  by (simp add: peer_after_def peer_run_def peer_step_def says_def commands_def)

lemma peer_after_stop: "peer_after ms (At name a st) \<Longrightarrow> says m COMMAND (VStr STOP) \<Longrightarrow> says m NAME (VStr name) \<Longrightarrow>
    says m NODE (VPath a) \<Longrightarrow> peer_after (ms @ [m]) Idle"
  by (simp add: peer_after_def peer_run_def peer_step_def says_def commands_def)

lemma peer_after_request: "peer_after ms (At name a st) \<Longrightarrow> says m COMMAND (VStr c) \<Longrightarrow> c = PARTITION \<or> c = TERMINATE \<Longrightarrow>
    says m NAME (VStr name) \<Longrightarrow> says m NODE (VPath a) \<Longrightarrow> peer_after (ms @ [m]) (At name a st)"
  by (auto simp: peer_after_def peer_run_def peer_step_def says_def commands_def)

lemma peer_after_setting: "peer_after ms p \<Longrightarrow> \<forall>c \<in> set commands. \<not> says m COMMAND (VStr c) \<Longrightarrow> peer_after (ms @ [m]) p"
  by (simp add: peer_after_def peer_run_def peer_step_def commands_def)

section \<open>The server's side\<close>

definition told :: "world \<Rightarrow> sid \<Rightarrow> message list" where
  "told w s = map snd (filter (\<lambda>m. fst m = s_conn (sock_of w s)) (w_sent w))"

definition at_node :: "heap \<Rightarrow> nid \<Rightarrow> peer" where
  "at_node h n = At (n_name (cell h (n_root (cell h n)))) (addr h n) (lines_of (frames_of n h))"

definition believed :: "world \<Rightarrow> sid \<Rightarrow> peer" where
  "believed w s = (case s_node (sock_of w s) of None \<Rightarrow> Idle | Some n \<Rightarrow> at_node (w_heap w) n)"

definition placed :: "heap \<Rightarrow> nid \<Rightarrow> bool" where
  "placed h n = (n < fresh h \<and> attached h n \<and> n_kind (cell h (n_root (cell h n))) = SMT)"

definition in_step :: "world \<Rightarrow> bool" where
  "in_step w = (heap_wf (w_heap w) \<and> plain_lines (w_heap w)
     \<and> (\<forall>s s'. s_class (sock_of w s) = SolverC \<and> s_class (sock_of w s') = SolverC \<and> s_conn (sock_of w s) = s_conn (sock_of w s')
          \<longrightarrow> s = s')
     \<and> (\<forall>s. s_class (sock_of w s) = SolverC \<longrightarrow> peer_after (told w s) (believed w s)
          \<and> (\<forall>n. s_node (sock_of w s) = Some n \<longrightarrow> placed (w_heap w) n)))"

section \<open>Changes of the tree\<close>

text \<open>A change that leaves the nodes of the tree where they are.\<close>

definition view_kept :: "heap \<Rightarrow> heap \<Rightarrow> bool" where
  "view_kept h h' = (heap_wf h' \<and> plain_lines h' \<and> (\<forall>n. placed h n \<longrightarrow> placed h' n \<and> at_node h' n = at_node h n))"

lemma same_shape_addr: "attached h n \<Longrightarrow> same_shape h h' \<Longrightarrow> addr h' n = addr h n"
proof (induction rule: attached.induct)
  case (root n)
  then show ?case by (simp add: addr_root same_shape_cell)
next
  case (listed n p)
  obtain i where "index_of n (n_children (cell h p)) = Some i"
    using listed.hyps(2) by (metis index_of_None not_Some_eq)
  with listed addr_listed [of h p n i] addr_listed [of h' p n i] same_shape_attached show ?case
    by (simp add: same_shape_cell)
qed

lemma same_shape_frames: "heap_wf h \<Longrightarrow> same_shape h h' \<Longrightarrow> n < fresh h \<Longrightarrow> frames_of n h' = frames_of n h"
proof (induction n rule: less_induct)
  case (less n)
  show ?case
  proof (cases "n_parent (cell h n)")
    case None
    with less.prems show ?thesis by (simp add: frames_of_root same_shape_cell)
  next
    case (Some p)
    with less.prems heap_wf_parent [OF less.prems(1,3) Some] less.IH [of p]
      frames_of_step [of h n p] frames_of_step [of h' n p] same_shape_wf
    show ?thesis by (simp add: same_shape_cell)
  qed
qed

lemma shape_view_kept:
  assumes wf: "heap_wf h" and tx: "plain_lines h" and sh: "same_shape h h'"
  shows "view_kept h h'"
proof -
  have "placed h' n \<and> at_node h' n = at_node h n" if "placed h n" for n
    using that same_shape_cell [OF sh] same_shape_attached [OF sh] same_shape_addr [OF _ sh]
      same_shape_frames [OF wf sh] by (simp add: placed_def at_node_def)
  with same_shape_wf [OF sh wf] tx same_shape_cell [OF sh] show ?thesis
    by (simp add: view_kept_def plain_lines_def)
qed

lemma grown_frames:
  assumes wf: "heap_wf h" "heap_wf (grown k parent smt h)"
  shows "n < fresh h \<Longrightarrow> frames_of n (grown k parent smt h) = frames_of n h"
proof (induction n rule: less_induct)
  case (less n)
  let ?h = "grown k parent smt h"
  have c: "n_parent (cell ?h n) = n_parent (cell h n)" "n_smt (cell ?h n) = n_smt (cell h n)"
    "n_class (cell ?h n) = n_class (cell h n)" using less.prems by (simp_all add: cell_grown_old)
  show ?case
  proof (cases "n_parent (cell h n)")
    case None
    with c show ?thesis by (simp add: frames_of_root)
  next
    case (Some p)
    with c less heap_wf_parent [OF wf(1) less.prems Some] frames_of_step [OF wf(1) less.prems Some]
      frames_of_step [OF wf(2), of n p] show ?thesis by simp
  qed
qed

lemma grown_view_kept:
  assumes wf: "heap_wf h" and tx: "plain_lines h" and par: "p < fresh h" "n_class (cell h p) \<noteq> k"
    and smt: "no_moves smt"
  shows "view_kept h (grown k (Some p) smt h)"
proof -
  let ?h = "grown k (Some p) smt h"
  have wf': "heap_wf ?h" by (rule grown_wf [OF wf]) (use par in simp)
  have rt: "n_root (cell h n) < fresh h" if "n < fresh h" for n
    using anc_of_root [OF wf that] anc_le [OF _ wf that] that by (blast intro: le_less_trans)
  have "placed ?h n \<and> at_node ?h n = at_node h n" if n: "placed h n" for n
    using n grown_attached [OF _ wf, of n k "Some p" smt] grown_addr [OF _ wf, of n k "Some p" smt] grown_frames [OF wf wf', of n] rt [of n]
    by (auto simp: placed_def at_node_def cell_grown_old)
  moreover have "plain_lines ?h"
    using tx smt by (auto simp: plain_lines_def less_Suc_eq cell_grown_new cell_grown_old list_all_iff)
  ultimately show ?thesis using wf' by (simp add: view_kept_def)
qed

section \<open>One command\<close>

text \<open>A command to the solver \<open>s\<close> changes that solver, appends to what its connection has been sent, and
  leaves the nodes of the tree where they are.\<close>

lemma advance:
  assumes step: "in_step w" and cl: "s_class (sock_of w s) = SolverC"
    and h: "view_kept (w_heap w) (w_heap t)" and so: "\<And>r. r \<noteq> s \<Longrightarrow> sock_of t r = sock_of w r"
    and x: "s_class (sock_of t s) = SolverC" "s_conn (sock_of t s) = s_conn (sock_of w s)"
    and sent: "w_sent t = w_sent w @ map (Pair (s_conn (sock_of w s))) ms"
    and peer: "peer_after (told w s @ ms) (believed t s)"
    and n: "\<And>n. s_node (sock_of t s) = Some n \<Longrightarrow> placed (w_heap t) n"
  shows "in_step t"
proof -
  have conn: "s_conn (sock_of t r) = s_conn (sock_of w r)" "s_class (sock_of t r) = s_class (sock_of w r)" for r
    using so [of r] x cl by (cases "r = s"; simp)+
  have me: "told t s = told w s @ ms" using sent by (simp add: told_def x(2) filter_map comp_def)
  have other: "told t r = told w r \<and> believed t r = believed w r \<and> (\<forall>n. s_node (sock_of t r) = Some n \<longrightarrow> placed (w_heap t) n)"
    if r: "s_class (sock_of w r) = SolverC" "r \<noteq> s" for r
  proof -
    have ne: "s_conn (sock_of w s) \<noteq> s_conn (sock_of w r)" using step r cl by (auto simp: in_step_def)
    have "filter (\<lambda>m. fst m = s_conn (sock_of w r)) (map (Pair (s_conn (sock_of w s))) ms) = []"
      using ne by (simp add: filter_empty_conv)
    then have "told t r = told w r" using so r(2) sent by (simp add: told_def)
    with step h so r show ?thesis by (auto simp: in_step_def believed_def view_kept_def split: option.split)
  qed
  have "peer_after (told t r) (believed t r) \<and> (\<forall>n. s_node (sock_of t r) = Some n \<longrightarrow> placed (w_heap t) n)"
    if "s_class (sock_of t r) = SolverC" for r
  proof (cases "r = s")
    case True
    with me peer n show ?thesis by simp
  next
    case False
    with other [of r] that conn step show ?thesis by (simp add: in_step_def)
  qed
  with step h show ?thesis unfolding in_step_def conn view_kept_def by blast
qed

lemma kept_refl: "in_step w \<Longrightarrow> view_kept (w_heap w) (w_heap w)"
  by (simp add: view_kept_def in_step_def)

lemma in_stepD:
  assumes "in_step w" and "s_class (sock_of w s) = SolverC"
  shows "heap_wf (w_heap w)" "plain_lines (w_heap w)" "peer_after (told w s) (believed w s)"
    "s_node (sock_of w s) = Some n \<Longrightarrow> placed (w_heap w) n"
  using assms by (simp_all add: in_step_def)

lemma wp_send:
  assumes "\<And>k. Q () (w\<lparr>w_sends := k, w_sent := w_sent w @ [(s_conn (sock_of w s), h, p)]\<rparr>)"
  shows "wp True (write_msg s h p) Q (\<lambda>_ _. True) w"
  using assms by (simp add: write_msg_def send_once_def get_sock_def wp_simps of_other split: sum.split)

lemma wp_reads:
  "wp d (get_sock s) Q1 E = (\<lambda>w. Q1 (sock_of w s) w)" "wp d (get_conf f) Q2 E = (\<lambda>w. Q2 (f (w_conf w)) w)"
  "wp d (read_heap r) Q3 E = (\<lambda>w. case r (w_heap w) of None \<Rightarrow> d | Some v \<Rightarrow> (case v of Inl e \<Rightarrow> E e w | Inr x \<Rightarrow> Q3 x w))"
  "wp d (set_sock s u) Q4 E = (\<lambda>w. Q4 () (put_sock s (u (sock_of w s)) w))"
  "wp d (set_node n g) Q4 E = (\<lambda>w. Q4 () (w\<lparr>w_heap := upd n g (w_heap w)\<rparr>))"
  by (simp_all add: get_sock_def get_conf_def read_heap_def set_sock_def set_node_def wp_simps fun_eq_iff
      split: option.split sum.split)

text \<open>Reading, and sending, at the head of a program.\<close>

lemma wp_steps:
  "wp d (k1 (sock_of w s)) Q E w \<Longrightarrow> wp d (bindM (get_sock s) k1) Q E w"
  "wp d (k2 (cell (w_heap w) n)) Q E w \<Longrightarrow> wp d (bindM (get_node n) k2) Q E w"
  "wp d (k3 (f (w_conf w))) Q E w \<Longrightarrow> wp d (bindM (get_conf f) k3) Q E w"
  "r (w_heap w) = Some (Inr x) \<Longrightarrow> wp d (k4 x) Q E w \<Longrightarrow> wp d (bindM (read_heap r) k4) Q E w"
  "wp d k5 Q E (put_sock s (u (sock_of w s)) w) \<Longrightarrow> wp d (seqM (set_sock s u) k5) Q E w"
  "wp d k5 Q E (f' w) \<Longrightarrow> wp d (seqM (modM f') k5) Q E w"
  by (simp_all add: wp_bindM wp_seqM wp_reads wp_get_node wp_modM)

lemma wp_seq_send:
  assumes "\<And>j. wp True k Q (\<lambda>_ _. True) (w\<lparr>w_sends := j, w_sent := w_sent w @ [(s_conn (sock_of w s), h, p)]\<rparr>)"
  shows "wp True (seqM (write_msg s h p) k) Q (\<lambda>_ _. True) w"
  unfolding wp_seqM by (rule wp_send) (rule assms)

lemma wp_now: "(\<And>x. Q x (w\<lparr>w_ticks := Suc (w_ticks w)\<rparr>)) \<Longrightarrow> wp d now Q E w"
  by (simp add: now_def wp_simps)

text \<open>What else a command does: the clock, starting times, what a solver waits for, new nodes.\<close>

definition stays :: "sid \<Rightarrow> nid option \<Rightarrow> world \<Rightarrow> bool" where
  "stays s n w = (in_step w \<and> s_class (sock_of w s) = SolverC \<and> s_node (sock_of w s) = n)"

text \<open>A change that no solver notices, and the predicates that survive it.\<close>

definition quiet :: "world \<Rightarrow> world \<Rightarrow> bool" where
  "quiet w t = (view_kept (w_heap w) (w_heap t) \<and> w_sent t = w_sent w
     \<and> (\<forall>r. s_class (sock_of t r) = s_class (sock_of w r) \<and> s_conn (sock_of t r) = s_conn (sock_of w r)
          \<and> s_node (sock_of t r) = s_node (sock_of w r)))"

named_theorems quiet_rules \<open>operations that no solver notices\<close>

locale unnoticed =
  fixes P :: "world \<Rightarrow> bool"
  assumes tree: "P w \<Longrightarrow> heap_wf (w_heap w) \<and> plain_lines (w_heap w)"
    and quietly: "P w \<Longrightarrow> quiet w t \<Longrightarrow> P t"
begin

lemma unnoticed_modM:
  assumes "\<And>w. same_shape (w_heap w) (w_heap (f w))" "\<And>w. w_sent (f w) = w_sent w"
    and "\<And>w r. s_class (sock_of (f w) r) = s_class (sock_of w r)" "\<And>w r. s_conn (sock_of (f w) r) = s_conn (sock_of w r)"
    and "\<And>w r. s_node (sock_of (f w) r) = s_node (sock_of w r)"
  shows "upholds d P (modM f)"
proof (rule upholds_modM)
  fix w assume w: "P w"
  with tree assms(1) have "view_kept (w_heap w) (w_heap (f w))" by (blast intro: shape_view_kept)
  with assms show "P (f w)" by (intro quietly [OF w]) (simp add: quiet_def)
qed

lemma unnoticed_fields [quiet_rules]:
  "upholds d P (modM (\<lambda>w. w\<lparr>w_ticks := g1 w\<rparr>))" "upholds d P (modM (\<lambda>w. w\<lparr>w_estimate := g2 w\<rparr>))"
  "upholds d P (modM (\<lambda>w. w\<lparr>w_conf := g3 w\<rparr>))" "upholds d P (get_sock r)" "upholds d P (get_node m)"
  by (rule unnoticed_modM; simp add: sock_of_def)+ (simp_all add: get_sock_def get_node_def upholds_simple)

lemma unnoticed_set_sock [quiet_rules]:
  "(\<And>x. s_class (f x) = s_class x) \<Longrightarrow> (\<And>x. s_conn (f x) = s_conn x) \<Longrightarrow> (\<And>x. s_node (f x) = s_node x) \<Longrightarrow>
   upholds d P (set_sock r f)"
  unfolding set_sock_def by (rule unnoticed_modM) simp_all

lemma unnoticed_set_node [quiet_rules]: "(\<And>x. same_links x (f x)) \<Longrightarrow> upholds d P (set_node m f)"
  unfolding set_node_def by (rule unnoticed_modM) (simp_all add: same_shape_upd)

lemma unnoticed_now [quiet_rules]: "upholds d P now"
  unfolding now_def by (rule keeps_intro quiet_rules)+

lemma unnoticed_node_start [quiet_rules]: "upholds d P (node_start m)"
  unfolding node_start_def by (rule keeps_intro quiet_rules | (simp add: same_links_def; fail))+

end

lemma quiet_in_step:
  assumes w: "in_step w" and q: "quiet w t"
  shows "in_step t"
proof -
  have "told t r = told w r" for r using q by (simp add: quiet_def told_def)
  moreover have "believed t r = believed w r" if "s_class (sock_of w r) = SolverC" for r
    using w that q by (auto simp: in_step_def quiet_def believed_def view_kept_def split: option.split)
  ultimately show ?thesis using w q by (auto simp: in_step_def quiet_def view_kept_def)
qed

lemma in_step_tree: "in_step w \<Longrightarrow> heap_wf (w_heap w) \<and> plain_lines (w_heap w)"
  by (simp add: in_step_def)

lemma stays_quiet: "stays s n w \<Longrightarrow> quiet w t \<Longrightarrow> stays s n t"
  using quiet_in_step by (auto simp: stays_def quiet_def)

interpretation staying: unnoticed "stays s n" for s n
proof
  show "heap_wf (w_heap w) \<and> plain_lines (w_heap w)" if "stays s n w" for w
    using that in_step_tree by (simp add: stays_def)
qed (rule stays_quiet)

text \<open>A solver that has been sent to \<open>n\<close> and whose record does not say so yet.\<close>

definition leaves_for :: "sid \<Rightarrow> nid \<Rightarrow> world \<Rightarrow> bool" where
  "leaves_for s n w = stays s (Some n) (put_sock s ((sock_of w s)\<lparr>s_node := Some n\<rparr>) w)"

interpretation leaving: unnoticed "leaves_for s n" for s n
proof
  fix w t assume w: "leaves_for s n w"
  then show "heap_wf (w_heap w) \<and> plain_lines (w_heap w)" by (simp add: leaves_for_def stays_def in_step_def)
  assume "quiet w t"
  then have "quiet (put_sock s ((sock_of w s)\<lparr>s_node := Some n\<rparr>) w) (put_sock s ((sock_of t s)\<lparr>s_node := Some n\<rparr>) t)"
    by (simp add: quiet_def)
  with w show "leaves_for s n t" unfolding leaves_for_def by (rule stays_quiet)
qed

lemma quiet_or_node [quiet_rules]: "upholds d (stays s (Some n)) (on_heap (or_node (Some n) []))"
proof (rule upholdsI)
  fix w assume w: "stays s (Some n) w"
  then have n: "n < fresh (w_heap w)" "heap_wf (w_heap w)" "plain_lines (w_heap w)"
    by (auto simp: stays_def in_step_def placed_def)
  have "stays s (Some n) (w\<lparr>w_heap := grown OrNode (Some n) [] (w_heap w)\<rparr>)" if "n_class (cell (w_heap w) n) = AndNode"
    by (rule stays_quiet [OF w]) (use that n in \<open>auto simp: quiet_def no_moves_def script_lines_def intro!: grown_view_kept\<close>)
  with w show "wp d (on_heap (or_node (Some n) [])) (\<lambda>_. stays s (Some n)) (\<lambda>_. stays s (Some n)) w"
    by (cases "n_class (cell (w_heap w) n)") (simp_all add: wp_def on_heap_def or_node_run)
qed

text \<open>Each command is in step, and the solver ends up where it was sent.\<close>

lemma busy:
  assumes "in_step w" and "s_class (sock_of w s) = SolverC" and "s_node (sock_of w s) = Some n"
  shows "placed (w_heap w) n" "path n (w_heap w) = Some (Inr (addr (w_heap w) n))"
    "peer_after (told w s) (At (n_name (cell (w_heap w) (n_root (cell (w_heap w) n)))) (addr (w_heap w) n) (lines_of (frames_of n (w_heap w))))"
proof -
  show "placed (w_heap w) n" using in_stepD(4) [OF assms] .
  then show "path n (w_heap w) = Some (Inr (addr (w_heap w) n))" using path_attached by (simp add: placed_def)
  show "peer_after (told w s) (At (n_name (cell (w_heap w) (n_root (cell (w_heap w) n)))) (addr (w_heap w) n) (lines_of (frames_of n (w_heap w))))"
    using in_stepD(3) [OF assms(1,2)] assms(3) by (simp add: believed_def at_node_def)
qed

text \<open>A message that does not change where the solver is.\<close>

lemma advance_note:
  assumes "in_step w" and "s_class (sock_of w s) = SolverC" and "peer_after (told w s @ [m]) (believed w s)"
  shows "in_step (w\<lparr>w_sends := k, w_sent := w_sent w @ [(s_conn (sock_of w s), m)]\<rparr>)" (is "in_step ?t")
proof (rule advance [OF assms(1,2), where ms = "[m]"])
  show "peer_after (told w s @ [m]) (believed ?t s)" using assms(3) by (cases "s_node (sock_of w s)") (simp_all add: believed_def)
qed (use assms kept_refl in_stepD(4) [OF assms(1,2)] in simp_all)

lemma stop_in_step:
  assumes "in_step w" and "s_class (sock_of w s) = SolverC"
  shows "wp True (solver_stop s) (\<lambda>_ t. in_step t \<and> s_node (sock_of t s) = None \<and> w_heap t = w_heap w
     \<and> s_class (sock_of t s) = SolverC) (\<lambda>_ _. True) w"
proof (cases "s_node (sock_of w s)")
  case None
  then show ?thesis by (simp add: solver_stop_def wp_simps wp_reads)
next
  case (Some n)
  note b = busy [OF assms Some]
  let ?h = "w_heap w" and ?x = "sock_of w s\<lparr>s_node := None, s_started := None, s_or_waiting := [], s_parameters := []\<rparr>"
  let ?m = "([(COMMAND, VStr STOP), (NAME, VStr (n_name (cell ?h (n_root (cell ?h n))))), (NODE, VPath (addr ?h n))], VStr [])"
  have "in_step (put_sock s ?x w\<lparr>w_sends := k, w_sent := w_sent w @ [(s_conn (sock_of w s), ?m)]\<rparr>)" (is "in_step ?t") for k
  proof (rule advance [OF assms, where ms = "[?m]"])
    have "believed ?t s = Idle" by (simp add: believed_def)
    moreover have "peer_after (told w s @ [?m]) Idle" by (rule peer_after_stop [OF b(3)]) (simp_all add: says_def)
    ultimately show "peer_after (told w s @ [?m]) (believed ?t s)" by simp
  qed (use assms kept_refl in simp_all)
  then show ?thesis
    using Some b(2) assms(2) by (simp add: solver_stop_def solver_reset_def wp_simps wp_reads wp_get_node) (rule wp_send, auto)
qed

lemma terminate_in_step:
  assumes "in_step w" and "s_class (sock_of w s) = SolverC"
  shows "wp True (solver_terminate s) (\<lambda>_. in_step) (\<lambda>_ _. True) w"
proof (cases "s_node (sock_of w s)")
  case None
  then show ?thesis by (simp add: solver_terminate_def wp_simps wp_reads)
next
  case (Some n)
  note b = busy [OF assms Some]
  let ?h = "w_heap w"
  let ?m = "([(COMMAND, VStr TERMINATE), (NAME, VStr (n_name (cell ?h (n_root (cell ?h n))))), (NODE, VPath (addr ?h n))], VStr [])"
  have "peer_after (told w s @ [?m]) (believed w s)"
    using peer_after_request [OF b(3), of ?m TERMINATE] Some by (simp add: says_def believed_def at_node_def)
  then show ?thesis
    using Some b(2) by (simp add: solver_terminate_def wp_simps wp_reads wp_get_node) (rule wp_send, rule advance_note [OF assms], auto)
qed

lemma lemmas_in_step:
  assumes "in_step w" and "s_class (sock_of w s) = SolverC"
  shows "wp True (set_lemma_server s l) (\<lambda>_. in_step) (\<lambda>_ _. True) w"
proof -
  have "peer_after (told w s @ [m]) (believed w s)" if "says m COMMAND (VStr LEMMAS)" for m
    by (rule peer_after_setting [OF in_stepD(3) [OF assms]]) (use that in \<open>auto simp: says_def commands_def\<close>)
  then show ?thesis
    by (auto simp: set_lemma_server_def wp_simps wp_reads says_def split: option.split
        intro!: wp_send advance_note [OF assms])
qed

lemma ask_in_step:
  assumes w: "in_step w" "s_class (sock_of w s) = SolverC"
  shows "wp True (ask_partitions s k d) (\<lambda>_. in_step) (\<lambda>_ _. True) w"
proof (cases "s_node (sock_of w s)")
  case None
  then show ?thesis by (simp add: ask_partitions_def set_conf_def wp_simps wp_reads)
next
  case (Some n)
  define u where "u = w\<lparr>w_conf := w_conf w\<lparr>c_partition_count := c_partition_count (w_conf w) + k\<rparr>\<rparr>"
  have "sock_of u = sock_of w" "w_heap u = w_heap w" "w_sent u = w_sent w" by (simp_all add: u_def)
  then have "quiet w u" using kept_refl [OF w(1)] by (simp add: quiet_def)
  moreover have "stays s (Some n) w" using w Some by (simp add: stays_def)
  ultimately have "stays s (Some n) u" by (rule stays_quiet [rotated])
  then have u: "in_step u" "s_class (sock_of u s) = SolverC" "s_node (sock_of u s) = Some n" by (simp_all add: stays_def)
  note b = busy [OF u]
  let ?h = "w_heap u"
  let ?m = "([(COMMAND, VStr PARTITION), (NAME, VStr (n_name (cell ?h (n_root (cell ?h n))))), (NODE, VPath (addr ?h n)),
      (QUERY, VStr CHECK_SAT), (PARTITIONS, VInt k)], VStr [])"
  have "peer_after (told u s @ [?m]) (believed u s)"
    using peer_after_request [OF b(3), of ?m PARTITION] u(3) by (simp add: says_def believed_def at_node_def)
  from advance_note [OF u(1,2) this]
  have sent: "stays s (Some n) (u\<lparr>w_sends := j, w_sent := w_sent u @ [(s_conn (sock_of u s), ?m)]\<rparr>)" for j
    using u by (simp add: stays_def)
  have tail: "wp True K (\<lambda>_. stays s (Some n)) (\<lambda>_ _. True) (u\<lparr>w_sends := j, w_sent := w_sent u @ [(s_conn (sock_of u s), ?m)]\<rparr>)"
    if "keeps (stays s (Some n)) K" for K :: "(world, unit) prog" and j
    using upholdsD [OF that, OF sent [of j]] by (rule wp_mono) simp_all
  have "wp True (ask_partitions s k d) (\<lambda>_. stays s (Some n)) (\<lambda>_ _. True) w"
    unfolding ask_partitions_def set_conf_def
    apply (rule wp_steps)
    apply (subst u_def [symmetric])
    apply (rule wp_steps)
    apply (simp only: u(3) option.case)
    apply (rule wp_steps)+
    apply (rule b(2))
    apply (rule wp_seq_send)
    apply (rule tail)
    apply (rule keeps_intro quiet_rules | (simp add: same_links_def; fail))+
    done
  then show ?thesis by (rule wp_mono) (auto simp: stays_def)
qed

lemma to_string_fresh:
  assumes "heap_wf h" and "plain_lines h" and "placed h n"
  obtains smt where "to_string (n_root (cell h n)) n None h = Some (Inr (smt, CHECK_SAT))"
    "run_lines (script_lines smt) [[]] = Some (lines_of (frames_of n h))"
  using script_fresh [OF assms(1,2)] assms(3) by (auto simp: to_string_def placed_def)

lemma to_string_move:
  assumes "heap_wf h" and "plain_lines h" and "placed h a" and "placed h n" and "n_root (cell h n) = n_root (cell h a)"
  obtains smt where "to_string (n_root (cell h a)) n (Some a) h = Some (Inr (smt, CHECK_SAT))"
    "run_lines (script_lines smt) (lines_of (frames_of a h)) = Some (lines_of (frames_of n h))"
  using script_move [OF assms(1,2), of n a] assms(3-5) by (auto simp: to_string_def placed_def)

lemma to_string_other_tree:
  assumes "placed h a" and "n_root (cell h n) \<noteq> n_root (cell h a)"
  shows "to_string (n_root (cell h a)) n (Some a) h = Some (Inl ValueError)"
proof -
  have "pop_loop n (Some a) 0 h = Some (Inl ValueError)"
    using assms(2) by (subst pop_loop.simps) (simp add: is_ancestor_def)
  with assms(1) show ?thesis by (simp add: to_string_def smt_to_string_def smt_lines_def placed_def)
qed

text \<open>The end of a move: the solver's record changes, the message goes out, and the rest is quiet.\<close>

lemma move_in_step:
  assumes w: "in_step w" "s_class (sock_of w s) = SolverC" and n: "placed (w_heap w) n"
    and x: "s_class x = SolverC" "s_conn x = s_conn (sock_of w s)" "s_node x = Some n"
    and peer: "peer_after (told w s @ [m]) (at_node (w_heap w) n)"
  shows "stays s (Some n) (put_sock s x w\<lparr>w_sends := j, w_sent := w_sent w @ [(s_conn (sock_of w s), m)]\<rparr>)" (is "stays s _ ?t")
proof -
  have "in_step ?t"
  proof (rule advance [OF w, where ms = "[m]"])
    show "peer_after (told w s @ [m]) (believed ?t s)" using peer x(3) by (simp add: believed_def)
  qed (use kept_refl [OF w(1)] n x in simp_all)
  with x show ?thesis by (simp add: stays_def)
qed

lemma solve_idle_in_step:
  assumes w: "stays s None w" and n: "placed (w_heap w) n" and ps: "map_of ps NODE' = None"
  shows "wp True (seqM (set_sock s (\<lambda>x. x\<lparr>s_node := Some n, s_parameters := ps\<rparr>))
     (bindM (get_node n) (\<lambda>y. bindM (get_node (n_root y)) (\<lambda>r.
      bindM (read_heap (to_string (n_root y) n None)) (\<lambda>(smt, query).
      bindM (read_heap (path n)) (\<lambda>p. bindM (get_conf c_max_memory) (\<lambda>mem.
        let header = dict_update ps [(COMMAND, VStr SOLVE), (NAME, VStr (n_name r)), (NODE, VPath p), (QUERY, VStr query)]
        in seqM (write_msg s (dict_set MAX_MEMORY (VInt mem) header) (VStr smt))
           (bindM now (\<lambda>t. seqM (set_sock s (\<lambda>x. x\<lparr>s_started := Some t\<rparr>)) (node_start n)))))))))) (\<lambda>_. stays s (Some n)) (\<lambda>_ _. True) w"
proof -
  let ?h = "w_heap w"
  let ?x = "sock_of w s\<lparr>s_node := Some n, s_parameters := ps\<rparr>"
  have w': "in_step w" "s_class (sock_of w s) = SolverC" "s_node (sock_of w s) = None" using w by (simp_all add: stays_def)
  from to_string_fresh [OF in_stepD(1,2) [OF w'(1,2)] n] obtain smt
    where ls: "to_string (n_root (cell ?h n)) n None ?h = Some (Inr (smt, CHECK_SAT))"
      "run_lines (script_lines smt) [[]] = Some (lines_of (frames_of n ?h))" .
  have pth: "path n ?h = Some (Inr (addr ?h n))" using n path_attached by (simp add: placed_def)
  define m where "m = (dict_set MAX_MEMORY (VInt (c_max_memory (w_conf w))) (dict_update ps [(COMMAND, VStr SOLVE),
    (NAME, VStr (n_name (cell ?h (n_root (cell ?h n))))), (NODE, VPath (addr ?h n)), (QUERY, VStr CHECK_SAT)]), VStr smt)"
  have "peer_after (told w s) Idle" using in_stepD(3) [OF w'(1,2)] w'(3) by (simp add: believed_def)
  from peer_after_solve [OF this _ _ _ _ _ ls(2), of m "n_name (cell ?h (n_root (cell ?h n)))" "addr ?h n"]
  have "peer_after (told w s @ [m]) (at_node ?h n)"
    by (simp add: says_def m_def map_of_dict_update at_node_def ps)
  from move_in_step [OF w'(1,2) n _ _ _ this, of ?x] w'(2)
  have sent: "stays s (Some n) (put_sock s ?x w\<lparr>w_sends := j, w_sent := w_sent w @ [(s_conn (sock_of w s), m)]\<rparr>)" for j
    by simp
  have "keeps (stays s (Some n)) (bindM now (\<lambda>t. seqM (set_sock s (\<lambda>x. x\<lparr>s_started := Some t\<rparr>)) (node_start n)))"
    by (rule keeps_intro quiet_rules | simp)+
  from upholdsD [OF this, OF sent]
  have tail: "wp True (bindM now (\<lambda>t. seqM (set_sock s (\<lambda>x. x\<lparr>s_started := Some t\<rparr>)) (node_start n))) (\<lambda>_. stays s (Some n)) (\<lambda>_ _. True)
      (put_sock s ?x w\<lparr>w_sends := j, w_sent := w_sent w @ [(s_conn (sock_of w s), m)]\<rparr>)" for j
    by (rule wp_mono) simp_all
  show ?thesis
    apply (rule wp_steps)+
    apply (simp add: ls(1))
    apply (simp only: prod.case)
    apply (rule wp_steps)
    apply (simp add: pth)
    apply (rule wp_steps)
    apply (unfold Let_def)
    apply (rule wp_seq_send)
    using tail by (simp add: m_def)
qed

lemma solve_in_step:
  assumes w: "in_step w" "s_class (sock_of w s) = SolverC" and n: "placed (w_heap w) n" and ps: "map_of ps NODE' = None"
  shows "wp True (solver_solve s n ps) (\<lambda>_. stays s (Some n)) (\<lambda>_ _. True) w"
proof -
  have "wp True (whenM (s_node (sock_of w s) \<noteq> None) (solver_stop s)) (\<lambda>_ t. stays s None t \<and> placed (w_heap t) n) (\<lambda>_ _. True) w"
  proof (cases "s_node (sock_of w s)")
    case None
    with w n show ?thesis by (simp add: wp_simps stays_def)
  next
    case (Some a)
    with stop_in_step [OF w] n show ?thesis by (auto simp: wp_simps stays_def elim: wp_mono)
  qed
  then show ?thesis
    unfolding solver_solve_def
    by (intro wp_steps) (unfold wp_seqM [of _ "whenM _ _"], erule wp_mono, rule solve_idle_in_step, auto simp: ps)
qed

text \<open>After the message: the fields of the solver and of the node, and last the node where the solver is.\<close>

lemma arrives_in_step:
  assumes "leaves_for s n w"
  shows "wp True (seqM (set_sock s (\<lambda>x. x\<lparr>s_or_waiting := []\<rparr>))
           (bindM now (\<lambda>t. seqM (set_sock s (\<lambda>x. x\<lparr>s_started := Some t\<rparr>)) (seqM (node_start n) (set_sock s (\<lambda>x. x\<lparr>s_node := Some n\<rparr>))))))
        (\<lambda>_. stays s (Some n)) (\<lambda>_ _. True) w"
proof -
  have arrive: "leaves_for s n t \<Longrightarrow> wp True (set_sock s (\<lambda>x. x\<lparr>s_node := Some n\<rparr>)) (\<lambda>_. stays s (Some n)) (\<lambda>_ _. True) t" for t
    by (simp add: wp_reads leaves_for_def)
  have "keeps (leaves_for s n) (seqM (set_sock s (\<lambda>x. x\<lparr>s_or_waiting := []\<rparr>))
         (bindM now (\<lambda>t. seqM (set_sock s (\<lambda>x. x\<lparr>s_started := Some t\<rparr>)) (node_start n))))"
    by (rule keeps_intro quiet_rules | simp)+
  from upholdsD [OF this assms] have "wp True (seqM (seqM (set_sock s (\<lambda>x. x\<lparr>s_or_waiting := []\<rparr>))
         (bindM now (\<lambda>t. seqM (set_sock s (\<lambda>x. x\<lparr>s_started := Some t\<rparr>)) (node_start n)))) (set_sock s (\<lambda>x. x\<lparr>s_node := Some n\<rparr>)))
      (\<lambda>_. stays s (Some n)) (\<lambda>_ _. True) w"
    unfolding wp_seqM [of _ _ "set_sock s (\<lambda>x. x\<lparr>s_node := Some n\<rparr>)"] by (rule wp_mono) (simp_all add: arrive)
  then show ?thesis by (simp only: regroup)
qed

lemma incremental_in_step:
  assumes w: "in_step w" "s_class (sock_of w s) = SolverC" and n: "placed (w_heap w) n"
  shows "wp True (solver_incremental s n) (\<lambda>_. stays s (Some n)) (\<lambda>_ _. True) w"
proof (cases "s_node (sock_of w s)")
  case None
  then show ?thesis by (simp add: solver_incremental_def wp_simps wp_reads)
next
  case (Some a)
  note b = busy [OF w Some]
  let ?h = "w_heap w"
  let ?name = "n_name (cell ?h (n_root (cell ?h a)))"
  show ?thesis
  proof (cases "n_root (cell ?h n) = n_root (cell ?h a)")
    case False
    with Some b(1) show ?thesis
      by (simp add: solver_incremental_def wp_simps wp_reads wp_get_node to_string_other_tree)
  next
    case True
    from to_string_move [OF in_stepD(1,2) [OF w] b(1) n True] obtain smt
      where ls: "to_string (n_root (cell ?h a)) n (Some a) ?h = Some (Inr (smt, CHECK_SAT))"
        "run_lines (script_lines smt) (lines_of (frames_of a ?h)) = Some (lines_of (frames_of n ?h))" .
    have pth: "path n ?h = Some (Inr (addr ?h n))" using n path_attached by (simp add: placed_def)
    define m where "m = ([(COMMAND, VStr INCREMENTAL), (NAME, VStr ?name), (NODE, VPath (addr ?h a)), (NODE', VPath (addr ?h n)),
      (QUERY, VStr CHECK_SAT)], VStr smt)"
    from peer_after_incremental [OF b(3) _ _ _ _ _ ls(2), of m "addr ?h n"]
    have "peer_after (told w s @ [m]) (at_node ?h n)"
      by (simp add: says_def m_def at_node_def True)
    from move_in_step [OF w n _ _ _ this, of "(sock_of w s)\<lparr>s_node := Some n\<rparr>"] w(2)
    have "stays s (Some n) (put_sock s ((sock_of w s)\<lparr>s_node := Some n\<rparr>) w\<lparr>w_sends := j, w_sent := w_sent w @ [(s_conn (sock_of w s), m)]\<rparr>)" for j
      by simp
    moreover have "put_sock s x (w\<lparr>w_sends := j, w_sent := l\<rparr>) = put_sock s x w\<lparr>w_sends := j, w_sent := l\<rparr>" for x j l
      by (cases w) (simp add: put_sock_def)
    ultimately have sent: "leaves_for s n (w\<lparr>w_sends := j, w_sent := w_sent w @ [(s_conn (sock_of w s), m)]\<rparr>)" for j
      by (simp add: leaves_for_def)
    note tail = arrives_in_step [OF sent]
    show ?thesis
      unfolding solver_incremental_def
      apply (rule wp_steps)
      apply (simp only: Some option.case)
      apply (rule wp_steps)+
      apply (rule ls(1))
      apply (simp only: prod.case)
      apply (rule wp_steps, rule b(2))
      apply (rule wp_steps, rule pth)
      apply (rule wp_seq_send)
      using tail by (simp only: m_def)
  qed
qed

section \<open>Sequences of commands\<close>

text \<open>What the scheduler does to solvers and to the tree while instances are being solved.\<close>

datatype cmd = Solve sid nid "pyval dict" | Incremental sid nid | Stop sid | Terminate sid
  | AskPartitions sid int "nid option" | SetLemmaServer sid "sid option" | NewPartition nid string | NewStatus nid solve_status

fun perform :: "cmd \<Rightarrow> (world, unit) prog" where
  "perform (Solve s n ps) = solver_solve s n ps"
| "perform (Incremental s n) = solver_incremental s n"
| "perform (Stop s) = solver_stop s"
| "perform (Terminate s) = solver_terminate s"
| "perform (AskPartitions s k d) = ask_partitions s k d"
| "perform (SetLemmaServer s l) = set_lemma_server s l"
| "perform (NewPartition d p) = bindM (on_heap (and_node (Some d) (assertion p))) (\<lambda>_. retM ())"
| "perform (NewStatus n st) = on_heap (set_status n st)"

text \<open>The nodes are nodes of an SMT tree and the texts hold no line that moves between frames.\<close>

fun allowed :: "cmd \<Rightarrow> world \<Rightarrow> bool" where
  "allowed (Solve s n ps) w = (s_class (sock_of w s) = SolverC \<and> placed (w_heap w) n \<and> map_of ps NODE' = None)"
| "allowed (Incremental s n) w = (s_class (sock_of w s) = SolverC \<and> placed (w_heap w) n)"
| "allowed (NewPartition d p) w = (d < fresh (w_heap w) \<and> no_moves (assertion p))"
| "allowed (NewStatus n st) w = (n < fresh (w_heap w))"
| "allowed (Stop s) w = (s_class (sock_of w s) = SolverC)"
| "allowed (Terminate s) w = (s_class (sock_of w s) = SolverC)"
| "allowed (AskPartitions s k d) w = (s_class (sock_of w s) = SolverC)"
| "allowed (SetLemmaServer s l) w = (s_class (sock_of w s) = SolverC)"

definition performs :: "cmd \<Rightarrow> world \<Rightarrow> world \<Rightarrow> bool" where
  "performs c w t = (allowed c w \<and> perform c w = Some (Inr (), t))"

lemma new_partition_in_step:
  assumes w: "in_step w" and d: "d < fresh (w_heap w)" "no_moves (assertion p)"
  shows "wp True (bindM (on_heap (and_node (Some d) (assertion p))) (\<lambda>_. retM ())) (\<lambda>_. in_step) (\<lambda>_ _. True) w"
proof -
  have "in_step (w\<lparr>w_heap := grown AndNode (Some d) (assertion p) (w_heap w)\<rparr>)" if "n_class (cell (w_heap w) d) = OrNode"
    using grown_view_kept [of "w_heap w" d AndNode "assertion p"] in_step_tree [OF w] d that
    by (intro quiet_in_step [OF w]) (simp add: quiet_def)
  then show ?thesis
    by (cases "n_class (cell (w_heap w) d)") (simp_all add: wp_def bindM_def on_heap_def and_node_run run_simps)
qed

lemma new_status_in_step:
  assumes w: "in_step w" and n: "n < fresh (w_heap w)"
  shows "wp True (on_heap (set_status n st)) (\<lambda>_. in_step) (\<lambda>_ _. True) w"
proof -
  obtain h' where h: "set_status n st (w_heap w) = Some (Inr (), h')" "status_change (w_heap w) h'"
    using set_status_returns [of "w_heap w" n st] in_step_tree [OF w] n by metis
  from shape_view_kept [OF _ _ status_change_shape [OF h(2)]] in_step_tree [OF w]
  have "in_step (w\<lparr>w_heap := h'\<rparr>)" by (intro quiet_in_step [OF w]) (simp add: quiet_def)
  then show ?thesis by (simp add: on_heap_set_status [OF h(1)])
qed

lemma perform_in_step:
  assumes "in_step w" and "allowed c w"
  shows "wp True (perform c) (\<lambda>_. in_step) (\<lambda>_ _. True) w"
proof (cases c)
  case (Solve s n ps)
  with assms solve_in_step [of w s n ps] show ?thesis by (auto simp: stays_def elim!: wp_mono)
next
  case (Incremental s n)
  with assms incremental_in_step [of w s n] show ?thesis by (auto simp: stays_def elim!: wp_mono)
next
  case (Stop s)
  with assms stop_in_step [of w s] show ?thesis by (auto elim!: wp_mono)
qed (use assms terminate_in_step ask_in_step lemmas_in_step new_partition_in_step new_status_in_step in simp_all)

interpretation conversation: reactive performs in_step
proof
  fix w c t assume "in_step w" "performs c w t"
  then show "in_step t" using perform_in_step [of w c] by (simp add: performs_def wp_def)
qed

text \<open>C4: The server knows where its solvers are. After any sequence of commands that went out, on a tree
  that grows and changes status in between, a solver that does what it is told is exactly where the
  server's record says: idle when \<open>solver.node\<close> is \<open>None\<close>, and otherwise at the address of that node in the
  instance of that name, with the assertion stack of the node built line by line from the scripts it was sent.
  No message was out of place: none but \<open>solve\<close> went to an idle solver, and \<open>incremental\<close>, \<open>stop\<close> and
  \<open>partition\<close> named the node that the solver was at.\<close>

theorem solver_is_where_the_server_thinks:
  assumes "in_step w" and "runs performs cs w t" and "s_class (sock_of t s) = SolverC"
  shows "peer_run (told t s) = Some (case s_node (sock_of t s) of None \<Rightarrow> Idle
      | Some n \<Rightarrow> At (n_name (cell (w_heap t) (n_root (cell (w_heap t) n)))) (addr (w_heap t) n)
          (lines_of (frames_of n (w_heap t))))"
  using in_stepD(3) [OF conversation.runs_inv [OF assms(2,1)] assms(3)]
  by (simp add: peer_after_def believed_def at_node_def cong: option.case_cong)

text \<open>The sample server with an idle solver.\<close>

definition idle_world :: world where
  "idle_world = tree_world\<lparr>w_socks := [(0, blank_sock), (2, blank_sock\<lparr>s_class := SolverC, s_conn := 2, s_name := ''OpenSMT2''\<rparr>)]\<rparr>"

lemma idle_world_in_step: "in_step idle_world"
proof -
  have so: "sock_of idle_world = (\<lambda>_. blank_sock)(2 := blank_sock\<lparr>s_class := SolverC, s_conn := 2, s_name := ''OpenSMT2''\<rparr>)"
    by (auto simp: idle_world_def sock_of_def fun_eq_iff)
  have "plain_lines sample" by code_simp
  then show ?thesis
    by (simp add: in_step_def so told_def believed_def peer_after_def peer_run_def)
      (simp add: idle_world_def blank_sock_def tree_world_def server_new_def)
qed

lemma write_msg_run:
  assumes "frame h p = Inr x" and "s_open (sock_of w s)" and "\<And>k. \<not> e_fails (w_env w) k"
  shows "write_msg s h p w = Some (Inr (), w\<lparr>w_sends := Suc (Suc (w_sends w)), w_sent := w_sent w @ [(s_conn (sock_of w s), h, p)]\<rparr>)"
  using assms by (simp add: write_msg_def send_once_def get_sock_def run_simps bindM_def seqM_def)

lemma sample_unstarted: "n_started blank = None" "n_kind blank = SMT"
  by (simp_all add: blank_def)

definition first_message :: message where
  "first_message = ([(COMMAND, VStr SOLVE), (NAME, VStr ''f''), (NODE, VPath []), (QUERY, VStr CHECK_SAT), (MAX_MEMORY, VInt 10000)],
     VStr ''(a)'')"

lemma first_message_frame: obtains n d where "frame (fst first_message) (snd first_message) = Inr (n, d)"
proof -
  have "\<exists>n d. frame (fst first_message) (snd first_message) = Inr (n, d)"
    by (simp add: first_message_def frame_def dump_item_def pack_B_def sock_bytes_def encode_def pack_I_def Let_def show_path_def
        show_int_def show_nat.simps digit_def)
  then show ?thesis using that by blast
qed

lemma idle_world_solve:
  obtains t where "performs (Solve 2 0 []) idle_world t" "s_class (sock_of t 2) = SolverC" "s_node (sock_of t 2) = Some 0"
    "\<exists>k. w_heap t = upd 0 (\<lambda>z. z\<lparr>n_started := k\<rparr>) sample" "told t 2 = [first_message]"
proof -
  have so: "sock_of idle_world 2 = blank_sock\<lparr>s_class := SolverC, s_conn := 2, s_name := ''OpenSMT2''\<rparr>"
    by (simp add: idle_world_def sock_of_def)
  have sim: "w_heap idle_world = sample" "w_env idle_world = sample_env" "w_sent idle_world = []"
    by (simp_all add: idle_world_def tree_world_def server_new_def)
  have p: "path 0 sample = Some (Inr [])" "to_string 0 0 None sample = Some (Inr (''(a)'', CHECK_SAT))" by code_simp+
  let ?header = "dict_set MAX_MEMORY (VInt (c_max_memory (w_conf idle_world))) (dict_update []
    [(COMMAND, VStr SOLVE), (NAME, VStr ''f''), (NODE, VPath []), (QUERY, VStr CHECK_SAT)])"
  have mem: "c_max_memory (w_conf idle_world) = 10000" by (simp add: idle_world_def sample_conf_def default_config_def)
  have h: "(?header, VStr ''(a)'') = first_message" by (simp add: mem dict_update_def first_message_def)
  obtain x where fr: "frame ?header (VStr ''(a)'') = Inr x" using first_message_frame by (metis h fst_conv snd_conv)
  have ne: "\<not> e_fails sample_env k" for k by (simp add: sample_env_def)
  have "\<exists>t. perform (Solve 2 0 []) idle_world = Some (Inr (), t) \<and> s_class (sock_of t 2) = SolverC \<and> s_node (sock_of t 2) = Some 0
      \<and> (\<exists>k. w_heap t = upd 0 (\<lambda>z. z\<lparr>n_started := k\<rparr>) sample) \<and> told t 2 = [(?header, VStr ''(a)'')]"
    using fr so ne p
    by (simp add: solver_solve_def run_defs sim write_msg_run now_def node_start_def set_node_def blank_sock_def Let_def
        sample_unstarted told_def) blast
  moreover have "placed sample 0" by (simp add: placed_def sample_unstarted)
  ultimately show ?thesis using that so sim h by (auto simp: performs_def)
qed

theorem solver_is_where_the_server_thinks_witness:
  "\<exists>t. performs (Solve 2 0 []) idle_world t \<and> peer_run (told t 2) = Some (At ''f'' [] [[''(a)'']])"
proof -
  obtain t k where t: "performs (Solve 2 0 []) idle_world t" "s_class (sock_of t 2) = SolverC" "s_node (sock_of t 2) = Some 0"
    and h: "w_heap t = upd 0 (\<lambda>z. z\<lparr>n_started := k\<rparr>) sample" using idle_world_solve by metis
  have "runs performs [Solve 2 0 []] idle_world t" using t(1) by (blast intro: runs_cons runs_nil)
  from solver_is_where_the_server_thinks [OF idle_world_in_step this t(2)] t(3)
  have "peer_run (told t 2) = Some (At ''f'' [] [[''(a)'']])"
    by (simp add: h addr_root frames_of_root lines_of_def script_lines_def)
  with t(1) show ?thesis by blast
qed

end
