(* ===== verification/Dummy.thy ===== *)
theory Dummy
  imports Net SmtJson Constants
begin

text \<open>
  \<open>server/dummy_solver.py\<close>: a solver that obeys the protocol and answers at random, as a state machine
  over the messages it reads. What its environment contributes is the record \<open>dummy_env\<close>: the CNF text that
  \<open>solver_opensmt -d\<close> writes for a script, and random numbers. The process that sleeps and then reports
  is a field of the state; \<open>finish_job\<close> is its end.
\<close>

section \<open>Numbers in texts\<close>

text \<open>\<open>int(s)\<close>: white space around it, a sign, digits with single underscores between them (in ASCII).\<close>

fun digits_ok :: "string \<Rightarrow> bool" where
  "digits_ok [] = False"
| "digits_ok [c] = is_digit c"
| "digits_ok (c # d # r) = (is_digit c \<and> (if d = CHR ''_'' then digits_ok r else digits_ok (d # r)))"

definition strip :: "string \<Rightarrow> string" where
  "strip s = rev (dropWhile is_space (rev (dropWhile is_space s)))"

definition py_int :: "string \<Rightarrow> exc + int" where
  "py_int s = (let t = strip s;
       neg = (case t of [] \<Rightarrow> False | c # _ \<Rightarrow> c = CHR ''-'');
       ds = (case t of [] \<Rightarrow> [] | c # r \<Rightarrow> if c = CHR ''-'' \<or> c = CHR ''+'' then r else t)
     in if digits_ok ds
        then (let n = int (read_nat (filter (\<lambda>c. c \<noteq> CHR ''_'') ds)) in Inr (if neg then - n else n))
        else Inl ValueError)"

section \<open>State\<close>

text \<open>\<open>d_job\<close> is the process \<open>p\<close> with its arguments, \<open>d_running\<close> that it has not ended.\<close>

record dsolver =
  d_job :: "(string \<times> string) option"
  d_running :: bool
  d_prob :: "string option"
  d_node :: "string option"
  d_query :: "string option"
  d_smt :: "bytes option"
  d_clauses :: "jval option"
  d_wrote :: "(pyval dict \<times> pyval) list"
  d_draws :: nat

record dummy_env =
  de_cnf :: "string \<Rightarrow> exc + string"
  de_random :: "nat \<Rightarrow> nat"

definition dummy_idle :: dsolver where
  "dummy_idle = \<lparr>d_job = None, d_running = False, d_prob = None, d_node = None, d_query = None, d_smt = None,
     d_clauses = None, d_wrote = [], d_draws = 0\<rparr>"

text \<open>\<open>sock.write\<close>; \<open>None\<close> is printed as \<open>None\<close>.\<close>

definition dummy_write :: "pyval dict \<Rightarrow> string \<Rightarrow> (dsolver, unit) prog" where
  "dummy_write header payload = (case frame header (VStr payload) of Inl e \<Rightarrow> raiseM e
     | Inr _ \<Rightarrow> modM (\<lambda>d. d\<lparr>d_wrote := d_wrote d @ [(header, VStr payload)]\<rparr>))"

definition or_none :: "string option \<Rightarrow> pyval" where
  "or_none x = VStr (case x of None \<Rightarrow> ''None'' | Some s \<Rightarrow> s)"

definition field :: "string \<Rightarrow> string dict \<Rightarrow> ('s, string) prog" where
  "field k h = (case map_of h k of None \<Rightarrow> raiseM KeyError | Some v \<Rightarrow> retM v)"

section \<open>The child process\<close>

text \<open>\<open>solve_process\<close>, when \<open>solve\<close> returns \<open>status\<close>; on a timeout it sleeps for good.\<close>

definition finish_job :: "string \<Rightarrow> (dsolver, unit) prog" where
  "finish_job status = bindM (getM id) (\<lambda>d. case d_job d of None \<Rightarrow> retM ()
     | Some (name, node) \<Rightarrow> whenM (d_running d)
         (seqM (modM (\<lambda>d. d\<lparr>d_running := False\<rparr>))
           (dummy_write [(NAME, VStr name), (NODE, VStr node), (REPORT, VStr status)] [])))"

section \<open>CNF\<close>

definition get_cnf :: "dummy_env \<Rightarrow> (dsolver, string) prog" where
  "get_cnf e = bindM (getM id) (\<lambda>d.
     bindM (case d_smt d of None \<Rightarrow> retM [] | Some m \<Rightarrow> (if m = [] then retM []
              else case decode m of Inl x \<Rightarrow> raiseM x | Inr t \<Rightarrow> retM t)) (\<lambda>smt.
     bindM (case de_cnf e (smt @ case_option [] id (d_query d)) of Inl x \<Rightarrow> raiseM x | Inr c \<Rightarrow> retM c) (\<lambda>cnf.
     case smt2json cnf of Inl x \<Rightarrow> raiseM x
     | Inr j \<Rightarrow> seqM (modM (\<lambda>d. d\<lparr>d_clauses := Some j\<rparr>)) (retM cnf))))"

text \<open>The items of a list, or the characters of a text.\<close>

fun utf8_chars :: "string \<Rightarrow> string list" where
  "utf8_chars [] = []"
| "utf8_chars (c # cs) = (case utf8_chars cs of [] \<Rightarrow> [[c]]
     | u # us \<Rightarrow> (case u of [] \<Rightarrow> [c] # us
         | x # _ \<Rightarrow> (if 128 \<le> (of_char x :: nat) \<and> (of_char x :: nat) < 192 then (c # u) # us else [c] # u # us)))"

definition items_of :: "jval \<Rightarrow> jval list" where
  "items_of j = (case j of JArr xs \<Rightarrow> xs | JStr s \<Rightarrow> map JStr (utf8_chars s))"

definition pick :: "dummy_env \<Rightarrow> jval list \<Rightarrow> (dsolver, jval) prog" where
  "pick e xs = (if xs = [] then raiseM IndexError
     else bindM (getM d_draws) (\<lambda>n. seqM (modM (\<lambda>d. d\<lparr>d_draws := Suc n\<rparr>)) (retM (xs ! (de_random e n mod length xs)))))"

definition random_learnt :: "dummy_env \<Rightarrow> jval list \<Rightarrow> (dsolver, jval) prog" where
  "random_learnt e cs = bindM (pick e cs) (\<lambda>a. bindM (pick e cs) (\<lambda>b.
     bindM (mapM (\<lambda>c. pick e (drop 1 (items_of c))) [a, b]) (\<lambda>ls. retM (JArr (JStr ''or'' # ls)))))"

definition random_learnts :: "dummy_env \<Rightarrow> (dsolver, jval list) prog" where
  "random_learnts e = bindM (getM d_clauses) (\<lambda>j. case j of None \<Rightarrow> raiseM TypeError
     | Some v \<Rightarrow> (case items_of v of [] \<Rightarrow> raiseM IndexError
         | first # _ \<Rightarrow> mapM (\<lambda>_. random_learnt e (items_of first)) [0 ..< length (items_of first) div 10]))"

text \<open>The answer is the request's header with \<open>report\<close> in the place of \<open>command\<close>.\<close>

definition answer_header :: "string \<Rightarrow> string dict \<Rightarrow> pyval dict" where
  "answer_header command h = map (\<lambda>(k, v). (k, VStr v)) (dict_del COMMAND (dict_set REPORT command h))"

section \<open>One message\<close>

definition forget :: "dsolver \<Rightarrow> dsolver" where
  "forget d = d\<lparr>d_job := None, d_running := False, d_prob := None, d_node := None, d_query := None, d_smt := None, d_clauses := None\<rparr>"

definition start_job :: "string \<Rightarrow> string dict \<Rightarrow> bytes \<Rightarrow> (dsolver, unit) prog" where
  "start_job command h message =
     seqM (modM (\<lambda>d. d\<lparr>d_running := False\<rparr>))
     (bindM (field NAME h) (\<lambda>name. seqM (modM (\<lambda>d. d\<lparr>d_prob := Some name\<rparr>))
     (bindM (if has_key NODE' h then field NODE' h else field NODE h) (\<lambda>node.
      seqM (modM (\<lambda>d. d\<lparr>d_node := Some node, d_query := Some (case_option [] id (map_of h QUERY))\<rparr>))
     (bindM (getM d_smt) (\<lambda>smt.
      bindM (if command = SOLVE then retM message else case smt of None \<Rightarrow> raiseM TypeError | Some m \<Rightarrow> retM (m @ message)) (\<lambda>new.
        modM (\<lambda>d. d\<lparr>d_smt := Some new, d_job := Some (name, node), d_running := True\<rparr>))))))))"

definition send_partitions :: "string dict \<Rightarrow> (dsolver, unit) prog" where
  "send_partitions h = bindM (field PARTITIONS h) (\<lambda>k. case py_int k of Inl x \<Rightarrow> raiseM x
     | Inr n \<Rightarrow> bindM (getM id) (\<lambda>d. dummy_write [(NAME, or_none (d_prob d)), (NODE, or_none (d_node d)), (REPORT, VStr PARTITIONS)]
         (join [CHR 0x00] (replicate (nat n) ''true''))))"

definition send_clauses :: "dummy_env \<Rightarrow> string \<Rightarrow> string dict \<Rightarrow> bytes \<Rightarrow> (dsolver, unit) prog" where
  "send_clauses e command h message =
     seqM (case map_of h QUERY of None \<Rightarrow> retM () | Some q \<Rightarrow> modM (\<lambda>d. d\<lparr>d_query := Some q, d_smt := Some message\<rparr>))
     (bindM (get_cnf e) (\<lambda>cnf. dummy_write (answer_header command h) cnf))"

definition send_learnts :: "dummy_env \<Rightarrow> string \<Rightarrow> string dict \<Rightarrow> (dsolver, unit) prog" where
  "send_learnts e command h =
     seqM (bindM (getM d_clauses) (\<lambda>c. whenM (c = None) (bindM (get_cnf e) (\<lambda>_. retM ()))))
     (bindM (random_learnts e) (\<lambda>ls. dummy_write (answer_header command h) (json2smt [JArr ls])))"

text \<open>\<open>header['command'] in 'cnf-clauses'\<close> is a test for a substring; anything else is printed.\<close>

definition dummy_message :: "dummy_env \<Rightarrow> string dict \<times> bytes \<Rightarrow> (dsolver, unit) prog" where
  "dummy_message e m = (case m of (h, message) \<Rightarrow> bindM (field COMMAND h) (\<lambda>command. bindM (getM d_job) (\<lambda>p.
     if p \<noteq> None \<and> command = STOP then modM forget
     else if command = SOLVE \<or> command = INCREMENTAL then start_job command h message
     else if command = PARTITION then send_partitions h
     else if sublist command CNF_CLAUSES then send_clauses e command h message
     else if command = CNF_LEARNTS then send_learnts e command h
     else retM ())))"

section \<open>The loop\<close>

text \<open>\<open>solver(address, \<dots>)\<close> on what arrives: it says who it is, and ends when the connection does.\<close>

partial_function (option) dummy_loop :: "dummy_env \<Rightarrow> arrival list \<Rightarrow> dsolver \<Rightarrow> ((exc + unit) \<times> dsolver) option" where
  "dummy_loop e ars d = (case sock_read ars of None \<Rightarrow> None
     | Some (Inl x, _) \<Rightarrow> Some (if x = ConnectionAborted then Inr () else Inl x, d)
     | Some (Inr m, rest) \<Rightarrow> (case dummy_message e m d of None \<Rightarrow> None
         | Some (Inl x, d') \<Rightarrow> Some (Inl x, d')
         | Some (Inr (), d') \<Rightarrow> dummy_loop e rest d'))"

declare dummy_loop.simps [code]

definition dummy_solver :: "dummy_env \<Rightarrow> arrival list \<Rightarrow> (dsolver, unit) prog" where
  "dummy_solver e ars = seqM (dummy_write [(SOLVER, VStr ''dummy solver'')] []) (dummy_loop e ars)"

end
