(* ===== verification/DummySpec.thy ===== *)
theory DummySpec
  imports Dummy Session
begin

text \<open>
  The dummy solver against the server: read off the wire, the commands that \<open>Session\<close> describes lead it
  where \<open>peer_step\<close> says, and what it reports then counts.
\<close>

section \<open>One message\<close>

definition obeys :: "peer \<Rightarrow> dsolver \<Rightarrow> bool" where
  "obeys p d = (case p of
     Idle \<Rightarrow> d_job d = None \<and> d_prob d = None \<and> d_node d = None
   | At name a st \<Rightarrow> d_job d = Some (name, show_path a) \<and> d_prob d = Some name \<and> d_node d = Some (show_path a)
       \<and> d_smt d \<noteq> None)"

lemma map_of_str_header: "map_of (str_header h) k = map_option py_str (map_of h k)"
  by (induction h) (auto simp: str_header_def)

lemma has_key_map_of: "has_key k d \<longleftrightarrow> map_of d k \<noteq> None"
  by (simp add: has_key_def map_of_eq_None_iff)

lemma field_run: "field k h d = Some (case map_of h k of None \<Rightarrow> Inl KeyError | Some v \<Rightarrow> Inr v, d)"
  by (simp add: field_def run_simps split: option.split)

subsection \<open>\<open>int\<close> reads what \<open>str\<close> prints\<close>

lemma digits_ok_digits: "s \<noteq> [] \<Longrightarrow> \<forall>c \<in> set s. is_digit c \<Longrightarrow> digits_ok s"
proof (induction s rule: digits_ok.induct)
  case (3 c d r)
  have "\<not> is_digit (CHR ''_'')" by (simp add: is_digit_def)
  with 3 show ?case by auto
qed simp_all

lemma strip_id: "s \<noteq> [] \<Longrightarrow> \<not> is_space (hd s) \<Longrightarrow> \<not> is_space (last s) \<Longrightarrow> strip s = s"
proof -
  have drop: "x \<noteq> [] \<Longrightarrow> \<not> is_space (hd x) \<Longrightarrow> dropWhile is_space x = x" for x by (cases x) simp_all
  assume "s \<noteq> []" "\<not> is_space (hd s)" "\<not> is_space (last s)"
  with drop [of s] drop [of "rev s"] show ?thesis by (simp add: strip_def hd_rev)
qed

lemma is_digit_show_nat: "c \<in> set (show_nat n) \<Longrightarrow> is_digit c \<and> \<not> is_space c \<and> c \<noteq> CHR ''_'' \<and> c \<noteq> CHR ''-'' \<and> c \<noteq> CHR ''+''"
  using show_nat_digits [of c n] by (auto simp: is_digit_def is_space_def)

lemma py_int_show_int: "py_int (show_int k) = Inr k"
proof -
  have nat: "digits_ok (show_nat n)" "filter (\<lambda>c. c \<noteq> CHR ''_'') (show_nat n) = show_nat n" for n
    using is_digit_show_nat [of _ n] digits_ok_digits [of "show_nat n"] show_nat_nonempty by (auto intro: filter_True)
  have ends: "is_digit (hd (show_nat n)) \<and> \<not> is_space (hd (show_nat n)) \<and> hd (show_nat n) \<noteq> CHR ''-'' \<and> hd (show_nat n) \<noteq> CHR ''+''"
    "\<not> is_space (last (show_nat n))" for n
    using is_digit_show_nat show_nat_nonempty by (metis list.set_sel(1), metis last_in_set)
  have "\<not> is_space (CHR ''-'')" by (simp add: is_space_def)
  then have strip: "strip (show_nat n) = show_nat n" "strip (CHR ''-'' # show_nat n) = CHR ''-'' # show_nat n" for n
    using ends [of n] show_nat_nonempty [of n] by (simp_all add: strip_id)
  obtain c r where cr: "show_nat (nat k) = c # r" using show_nat_nonempty [of "nat k"] by (cases "show_nat (nat k)") auto
  with ends(1) [of "nat k"] have c: "c \<noteq> CHR ''-''" "c \<noteq> CHR ''+''" by auto
  show ?thesis
  proof (cases "k < 0")
    case True
    with nat strip show ?thesis by (simp add: py_int_def show_int_def)
  next
    case False
    with c cr nat [of "nat k"] strip [of "nat k"] read_show_nat [of "nat k"] show ?thesis by (simp add: py_int_def show_int_def)
  qed
qed

subsection \<open>What the server sends\<close>

text \<open>A message of the server to a solver, with a number of partitions that fits the answer.\<close>

definition server_message :: "message \<Rightarrow> bool" where
  "server_message m = ((\<exists>c \<in> set (LEMMAS # commands). says m COMMAND (VStr c)) \<and> short_header (fst m)
     \<and> (says m COMMAND (VStr PARTITION) \<longrightarrow> (\<exists>k < 2 ^ 28. says m PARTITIONS (VInt k))))"

lemma length_join: "length (join sep xs) \<le> sum_list (map length xs) + length xs * length sep"
  by (induction sep xs rule: join.induct) simp_all

lemma frame_small:
  assumes "short_header h" and "length h \<le> 3" and "length s < 2 ^ 31"
  shows "\<exists>x. frame h (VStr s) = Inr x"
proof -
  from assms(1) obtain d where d: "dump_header h = Inr d" using dump_header_ok by blast
  have "(\<Sum>(k, v) \<leftarrow> h. 2 + length k + length (py_str v)) \<le> (\<Sum>_ \<leftarrow> h. 512)"
    using assms(1) by (intro sum_list_mono) (force simp: short_header_def)
  with length_dump_header [OF d] assms(2) have "length d \<le> 1536" by (simp add: sum_list_triv)
  with frame_ok_iff [of h "VStr s"] assms d show ?thesis by (auto simp: sock_bytes_def)
qed

definition message_of :: "message \<Rightarrow> string dict \<times> bytes" where
  "message_of m = (str_header (fst m), sock_bytes (snd m))"

lemma not_clauses: "\<not> sublist LEMMAS CNF_CLAUSES" "\<not> sublist TERMINATE CNF_CLAUSES" "\<not> sublist STOP CNF_CLAUSES"
  by code_simp+

lemma peer_says:
  assumes "peer_step m p = Some p'" and "says m COMMAND (VStr c)"
  shows "c = STOP \<Longrightarrow> p' = Idle" "c = LEMMAS \<Longrightarrow> p' = p" "c = TERMINATE \<Longrightarrow> p' = p"
    and "c = SOLVE \<Longrightarrow> \<exists>name a st smt. p' = At name a st \<and> says m NAME (VStr name) \<and> says m NODE (VPath a)
          \<and> map_of (fst m) NODE' = None \<and> snd m = VStr smt"
    and "c = INCREMENTAL \<Longrightarrow> \<exists>name a st b st' smt. p = At name a st \<and> p' = At name b st' \<and> says m NAME (VStr name)
          \<and> says m NODE (VPath a) \<and> says m NODE' (VPath b) \<and> snd m = VStr smt"
    and "c = PARTITION \<Longrightarrow> \<exists>name a st. p = At name a st \<and> p' = p \<and> says m NAME (VStr name) \<and> says m NODE (VPath a)"
  using assms by (auto simp: peer_step_def says_def commands_def split: if_splits peer.splits option.splits pyval.splits)

lemma short_value: "short_header h \<Longrightarrow> map_of h k = Some v \<Longrightarrow> length (py_str v) < 256"
  by (drule map_of_SomeD) (auto simp: short_header_def)

lemma dummy_obeys:
  assumes step: "peer_step m p = Some p'" and p: "obeys p d" and m: "server_message m"
  shows "\<exists>d'. dummy_message e (message_of m) d = Some (Inr (), d') \<and> obeys p' d'"
proof -
  obtain c where c: "says m COMMAND (VStr c)" "c \<in> set (LEMMAS # commands)"
    using m unfolding server_message_def by blast
  then have cs: "c \<in> {LEMMAS, TERMINATE, STOP, SOLVE, INCREMENTAL, PARTITION}" by (auto simp: commands_def)
  note says = map_of_str_header says_def and peer = peer_says [OF step c(1)]
  from c have hc: "map_of (str_header (fst m)) COMMAND = Some c" by (simp add: says)
  note run = dummy_message_def message_of_def bindM_def seqM_def field_run hc hc [unfolded map_of_str_header] c(1) [unfolded says_def] run_simps
  from cs show ?thesis
  proof (elim insertE emptyE)
    assume cc: "c = LEMMAS"
    with peer(2) p not_clauses show ?thesis by (simp add: run)
  next
    assume cc: "c = TERMINATE"
    with peer(3) p not_clauses show ?thesis by (simp add: run)
  next
    assume cc: "c = STOP"
    with peer(1) p not_clauses(3) show ?thesis by (cases "d_job d") (simp_all add: run obeys_def forget_def split: peer.splits)
  next
    assume cc: "c = SOLVE"
    with peer(4) obtain name a st smt where "p' = At name a st" "says m NAME (VStr name)" "says m NODE (VPath a)"
      "map_of (fst m) NODE' = None" by blast
    with cc show ?thesis by (simp add: run start_job_def has_key_map_of says obeys_def)
  next
    assume cc: "c = INCREMENTAL"
    with peer(5) obtain name a st b st' where "p = At name a st" "p' = At name b st'" "says m NAME (VStr name)"
      "says m NODE' (VPath b)" by blast
    with cc p show ?thesis by (auto simp: run start_job_def has_key_map_of says obeys_def)
  next
    assume cc: "c = PARTITION"
    with peer(6) obtain name a st where p': "p = At name a st" "p' = p" "says m NAME (VStr name)" "says m NODE (VPath a)" by blast
    from m cc c obtain k where k: "k < 2 ^ 28" "says m PARTITIONS (VInt k)" unfolding server_message_def by blast
    let ?h = "[(NAME, VStr name), (NODE, VStr (show_path a)), (REPORT, VStr PARTITIONS)]"
      and ?s = "join [CHR 0x00] (replicate (nat k) ''true'')"
    have "short_header (fst m)" using m unfolding server_message_def by blast
    with p'(3,4) short_value [of "fst m" NAME] short_value [of "fst m" NODE] have "short_header ?h"
      by (simp add: says_def short_header_def)
    have "length ?s < 2 ^ 31" using length_join [of "[CHR 0x00]" "replicate (nat k) ''true''"] k(1) by (simp add: sum_list_replicate)
    from frame_small [OF \<open>short_header ?h\<close> _ this] obtain x where "frame ?h (VStr ?s) = Inr x" by auto
    with cc p p' k(2) show ?thesis
      by (simp add: run send_partitions_def says py_int_show_int obeys_def or_none_def dummy_write_def)
  qed
qed

section \<open>The stream of messages\<close>

text \<open>A message that arrives as it was written.\<close>

definition arrives_as :: "message \<Rightarrow> bytes \<Rightarrow> bool" where
  "arrives_as m bs = ((\<exists>n d. frame (fst m) (snd m) = Inr (n, d) \<and> bs = n @ d) \<and> distinct (map fst (fst m)) \<and> text_header (fst m))"

lemma arrives_read: "arrives_as m bs \<Longrightarrow> sock_read (Bytes bs # ars) = Some (Inr (message_of m), ars)"
proof -
  assume "arrives_as m bs"
  then obtain n d where fr: "frame (fst m) (snd m) = Inr (n, d)" and bs: "bs = n @ d" and keys: "distinct (map fst (fst m))"
    and texts: "text_header (fst m)" by (auto simp: arrives_as_def)
  from fr obtain dh where dh: "dump_header (fst m) = Inr dh" and d: "d = dh @ 0 # sock_bytes (snd m)"
    and n: "n = pack_I (length d)" "length n = 4" and lt: "length d < 2 ^ 32" by (rule frame_parts) simp
  have hdr: "read_header d [] = Inr (message_of m)"
    using read_header_dump [OF dh texts, of "sock_bytes (snd m)" "[]"] dict_update_fresh [of "[]" "str_header (fst m)"] keys
    by (simp add: d message_of_def)
  have r4: "recv 4 (Bytes bs # ars) = Some (Inr n, Bytes d # ars)" using n(2) d by (auto simp: recv_def bs)
  have "recv_all (length d) (Bytes d # ars) = Some (Inr d, ars)"
    using d by (simp add: recv_all_def whileM_next [where l' = d and s' = ars] recv_def bindM_def run_simps whileM_stop)
  with r4 n lt hdr show ?thesis by (simp add: sock_read_def bindM_def run_simps unpack_pack_I)
qed

lemma dummy_loop_end: "dummy_loop e [Eof] d = Some (Inr (), d)"
  by (subst dummy_loop.simps) (simp add: sock_read_end)

lemma dummy_loop_obeys:
  "list_all2 arrives_as ms chunks \<Longrightarrow> foldl (\<lambda>p m. Option.bind p (peer_step m)) (Some p) ms = Some p' \<Longrightarrow> obeys p d \<Longrightarrow>
   \<forall>m \<in> set ms. server_message m \<Longrightarrow> \<exists>d'. dummy_loop e (map Bytes chunks @ [Eof]) d = Some (Inr (), d') \<and> obeys p' d'"
proof (induction ms arbitrary: chunks p d)
  case Nil
  then show ?case by (simp add: dummy_loop_end)
next
  case (Cons m ms)
  from Cons.prems(1) obtain bs rest where c: "chunks = bs # rest" "arrives_as m bs" "list_all2 arrives_as ms rest"
    by (auto simp: list_all2_Cons1)
  have "foldl (\<lambda>p m. Option.bind p (peer_step m)) None ms = None" for ms :: "message list" by (induction ms) simp_all
  with Cons.prems(2) obtain p1 where p1: "peer_step m p = Some p1" "foldl (\<lambda>p m. Option.bind p (peer_step m)) (Some p1) ms = Some p'"
    by (cases "peer_step m p") simp_all
  from Cons.prems(4) have "server_message m" by simp
  from dummy_obeys [OF p1(1) Cons.prems(3) this] obtain d1 where
    d1: "dummy_message e (message_of m) d = Some (Inr (), d1)" "obeys p1 d1" by blast
  with Cons.IH [OF c(3) p1(2)] Cons.prems(4) obtain d' where "dummy_loop e (map Bytes rest @ [Eof]) d1 = Some (Inr (), d')" "obeys p' d'" by auto
  with d1 c(1) arrives_read [OF c(2), of "map Bytes rest @ [Eof]"] show ?case
    by (subst dummy_loop.simps) (simp split: unit.split)
qed

text \<open>C5: The dummy solver goes where the server thinks it is. After any sequence of commands that went
  out, the dummy solver that reads the bytes sent to it, message by message until the connection ends, has not failed and has the name and the path of
  the node that the server's record of the solver holds, or nothing when the server has it idle; the process
  that it has started would report under them.\<close>

theorem dummy_goes_where_it_is_sent:
  assumes "in_step w" and "runs performs cs w t" and "s_class (sock_of t s) = SolverC"
    and "\<forall>m \<in> set (told t s). server_message m" and "list_all2 arrives_as (told t s) chunks"
  shows "\<exists>d. dummy_loop e (map Bytes chunks @ [Eof]) dummy_idle = Some (Inr (), d) \<and> d_job d = (case s_node (sock_of t s) of None \<Rightarrow> None
      | Some n \<Rightarrow> Some (n_name (cell (w_heap t) (n_root (cell (w_heap t) n))), show_path (addr (w_heap t) n)))
    \<and> d_prob d = map_option fst (d_job d) \<and> d_node d = map_option snd (d_job d)"
proof -
  have "peer_after (told t s) (believed t s)" using in_stepD(3) [OF conversation.runs_inv [OF assms(2,1)] assms(3)] .
  moreover have "obeys Idle dummy_idle" by (simp add: obeys_def dummy_idle_def)
  ultimately obtain d where "dummy_loop e (map Bytes chunks @ [Eof]) dummy_idle = Some (Inr (), d)" "obeys (believed t s) d"
    using dummy_loop_obeys [OF assms(5), of Idle "believed t s" dummy_idle e] assms(4) by (auto simp: peer_after_def peer_run_def)
  then show ?thesis by (intro exI [of _ d]) (auto simp: believed_def at_node_def obeys_def split: option.splits)
qed

theorem dummy_goes_where_it_is_sent_witness:
  "\<exists>t chunks. performs (Solve 2 0 []) idle_world t \<and> told t 2 = [first_message] \<and> list_all2 arrives_as (told t 2) chunks
     \<and> (\<forall>e. \<exists>d. dummy_loop e (map Bytes chunks @ [Eof]) dummy_idle = Some (Inr (), d) \<and> d_job d = Some (''f'', ''[]''))"
proof -
  obtain t k where t: "performs (Solve 2 0 []) idle_world t" "s_class (sock_of t 2) = SolverC" "s_node (sock_of t 2) = Some 0"
    "told t 2 = [first_message]" and h: "w_heap t = upd 0 (\<lambda>z. z\<lparr>n_started := k\<rparr>) sample" using idle_world_solve by metis
  obtain n d where fr: "frame (fst first_message) (snd first_message) = Inr (n, d)" by (rule first_message_frame)
  have arr: "list_all2 arrives_as (told t 2) [n @ d]"
    using fr by (simp add: t(4) arrives_as_def)
      (simp add: first_message_def text_header_def is_text_def encode_def between_def show_path_def show_int_def show_nat.simps digit_def)
  have srv: "\<forall>m \<in> set (told t 2). server_message m"
    by (simp add: t(4) server_message_def says_def commands_def first_message_def short_header_def show_path_def show_int_def
        show_nat.simps)
  have "runs performs [Solve 2 0 []] idle_world t" using t(1) by (blast intro: runs_cons runs_nil)
  from dummy_goes_where_it_is_sent [OF idle_world_in_step this t(2) srv arr] t(3)
  have "\<forall>e. \<exists>d'. dummy_loop e (map Bytes [n @ d] @ [Eof]) dummy_idle = Some (Inr (), d') \<and> d_job d' = Some (''f'', ''[]'')"
    by (auto simp: h addr_root show_path_def)
  with t(1,4) arr show ?thesis by blast
qed

section \<open>What it reports\<close>

text \<open>C15: The verdict of the dummy solver counts. When it is where the server has it, debugging is off, and its
  process ends with a verdict, the message that goes out is not stale: \<open>Solver.read\<close> returns the report, and the verdict
  is then the status of the solver's node; with \<open>unsat\<close> no partition below the node that is in the tree is left
  open. Nothing but statuses changes in the tree.\<close>

theorem dummy_verdict_counts:
  assumes "obeys (believed w s) d" and "s_node (sock_of w s) = Some n" and "heap_wf (w_heap w)" and "placed (w_heap w) n"
    and "\<not> c_debug (w_conf w)" and "d_running d" and "finish_job (status_name st) d = Some (Inr (), d')"
  shows "\<exists>header w'. d_wrote d' = d_wrote d @ [(header, VStr [])]
     \<and> solver_read s (str_header header) [] w
       = Some (Inr ([(NODE, HStr (show_path (addr (w_heap w) n))), (REPORT, HStr (status_name st))], []), w')
     \<and> n_status (cell (w_heap w') n) = st \<and> status_change (w_heap w) (w_heap w')
     \<and> (st = Unsat \<longrightarrow> (\<forall>m. attached (w_heap w) m \<and> m < fresh (w_heap w) \<and> anc (w_heap w) n m
          \<and> n_class (cell (w_heap w) m) = AndNode \<longrightarrow> n_status (cell (w_heap w') m) \<noteq> Unknown))"
proof -
  let ?h = "w_heap w" and ?a = "show_path (addr (w_heap w) n)"
  let ?name = "n_name (cell ?h (n_root (cell ?h n)))"
  let ?m = "[(NAME, VStr ?name), (NODE, VStr ?a), (REPORT, VStr (status_name st))]"
  have "d_job d = Some (?name, ?a)" using assms(1,2) by (simp add: believed_def at_node_def obeys_def)
  with assms(6,7) have wrote: "d_wrote d' = d_wrote d @ [(?m, VStr [])]"
    by (auto simp: finish_job_def dummy_write_def bindM_def seqM_def run_simps split: sum.splits)
  have n: "n < fresh ?h" "attached ?h n" using assms(4) by (simp_all add: placed_def)
  have "path n ?h = Some (Inr (addr ?h n))" by (rule path_attached [OF n(2)])
  moreover have "status_of_name (status_name st) = Some st" "status_name st \<noteq> PARTITIONS"
    by (cases st; simp add: status_name_def status_of_name_def)+
  moreover obtain w' where w': "read_status s n st w = Some (Inr (), w')" "n_status (cell (w_heap w') n) = st"
    "status_change ?h (w_heap w')" "st = Unsat \<longrightarrow> (\<forall>m. attached ?h m \<and> m < fresh ?h \<and> anc ?h n m
        \<and> n_class (cell ?h m) = AndNode \<longrightarrow> n_status (cell (w_heap w') m) \<noteq> Unknown)"
    using read_status_run [OF assms(3) n, of s st] by blast
  ultimately have "solver_read s (str_header ?m) [] w = Some (Inr ([(NODE, HStr ?a), (REPORT, HStr (status_name st))], []), w')"
    using assms(2,5) by (simp add: solver_read_def str_header_def run_defs Let_def dict_del_def)
  with wrote w' show ?thesis by blast
qed

text \<open>The dummy solver at node \<open>2\<close> of the sample tree.\<close>

definition at_work :: dsolver where
  "at_work = dummy_idle\<lparr>d_job := Some (''f'', ''[0, 0]''), d_running := True, d_prob := Some ''f'', d_node := Some ''[0, 0]'', d_smt := Some []\<rparr>"

lemma sample_at_2: "placed sample 2" "addr sample 2 = [0, 0]" "show_path [0, 0] = ''[0, 0]''"
proof -
  show pl: "placed sample 2" by (simp add: placed_def sample_attached) (simp add: blank_def)
  then have "path 2 sample = Some (Inr (addr sample 2))" using path_attached by (simp add: placed_def)
  moreover have "path 2 sample = Some (Inr [0, 0])" by code_simp
  ultimately show "addr sample 2 = [0, 0]" by simp
qed (simp add: show_path_def show_nat.simps digit_def)

lemma at_work_obeys: "s_node (sock_of w s) = Some 2 \<Longrightarrow> w_heap w = sample \<Longrightarrow> obeys (believed w s) at_work"
  by (simp add: believed_def at_node_def obeys_def at_work_def sample_at_2)

lemma small_frames:
  "\<exists>x. frame [(NAME, VStr ''f''), (NODE, VStr ''[0, 0]''), (REPORT, VStr (status_name Unsat))] (VStr []) = Inr x"
  "\<exists>x. frame [(NAME, VStr ''f''), (NODE, VStr ''[0, 0]''), (REPORT, VStr PARTITIONS)] (VStr (join [CHR 0x00] [''true'', ''true''])) = Inr x"
  by (rule frame_small; simp add: short_header_def status_name_def)+

theorem dummy_verdict_counts_witness:
  "\<exists>header w'. solver_read 2 (str_header header) [] tree_world
     = Some (Inr ([(NODE, HStr ''[0, 0]''), (REPORT, HStr ''unsat'')], []), w') \<and> n_status (cell (w_heap w') 2) = Unsat"
proof -
  have "obeys (believed tree_world 2) at_work" by (rule at_work_obeys) simp_all
  moreover obtain d' where "finish_job (status_name Unsat) at_work = Some (Inr (), d')"
    using small_frames(1) by (auto simp: finish_job_def dummy_write_def bindM_def seqM_def run_simps at_work_def dummy_idle_def)
  ultimately show ?thesis
    using dummy_verdict_counts [of tree_world 2 at_work 2 Unsat d'] sample_at_2
    by (simp add: at_work_def status_name_def) blast
qed

section \<open>Partitions\<close>

lemma partitions_of_join:
  assumes "\<forall>x \<in> set xs. CHR 0x00 \<notin> set x \<and> x \<noteq> []"
  shows "partitions_of (join [CHR 0x00] xs) = xs"
proof (cases "xs = []")
  case False
  with assms split_on_join [of xs "CHR 0x00"] show ?thesis by (auto simp: partitions_of_def intro!: filter_True)
qed (simp add: partitions_of_def)

text \<open>The tree after \<open>AndNode\<close>s with these texts were made below \<open>d\<close>.\<close>

definition grown_all :: "nid \<Rightarrow> string list \<Rightarrow> heap \<Rightarrow> heap" where
  "grown_all d smts h = foldl (\<lambda>h smt. grown AndNode (Some d) smt h) h smts"

lemma grown_all_Cons [simp]: "grown_all d [] h = h" "grown_all d (x # xs) h = grown_all d xs (grown AndNode (Some d) x h)"
  by (simp_all add: grown_all_def)

lemma grown_all_run:
  "n_class (cell (w_heap w) d) = OrNode \<Longrightarrow> d < fresh (w_heap w) \<Longrightarrow>
   forM (\<lambda>p. bindM (on_heap (and_node (Some d) (assertion p))) (\<lambda>_. retM ())) ps w
     = Some (Inr (), w\<lparr>w_heap := grown_all d (map assertion ps) (w_heap w)\<rparr>)"
proof (induction ps arbitrary: w)
  case (Cons p ps)
  let ?w = "w\<lparr>w_heap := grown AndNode (Some d) (assertion p) (w_heap w)\<rparr>"
  have "n_class (cell (w_heap ?w) d) = OrNode" "d < fresh (w_heap ?w)" using Cons.prems by (simp_all add: cell_grown_old)
  from Cons.IH [OF this] Cons.prems(1) show ?case
    by (simp add: seqM_def bindM_def on_heap_def and_node_run run_simps)
qed (simp add: run_simps)

lemma grown_all_fresh: "fresh (grown_all d smts h) = fresh h + length smts"
  by (induction smts arbitrary: h) simp_all

lemma upt_up: "m # [Suc m ..< Suc (m + k)] = [m ..< Suc (m + k)]"
  by (metis le_add1 less_Suc_eq_le upt_conv_Cons)

lemma grown_all_old:
  "d < fresh h \<Longrightarrow> n < fresh h \<Longrightarrow> cell (grown_all d smts h) n =
     (if n = d then (cell h d)\<lparr>n_children := n_children (cell h d) @ [fresh h ..< fresh h + length smts]\<rparr> else cell h n)"
proof (induction smts arbitrary: h)
  case (Cons x xs)
  let ?h = "grown AndNode (Some d) x h"
  have "cell (grown_all d xs ?h) n = (if n = d then (cell ?h d)\<lparr>n_children := n_children (cell ?h d)
      @ [fresh ?h ..< fresh ?h + length xs]\<rparr> else cell ?h n)"
    by (rule Cons.IH) (use Cons.prems in simp_all)
  with Cons.prems show ?case by (simp add: cell_grown_old upt_up del: upt_Suc)
qed simp

lemma grown_all_new:
  "d < fresh h \<Longrightarrow> i < length smts \<Longrightarrow> cell (grown_all d smts h) (fresh h + i) =
     blank\<lparr>n_class := AndNode, n_parent := Some d, n_root := n_root (cell h d), n_smt := smts ! i\<rparr>"
proof (induction smts arbitrary: h i)
  case (Cons x xs)
  let ?h = "grown AndNode (Some d) x h"
  show ?case
  proof (cases i)
    case 0
    with Cons.prems grown_all_old [of d ?h "fresh h" xs] show ?thesis by (simp add: cell_grown_new)
  next
    case (Suc j)
    with Cons.prems Cons.IH [of ?h j] show ?thesis by (simp add: cell_grown_old)
  qed
qed simp

text \<open>The tree after a report of these partitions: below a node that has been solved in the meantime the split is
  emptied at once.\<close>

definition split_heap :: "nid \<Rightarrow> nid \<Rightarrow> string list \<Rightarrow> heap \<Rightarrow> heap" where
  "split_heap p d ps h = (let g = grown_all d (map assertion ps) h in
     if n_status (cell h p) = Unknown then g else upd d (\<lambda>x. x\<lparr>n_children := []\<rparr>) g)"

lemma clear_run: "on_heap (clear d) w = Some (Inr (), w\<lparr>w_heap := upd d (\<lambda>x. x\<lparr>n_children := []\<rparr>) (w_heap w)\<rparr>)"
  by (simp add: on_heap_def clear_def run_simps)

lemma split_heap_cells:
  assumes "d < fresh h" and "p < d"
  shows "fresh (split_heap p d ps h) = fresh h + length ps"
    and "n_children (cell (split_heap p d ps h) d) = (if n_status (cell h p) = Unknown
          then n_children (cell h d) @ [fresh h ..< fresh h + length ps] else [])"
    and "i < length ps \<Longrightarrow> cell (split_heap p d ps h) (fresh h + i) =
          blank\<lparr>n_class := AndNode, n_parent := Some d, n_root := n_root (cell h d), n_smt := assertion (ps ! i)\<rparr>"
    and "n < fresh h \<Longrightarrow> n \<noteq> d \<Longrightarrow> cell (split_heap p d ps h) n = cell h n"
  using assms grown_all_fresh [of d "map assertion ps" h] grown_all_old [OF assms(1), of _ "map assertion ps"]
    grown_all_new [OF assms(1), of i "map assertion ps"]
  by (simp_all add: split_heap_def Let_def upd_def)

lemma read_partitions_run:
  assumes "d < fresh (w_heap w)" and "n_class (cell (w_heap w) d) = OrNode" and "n_parent (cell (w_heap w) d) = Some p"
    and "p < d" and "decode payload = Inr tx" and "c_partition_policy (w_conf w) = a # b # pol"
  shows "read_partitions d header payload w = (let t = split_heap p d (partitions_of tx) (w_heap w);
       k = length (n_children (cell (w_heap w) d)) + length (partitions_of tx); left = length (n_children (cell t d)) in
     Some (Inr (dict_set REPORT (HStr (''info:(server) received '' @ show_nat k @ '' partitions'')) (dict_set RECEIVED (HNode p) header)),
       w\<lparr>w_heap := t,
         w_conf := if int left = b then w_conf w else (w_conf w)\<lparr>c_partition_count := c_partition_count (w_conf w) - b + int left\<rparr>\<rparr>))"
proof -
  from assms(1,4) have old: "p < fresh (w_heap w)" by simp
  note cells = grown_all_old [OF assms(1), of _ "map assertion (partitions_of tx)"]
  show ?thesis
    using assms grown_all_run [OF assms(2,1), of "partitions_of tx"] cells [OF assms(1)] cells [OF old]
    by (cases "n_status (cell (w_heap w) p) = Unknown")
      (simp_all add: read_partitions_def run_defs tryM_def Let_def split_heap_def clear_run)
qed

lemma read_partitions_fails:
  assumes "d < fresh (w_heap w)" and "n_class (cell (w_heap w) d) = OrNode" and "n_parent (cell (w_heap w) d) = Some p" and "p < d"
  shows "decode payload = Inl x \<Longrightarrow> read_partitions d header payload w
      = Some (Inr (dict_set REPORT (HStr (''error:(server) error reading partitions: '' @ e_traceback (w_env w) x)) header),
          w\<lparr>w_heap := upd d (\<lambda>x. x\<lparr>n_children := []\<rparr>) (w_heap w)\<rparr>)"
    and "decode payload = Inr tx \<Longrightarrow> length (c_partition_policy (w_conf w)) \<le> 1 \<Longrightarrow>
      \<exists>w'. read_partitions d header payload w = Some (Inl IndexError, w')"
proof -
  show "read_partitions d header payload w
      = Some (Inr (dict_set REPORT (HStr (''error:(server) error reading partitions: '' @ e_traceback (w_env w) x)) header),
          w\<lparr>w_heap := upd d (\<lambda>x. x\<lparr>n_children := []\<rparr>) (w_heap w)\<rparr>)" if "decode payload = Inl x"
    using that by (simp add: read_partitions_def run_defs tryM_def clear_run any_exc_def)
  from assms(1,4) have old: "p < fresh (w_heap w)" by simp
  note cells = grown_all_old [OF assms(1), of _ "map assertion (partitions_of tx)"]
  show "\<exists>w'. read_partitions d header payload w = Some (Inl IndexError, w')"
    if "decode payload = Inr tx" "length (c_partition_policy (w_conf w)) \<le> 1"
    using that assms grown_all_run [OF assms(2,1), of "partitions_of tx"] cells [OF assms(1)] cells [OF old]
    by (cases "n_status (cell (w_heap w) p) = Unknown") (simp_all add: read_partitions_def run_defs tryM_def Let_def clear_run)
qed

text \<open>C16: The partitions in a report. When the split node is still open, they become the new children of the waiting
  \<open>OrNode\<close>, in the order of the payload and with its texts as assertions, and the rest of the tree stays as it is; when
  the node has been solved in the meantime the \<open>OrNode\<close> is left without children. Either way the header names the
  split node and counts what came, and the number of partitions that is expected is corrected by what is left. A payload that is not text
  empties the \<open>OrNode\<close> and gives an error report; with a partition policy of fewer than two entries the call
  raises an \<open>IndexError\<close>.\<close>

theorem reported_partitions_become_nodes:
  assumes "d < fresh (w_heap w)" and "n_class (cell (w_heap w) d) = OrNode" and "n_parent (cell (w_heap w) d) = Some p" and "p < d"
  shows "(\<forall>tx a b pol. decode payload = Inr tx \<and> c_partition_policy (w_conf w) = a # b # pol \<longrightarrow>
      (let h = w_heap w; ps = partitions_of tx; k = length (n_children (cell h d)) + length ps in
       \<exists>w'. read_partitions d header payload w
           = Some (Inr (dict_set REPORT (HStr (''info:(server) received '' @ show_nat k @ '' partitions''))
               (dict_set RECEIVED (HNode p) header)), w')
         \<and> fresh (w_heap w') = fresh h + length ps
         \<and> n_children (cell (w_heap w') d) = (if n_status (cell h p) = Unknown
             then n_children (cell h d) @ [fresh h ..< fresh h + length ps] else [])
         \<and> (\<forall>i < length ps. cell (w_heap w') (fresh h + i) = blank\<lparr>n_class := AndNode, n_parent := Some d,
              n_root := n_root (cell h d), n_smt := ''(assert '' @ ps ! i @ '')''\<rparr>)
         \<and> (\<forall>n < fresh h. n \<noteq> d \<longrightarrow> cell (w_heap w') n = cell h n)
         \<and> c_partition_count (w_conf w') = c_partition_count (w_conf w) - b + (if n_status (cell h p) = Unknown then int k else 0)))
    \<and> (\<forall>x. decode payload = Inl x \<longrightarrow> read_partitions d header payload w
        = Some (Inr (dict_set REPORT (HStr (''error:(server) error reading partitions: '' @ e_traceback (w_env w) x)) header),
            w\<lparr>w_heap := upd d (\<lambda>x. x\<lparr>n_children := []\<rparr>) (w_heap w)\<rparr>))
    \<and> (\<forall>tx. decode payload = Inr tx \<and> length (c_partition_policy (w_conf w)) \<le> 1 \<longrightarrow>
        (\<exists>w'. read_partitions d header payload w = Some (Inl IndexError, w')))"
proof (intro conjI allI impI)
  fix tx a b pol
  assume "decode payload = Inr tx \<and> c_partition_policy (w_conf w) = a # b # pol"
  then have t: "decode payload = Inr tx" "c_partition_policy (w_conf w) = a # b # pol" by simp_all
  note cells = split_heap_cells [OF assms(1,4), where ps = "partitions_of tx"]
  show "let h = w_heap w; ps = partitions_of tx; k = length (n_children (cell h d)) + length ps in
       \<exists>w'. read_partitions d header payload w
           = Some (Inr (dict_set REPORT (HStr (''info:(server) received '' @ show_nat k @ '' partitions''))
               (dict_set RECEIVED (HNode p) header)), w')
         \<and> fresh (w_heap w') = fresh h + length ps
         \<and> n_children (cell (w_heap w') d) = (if n_status (cell h p) = Unknown
             then n_children (cell h d) @ [fresh h ..< fresh h + length ps] else [])
         \<and> (\<forall>i < length ps. cell (w_heap w') (fresh h + i) = blank\<lparr>n_class := AndNode, n_parent := Some d,
              n_root := n_root (cell h d), n_smt := ''(assert '' @ ps ! i @ '')''\<rparr>)
         \<and> (\<forall>n < fresh h. n \<noteq> d \<longrightarrow> cell (w_heap w') n = cell h n)
         \<and> c_partition_count (w_conf w') = c_partition_count (w_conf w) - b + (if n_status (cell h p) = Unknown then int k else 0)"
    using read_partitions_run [OF assms t, of header] cells assms(1)
    by (auto simp add: Let_def assertion_def)
qed (use read_partitions_fails [OF assms] in blast)+

theorem reported_partitions_become_nodes_witness:
  "\<exists>header w'. read_partitions 1 [] (encode ''x>0'') tree_world = Some (Inr header, w')
     \<and> n_children (cell (w_heap w') 1) = [2, 3, 4] \<and> n_smt (cell (w_heap w') 4) = ''(assert x>0)''"
proof -
  have t: "decode (encode ''x>0'') = Inr ''x>0''" by code_simp
  have ps: "partitions_of ''x>0'' = [''x>0'']" by (simp add: partitions_of_def)
  show ?thesis
    using reported_partitions_become_nodes [of 1 tree_world 0 "encode ''x>0''" "[]"]
    by (simp add: t ps Let_def) force
qed

lemma utf8_ascii: "\<forall>b \<in> set bs. b < 0x80 \<Longrightarrow> utf8_ok bs"
  by (induction bs) simp_all

lemma set_join: "set (join sep xs) \<subseteq> set sep \<union> (\<Union>x \<in> set xs. set x)"
  by (induction sep xs rule: join.induct) auto

lemma trues_text: "decode (sock_bytes (VStr (join [CHR 0x00] (replicate k ''true'')))) = Inr (join [CHR 0x00] (replicate k ''true''))"
proof -
  have "set (join [CHR 0x00] (replicate k ''true'')) \<subseteq> {CHR 0x00, CHR ''t'', CHR ''r'', CHR ''u'', CHR ''e''}"
    by (rule subset_trans [OF set_join]) (auto simp: set_replicate_conv_if)
  then have "\<forall>b \<in> set (encode (join [CHR 0x00] (replicate k ''true''))). b < 0x80"
    by (fastforce simp: encode_def)
  then show ?thesis by (simp add: sock_bytes_def decode_encode is_text_def utf8_ascii)
qed

text \<open>C6: A request for partitions is served. When a solver that is where the server has it is asked for \<open>k\<close>
  partitions and answers as the dummy solver does, the answer is not stale, and reading it puts \<open>k\<close> new
  nodes below the \<open>OrNode\<close> that waits for them, as long as the split node is open; when it has been solved in the meantime
  the \<open>OrNode\<close> is left without children. Debugging is off, and the partition policy has its two entries.\<close>

theorem partition_request_is_served:
  assumes "obeys (believed w s) dd" and "s_node (sock_of w s) = Some n" and "placed (w_heap w) n" and "\<not> c_debug (w_conf w)"
    and "s_or_waiting (sock_of w s) = waiting @ [d]"
    and "d < fresh (w_heap w)" and "n_class (cell (w_heap w) d) = OrNode" and "n_parent (cell (w_heap w) d) = Some p"
    and "p < d" and "c_partition_policy (w_conf w) = a # b # pol"
    and "says m COMMAND (VStr PARTITION)" and "says m PARTITIONS (VInt k)"
    and "dummy_message e (message_of m) dd = Some (Inr (), dd')"
  shows "\<exists>header tx h' payload w'. d_wrote dd' = d_wrote dd @ [(header, VStr tx)]
    \<and> solver_read s (str_header header) (sock_bytes (VStr tx)) w = Some (Inr (h', payload), w')
    \<and> map_of h' RECEIVED = Some (HNode p) \<and> s_or_waiting (sock_of w' s) = waiting
    \<and> (if n_status (cell (w_heap w) p) = Unknown
       then n_children (cell (w_heap w') d) = n_children (cell (w_heap w) d) @ [fresh (w_heap w) ..< fresh (w_heap w) + nat k]
         \<and> (\<forall>i < nat k. n_smt (cell (w_heap w') (fresh (w_heap w) + i)) = ''(assert true)''
              \<and> n_parent (cell (w_heap w') (fresh (w_heap w) + i)) = Some d)
       else n_children (cell (w_heap w') d) = [])"
proof -
  let ?name = "n_name (cell (w_heap w) (n_root (cell (w_heap w) n)))" and ?a = "addr (w_heap w) n"
  let ?m = "[(NAME, VStr ?name), (NODE, VStr (show_path ?a)), (REPORT, VStr PARTITIONS)]"
    and ?tx = "join [CHR 0x00] (replicate (nat k) ''true'')"
  have d: "d_prob dd = Some ?name" "d_node dd = Some (show_path ?a)"
    using assms(1,2) by (simp_all add: believed_def at_node_def obeys_def)
  have "d_wrote dd' = d_wrote dd @ [(?m, VStr ?tx)]"
    using assms(11-13) d
    by (auto simp: dummy_message_def message_of_def map_of_str_header says_def field_run bindM_def run_simps send_partitions_def
        py_int_show_int or_none_def dummy_write_def split: sum.splits)
  moreover have "partitions_of ?tx = replicate (nat k) ''true''" by (rule partitions_of_join) auto
  moreover have "path n (w_heap w) = Some (Inr ?a)" using assms(3) path_attached by (simp add: placed_def)
  moreover define w1 where "w1 = put_sock s ((sock_of w s)\<lparr>s_or_waiting := waiting\<rparr>) w"
  moreover have "w_heap w1 = w_heap w" "w_conf w1 = w_conf w" by (simp_all add: w1_def)
  moreover note read_partitions_run [of d w1 p "sock_bytes (VStr ?tx)" ?tx a b pol "[(NODE, HStr (show_path ?a)), (REPORT, HStr PARTITIONS)]"]
  ultimately show ?thesis
    using assms(2,4-10) trues_text [of "nat k"] split_heap_cells [OF assms(6,9), where ps = "replicate (nat k) ''true''"]
    apply (intro exI [of _ ?m] exI [of _ ?tx])
    apply (simp add: solver_read_def str_header_def run_defs Let_def dict_del_def assertion_def RECEIVED_def)
    done
qed

definition asking_world :: world where
  "asking_world = put_sock 2 ((sock_of tree_world 2)\<lparr>s_or_waiting := [1]\<rparr>) tree_world"

theorem partition_request_is_served_witness:
  "\<exists>header tx h' payload w'. solver_read 2 (str_header header) (sock_bytes (VStr tx)) asking_world = Some (Inr (h', payload), w')
     \<and> n_children (cell (w_heap w') 1) = [2, 3, 4, 5] \<and> n_smt (cell (w_heap w') 5) = ''(assert true)''"
proof -
  let ?m = "([(COMMAND, VStr PARTITION), (PARTITIONS, VInt 2)], VStr [])"
  have w: "s_node (sock_of asking_world 2) = Some 2" "w_heap asking_world = sample" "\<not> c_debug (w_conf asking_world)"
    "s_or_waiting (sock_of asking_world 2) = [] @ [1]" "c_partition_policy (w_conf asking_world) = [1, 2]"
    by (simp_all add: asking_world_def)
  have "map_of (str_header (fst ?m)) PARTITIONS = Some (show_int 2)" by (simp add: str_header_def)
  then obtain dd where dm: "dummy_message e (message_of ?m) at_work = Some (Inr (), dd)" for e
    using small_frames(2)
    by (auto simp: dummy_message_def message_of_def map_of_str_header field_run bindM_def run_simps send_partitions_def
        py_int_show_int or_none_def dummy_write_def at_work_def dummy_idle_def numeral_2_eq_2)
  from partition_request_is_served [OF at_work_obeys [OF w(1,2)] w(1) _ w(3,4) _ _ _ _ w(5) _ _ dm, of 0 2] w(2) sample_at_2
  show ?thesis
    apply (simp add: says_def)
    apply (elim exE conjE)
    apply (drule spec [of _ 1])
    apply (intro exI conjI, assumption, assumption)
    apply simp
    done
qed

end
