(* ===== verification/FinishSpec.thy ===== *)
theory FinishSpec
  imports ReportSpec
begin



























end
