(* ===== verification/Plots.thy ===== *)
theory Plots
  imports Prelude PyText SmtJson
begin

text \<open>
  The scripts that turn recorded times into plots: \<open>server/sql2times.py\<close> (from the table \<open>SolvingHistory\<close> to
  a \<open>.times\<close> file), \<open>server/mk_scatter.py\<close> and \<open>server/mk_cactus.py\<close> (from such files, or from the table, to
  gnuplot). A program is a function from what it reads to the lines that it prints; what goes to the standard error
  output is left out. \<open>plot_env\<close> holds how floats are read, as rationals, and printed.
\<close>

section \<open>Values\<close>

text \<open>A JSON value: a text, an integer, or any other value with its truth and its \<open>str\<close>.\<close>

datatype jdata = JText string | JInt int | JOther bool string

fun str_data :: "jdata \<Rightarrow> string" where
  "str_data (JText s) = s"
| "str_data (JInt i) = show_int i"
| "str_data (JOther b s) = s"

fun true_data :: "jdata \<Rightarrow> bool" where
  "true_data (JText s) = (s \<noteq> [])"
| "true_data (JInt i) = (i \<noteq> 0)"
| "true_data (JOther b s) = b"

record plot_env =
  pe_float :: "string \<Rightarrow> exc + rat"
  pe_f6 :: "rat \<Rightarrow> string"
  pe_f2 :: "rat \<Rightarrow> string"

section \<open>\<open>sql2times\<close>\<close>

text \<open>A row of \<open>SolvingHistory\<close>; its data are \<open>NULL\<close> or the text of a JSON object.\<close>

record hist_row =
  r_id :: int
  r_ts :: int
  r_name :: string
  r_node :: "string option"
  r_event :: string
  r_data :: "jdata dict option"

record benchmark =
  b_name :: string
  b_start :: "int option"
  b_end :: "int option"
  b_data :: "jdata dict option"

definition new_benchmark :: "string \<Rightarrow> benchmark" where
  "new_benchmark name = \<lparr>b_name = name, b_start = None, b_end = None, b_data = None\<rparr>"

text \<open>\<open>data and key in data\<close>\<close>

definition data_key :: "string \<Rightarrow> benchmark \<Rightarrow> jdata option" where
  "data_key k b = (case b_data b of None \<Rightarrow> None | Some d \<Rightarrow> map_of d k)"

definition benchmark_status :: "benchmark \<Rightarrow> jdata" where
  "benchmark_status b = (case data_key ''status'' b of None \<Rightarrow> JText ''unknown'' | Some v \<Rightarrow> v)"

text \<open>\<open>SELECT \<dots> WHERE id = (SELECT min(id) \<dots>)\<close>, \<open>max(id)\<close>, \<open>min(ts)\<close> and \<open>max(ts)\<close>.\<close>

definition least :: "('r \<Rightarrow> int) \<Rightarrow> 'r list \<Rightarrow> 'r option" where
  "least f rs = (case rs of [] \<Rightarrow> None | _ \<Rightarrow> Some (arg_min_list f rs))"

definition greatest :: "('r \<Rightarrow> int) \<Rightarrow> 'r list \<Rightarrow> 'r option" where
  "greatest f = least (\<lambda>r. - f r)"

definition first_status :: "string \<Rightarrow> hist_row list \<Rightarrow> hist_row option" where
  "first_status name rows = least r_id (filter (\<lambda>r. r_name r = name \<and> r_event r = ''STATUS'' \<and> r_node r = Some ''[]'') rows)"

definition last_solved :: "string \<Rightarrow> hist_row list \<Rightarrow> hist_row option" where
  "last_solved name rows = greatest r_id (filter (\<lambda>r. r_name r = name \<and> r_event r = ''SOLVED'') rows)"

definition next_started :: "string \<Rightarrow> int \<Rightarrow> hist_row list \<Rightarrow> hist_row option" where
  "next_started name ts rows = least r_id (filter (\<lambda>r. r_name r \<noteq> name \<and> ts < r_ts r \<and> r_event r = ''+'') rows)"

text \<open>The time and the data of the answer; no answer when the last \<open>SOLVED\<close> is not that of the root.\<close>

definition solved_row :: "string \<Rightarrow> hist_row list \<Rightarrow> exc + (int \<times> jdata dict) option" where
  "solved_row name rows = (case first_status name rows of
     Some r \<Rightarrow> (case r_data r of None \<Rightarrow> Inl TypeError
       | Some d \<Rightarrow> (case map_of d ''report'' of None \<Rightarrow> Inl KeyError | Some v \<Rightarrow> Inr (Some (r_ts r, dict_set ''status'' v d))))
   | None \<Rightarrow> (case last_solved name rows of
       None \<Rightarrow> Inr None
     | Some r \<Rightarrow> (case r_data r of None \<Rightarrow> Inl TypeError
         | Some d \<Rightarrow> (case map_of d ''node'' of None \<Rightarrow> Inl KeyError
             | Some v \<Rightarrow> Inr (if v \<noteq> JText ''[]'' then None else Some (r_ts r, d))))))"

definition fill_benchmark :: "hist_row list \<Rightarrow> string \<Rightarrow> exc + benchmark" where
  "fill_benchmark rows name =
     (case least r_ts (filter (\<lambda>r. r_name r = name \<and> r_event r = ''+'') rows) of
        None \<Rightarrow> Inr (new_benchmark name)
      | Some s \<Rightarrow> (let b = (new_benchmark name)\<lparr>b_start := Some (r_ts s)\<rparr> in
          case solved_row name rows of Inl e \<Rightarrow> Inl e
          | Inr (Some (t, d)) \<Rightarrow> Inr (b\<lparr>b_end := Some t, b_data := Some d\<rparr>)
          | Inr None \<Rightarrow> Inr (b\<lparr>b_end := map_option r_ts (case next_started name (r_ts s) rows of
                Some r \<Rightarrow> Some r | None \<Rightarrow> greatest r_ts rows)\<rparr>)))"

primrec mapE :: "('x \<Rightarrow> exc + 'y) \<Rightarrow> 'x list \<Rightarrow> exc + 'y list" where
  "mapE f [] = Inr []"
| "mapE f (x # xs) = (case f x of Inl e \<Rightarrow> Inl e | Inr y \<Rightarrow> (case mapE f xs of Inl e \<Rightarrow> Inl e | Inr ys \<Rightarrow> Inr (y # ys)))"

text \<open>The names stand in the order of Python's set.\<close>

definition get_benchmarks :: "hist_row list \<Rightarrow> exc + benchmark list" where
  "get_benchmarks rows = mapE (fill_benchmark rows) (remdups (map r_name rows))"

text \<open>\<open>not benchmark.ts_start\<close>: time zero counts as not started.\<close>

definition started :: "benchmark \<Rightarrow> bool" where
  "started b = (case b_start b of None \<Rightarrow> False | Some t \<Rightarrow> t \<noteq> 0)"

definition duration :: "benchmark \<Rightarrow> exc + int" where
  "duration b = (case (b_end b, b_start b) of (Some t, Some s) \<Rightarrow> Inr (t - s) | _ \<Rightarrow> Inl TypeError)"

text \<open>A line of the \<open>.times\<close> file; \<open>col\<close> is the option \<open>-c\<close> with the default of \<open>-d\<close>.\<close>

definition times_line :: "string option \<Rightarrow> string \<Rightarrow> benchmark \<Rightarrow> exc + string" where
  "times_line col coldef b = (case duration b of Inl e \<Rightarrow> Inl e
     | Inr t \<Rightarrow> (let third = (case col of None \<Rightarrow> show_int t
         | Some c \<Rightarrow> (if c = [] then show_int t else case data_key c b of None \<Rightarrow> coldef | Some v \<Rightarrow> str_data v))
       in Inr (b_name b @ '' '' @ str_data (benchmark_status b) @ '' '' @ third @ [CHR 0x0A])))"

text \<open>The file of one database, and what is printed.\<close>

definition times_file :: "string option \<Rightarrow> string \<Rightarrow> benchmark list \<Rightarrow> exc + string list" where
  "times_file col coldef bs = mapE (times_line col coldef) (filter started bs)"

definition times_total :: "benchmark list \<Rightarrow> exc + int" where
  "times_total bs = map_sum id sum_list (mapE duration (filter started bs))"

definition times_printed :: "string \<Rightarrow> benchmark list \<Rightarrow> exc + string list" where
  "times_printed arg bs = map_sum id (\<lambda>k. map (\<lambda>b. ''not started: '' @ b_name b) (filter (\<lambda>b. \<not> started b) bs)
       @ [''TOTAL for '' @ arg @ '': '' @ show_int k]) (times_total bs)"

section \<open>Results\<close>

text \<open>Status and time of a benchmark, and the attribute that is asked for.\<close>

record result =
  res_status :: jdata
  res_time :: rat
  res_attr :: "jdata option"

text \<open>\<open>s.split()\<close>\<close>

fun pieces :: "(char \<Rightarrow> bool) \<Rightarrow> string \<Rightarrow> string list" where
  "pieces P [] = [[]]"
| "pieces P (c # cs) = (if P c then [] # pieces P cs
     else case pieces P cs of [] \<Rightarrow> [[c]] | w # ws \<Rightarrow> (c # w) # ws)"

definition words :: "string \<Rightarrow> string list" where
  "words s = filter (\<lambda>w. w \<noteq> []) (pieces is_space s)"

text \<open>The time is read as a float unless the status says that there is none.\<close>

definition read_record :: "plot_env \<Rightarrow> string \<Rightarrow> exc + (string \<times> result)" where
  "read_record e l = (case words l of
     name # res # rest \<Rightarrow>
       (case (if res \<in> {''unknown'', ''indet''} then Inr (- 1)
              else case rest of [] \<Rightarrow> Inr (- 1) | t # _ \<Rightarrow> pe_float e t) of
          Inl x \<Rightarrow> Inl x
        | Inr t \<Rightarrow> Inr (name, \<lparr>res_status = JText res, res_time = t, res_attr = None\<rparr>))
   | _ \<Rightarrow> Inl IndexError)"

primrec read_times :: "plot_env \<Rightarrow> string list \<Rightarrow> result dict \<Rightarrow> exc + result dict" where
  "read_times e [] acc = Inr acc"
| "read_times e (l # ls) acc = (case read_record e l of Inl x \<Rightarrow> Inl x
     | Inr (name, r) \<Rightarrow> read_times e ls (dict_set name r acc))"

definition times2res :: "plot_env \<Rightarrow> string list \<Rightarrow> exc + result dict" where
  "times2res e ls = read_times e ls []"

definition attribute_of :: "string option \<Rightarrow> benchmark \<Rightarrow> jdata option" where
  "attribute_of attr b = (case attr of None \<Rightarrow> None | Some a \<Rightarrow> if a = [] then None else data_key a b)"

primrec read_benchmarks :: "string option \<Rightarrow> benchmark list \<Rightarrow> result dict \<Rightarrow> exc + result dict" where
  "read_benchmarks attr [] acc = Inr acc"
| "read_benchmarks attr (b # bs) acc =
     (if \<not> started b then read_benchmarks attr bs acc
      else case duration b of Inl e \<Rightarrow> Inl e
      | Inr t \<Rightarrow> read_benchmarks attr bs (dict_set (b_name b)
          \<lparr>res_status = benchmark_status b, res_time = of_int (if t = 0 then 1 else t), res_attr = attribute_of attr b\<rparr> acc))"

definition db2res :: "string option \<Rightarrow> hist_row list \<Rightarrow> exc + result dict" where
  "db2res attr rows = (case get_benchmarks rows of Inl e \<Rightarrow> Inl e | Inr bs \<Rightarrow> read_benchmarks attr bs [])"

section \<open>\<open>mk_scatter\<close>\<close>

record scatter_options =
  so_min :: rat
  so_max :: rat
  so_attribute :: "string option"

abbreviation "SAT \<equiv> JText ''sat''"
abbreviation "UNSAT \<equiv> JText ''unsat''"

definition is_solved :: "result \<Rightarrow> bool" where
  "is_solved r = (res_status r = SAT \<or> res_status r = UNSAT)"

text \<open>The times of the benchmarks of \<open>x\<close> that count for the speedup, with those of \<open>y\<close>.\<close>

definition comparable :: "result dict \<Rightarrow> result dict \<Rightarrow> (rat \<times> rat) list" where
  "comparable x y = concat (map (\<lambda>(k, r). case map_of y k of None \<Rightarrow> []
     | Some q \<Rightarrow> (if 0 \<le> res_time r \<and> 0 < res_time q \<and> res_status r \<noteq> JText ''unknown'' \<and> res_status q \<noteq> JText ''unknown''
         then [(res_time r, res_time q)] else [])) x)"

text \<open>What is not solved gets the time \<open>bnd\<close>.\<close>

definition bound_unsolved :: "rat \<Rightarrow> result dict \<Rightarrow> result dict" where
  "bound_unsolved bnd = map (\<lambda>(k, r). (k, if is_solved r then r else r\<lparr>res_time := bnd\<rparr>))"

text \<open>\<open>postProc\<close>: then what has no time.\<close>

definition post_proc :: "rat \<Rightarrow> result dict \<Rightarrow> result dict" where
  "post_proc bnd = map (\<lambda>(k, r). (k, if res_time r = - 1 then r\<lparr>res_time := bnd\<rparr> else r))"

definition solved_of :: "rat \<Rightarrow> result dict \<Rightarrow> result dict \<Rightarrow> string list" where
  "solved_of bnd x y = map fst (filter (\<lambda>(k, r). res_time r \<noteq> bnd \<and> has_key k y) x)"

text \<open>\<open>solved_x\<close> and \<open>solved_y\<close> are counted before \<open>postProc\<close>, \<open>solved_both\<close> after it.\<close>

definition solved_counts :: "rat \<Rightarrow> result dict \<Rightarrow> result dict \<Rightarrow> int \<times> int \<times> int" where
  "solved_counts bnd x y =
     (let x1 = bound_unsolved bnd x; y1 = bound_unsolved bnd y; x2 = post_proc bnd x1; y2 = post_proc bnd y1 in
      (int (length (solved_of bnd x1 y1)), int (length (solved_of bnd y1 x1)),
       int (length (filter (\<lambda>(k, r). k \<in> set (solved_of bnd x2 y2) \<and> res_time r \<noteq> bnd) y2))))"

datatype group = GSat | GUnsat | GUnknown | GFail

definition group_of :: "result \<Rightarrow> result \<Rightarrow> group" where
  "group_of r q = (let a = res_status r; b = res_status q in
     if a = SAT \<and> b = UNSAT \<or> a = UNSAT \<and> b = SAT then GFail
     else if a = SAT \<or> b = SAT then GSat
     else if a = UNSAT \<or> b = UNSAT then GUnsat
     else GUnknown)"

definition point :: "plot_env \<Rightarrow> string \<Rightarrow> result \<Rightarrow> result \<Rightarrow> string" where
  "point e k r q = pe_f2 e (res_time r) @ '' '' @ pe_f2 e (res_time q) @ '' # '' @ k"

definition points :: "plot_env \<Rightarrow> group \<Rightarrow> result dict \<Rightarrow> result dict \<Rightarrow> string list" where
  "points e g x y = concat (map (\<lambda>(k, r). case map_of y k of None \<Rightarrow> []
     | Some q \<Rightarrow> (if group_of r q = g then [point e k r q] else [])) x)"

text \<open>A group is printed as one text, and closed with a line \<open>e\<close>.\<close>

definition print_group :: "string list \<Rightarrow> string list" where
  "print_group ls = (if ls = [] then [] else [join [CHR 0x0A] ls]) @ [''e'']"

definition ends_in :: "string \<Rightarrow> string \<Rightarrow> bool" where
  "ends_in s t = suffix t s"

definition quoted :: "string \<Rightarrow> string" where
  "quoted s = [CHR 0x22] @ s @ [CHR 0x22]"

text \<open>Labels for the attributes; only those of \<open>x\<close> move to the right.\<close>

primrec attr_x :: "plot_env \<Rightarrow> result dict \<Rightarrow> nat \<Rightarrow> result dict \<Rightarrow> string list" where
  "attr_x e y n [] = []"
| "attr_x e y n (kr # x) = (case (res_attr (snd kr), map_of y (fst kr)) of
     (Some v, Some q) \<Rightarrow>
       (if true_data v
        then (let t = pe_f2 e (res_time (snd kr)) in
          [''set label '' @ quoted (str_data v) @ '' at '' @ t @ '', graph '' @ pe_f2 e (of_nat n * (1 / 100) + 1 / 100) @ '' font '' @ quoted '',8'',
           ''set arrow from '' @ t @ '',graph 0 to '' @ t @ '','' @ pe_f2 e (res_time q) @ '' nohead lt 2 lw 0.5'']
          @ attr_x e y (Suc n) x)
        else attr_x e y n x)
   | _ \<Rightarrow> attr_x e y n x)"

definition attr_y :: "plot_env \<Rightarrow> result dict \<Rightarrow> result dict \<Rightarrow> string list" where
  "attr_y e x y = concat (map (\<lambda>(k, q). case (res_attr q, map_of x k) of
     (Some v, Some r) \<Rightarrow>
       (if true_data v
        then (let t = pe_f2 e (res_time q) in
          [''set label '' @ quoted (str_data v) @ '' at graph 0.03, first '' @ t @ '' font '' @ quoted '',8'',
           ''set arrow from graph 0, first '' @ t @ '' to '' @ pe_f2 e (res_time r) @ '','' @ t @ '' nohead lt 2 lw 0.5''])
        else [])
   | _ \<Rightarrow> []) y)"

definition term_line :: "(string \<times> string) list \<Rightarrow> string \<Rightarrow> string list" where
  "term_line terms file = (case filter (\<lambda>(sfx, _). ends_in file sfx) terms of [] \<Rightarrow> [] | (_, t) # _ \<Rightarrow> [''set term '' @ t])"

definition scatter_head :: "plot_env \<Rightarrow> scatter_options \<Rightarrow> string \<Rightarrow> string \<Rightarrow> string \<Rightarrow> string list" where
  "scatter_head e opt xlabel ylabel file = (let bnd = 2 * so_max opt; m = pe_f6 e (so_max opt); b = pe_f6 e bnd; lo = pe_f6 e (so_min opt) in
     [''#!/usr/bin/env gnuplot'']
     @ term_line [(''.ps'', ''postscript''), (''.tex'', ''epslatex standalone color''), (''.svg'', ''svg'')] file
     @ [''set output '' @ quoted file, ''set size square'', ''set xlabel '' @ quoted xlabel, ''set ylabel '' @ quoted ylabel,
        ''set logscale x'', ''set logscale y'', ''set key right bottom'',
        ''set xrange ['' @ lo @ '':'' @ b @ '']'', ''set yrange ['' @ lo @ '':'' @ b @ '']'', ''set pointsize 1.5'',
        ''set arrow from graph 0, first '' @ m @ '' to '' @ m @ '','' @ m @ '' nohead'',
        ''set arrow from '' @ m @ '', graph 0 to '' @ m @ '','' @ m @ '' nohead'',
        ''set arrow from '' @ b @ '', graph 0 to graph 1.05, graph -.05 backhead'',
        ''set label '' @ quoted ''timeout'' @ '' at graph 1.05, graph -0.06''])"

definition plot_line :: string where
  "plot_line = ''plot x title '' @ quoted [] @ '' lc '' @ quoted ''black'' @ '', '' @ quoted ''-'' @ '' title '' @ quoted [] @
     '' with point pointtype 2 lc '' @ quoted ''black'' @ '', '' @ quoted ''-'' @ '' title '' @ quoted [] @ '' with points pointtype 4 lc '' @
     quoted ''black'' @ '', '' @ quoted ''-'' @ '' title '' @ quoted [] @ '' with points pointtype 3 lc '' @ quoted ''black'' @ '', '' @
     quoted ''-'' @ '' title '' @ quoted [] @ '' with points pointtype 5 lc 1''"

definition at_left :: "string \<Rightarrow> string \<Rightarrow> string" where
  "at_left label pos = ''set label '' @ quoted label @ '' at graph -0.3,'' @ pos"

text \<open>\<open>max\<close> of no times raises; without a comparable pair the script exits.\<close>

definition scatter :: "plot_env \<Rightarrow> scatter_options \<Rightarrow> string \<Rightarrow> string \<Rightarrow> string \<Rightarrow> result dict \<Rightarrow> result dict \<Rightarrow> exc + string list" where
  "scatter e opt xlabel ylabel file x y =
     (if x = [] \<or> y = [] then Inl ValueError
      else (let cs = comparable x y; bnd = 2 * so_max opt in
       if cs = [] then Inl SystemExit
       else (let speedups = map (\<lambda>(a, b). a / b) cs; x_total = sum_list (map fst cs); y_total = sum_list (map snd cs);
               (sx, sy, sb) = solved_counts bnd x y;
               x2 = post_proc bnd (bound_unsolved bnd x); y2 = post_proc bnd (bound_unsolved bnd y) in
         if y_total = 0 then Inl ZeroDivisionError
         else Inr (scatter_head e opt xlabel ylabel file
           @ [at_left (''sp tot x/y '' @ pe_f2 e (x_total / y_total)) ''1'',
              at_left (''sp x/y '' @ pe_f2 e (sum_list speedups / of_nat (length speedups))) ''0.95'',
              at_left (''solved x '' @ show_int sx) ''0.9'', at_left (''solved y '' @ show_int sy) ''0.85'',
              at_left (''solved both '' @ show_int sb) ''0.8'', at_left (''solved x+y '' @ show_int (sx + sy - sb)) ''0.75'']
           @ (case so_attribute opt of None \<Rightarrow> [] | Some a \<Rightarrow> if a = [] then [] else attr_x e y2 0 x2 @ attr_y e x2 y2)
           @ [plot_line]
           @ concat (map (\<lambda>g. print_group (points e g x2 y2)) [GSat, GUnsat, GUnknown])
           @ (let fails = points e GFail x2 y2 in (if fails = [] then [] else [join [CHR 0x0A] fails]) @ [''e''])))))"

section \<open>\<open>mk_cactus\<close>\<close>

record cactus_options =
  co_output :: "string option"
  co_bottom :: bool
  co_only_solved :: bool

text \<open>The files in common after one more result, and its values.\<close>

definition cactus_values :: "bool \<Rightarrow> string list \<Rightarrow> result dict \<Rightarrow> (string \<times> result) list" where
  "cactus_values only files res = filter (\<lambda>(k, r). k \<in> set files \<and> (only \<longrightarrow> res_status r \<noteq> JText ''unknown'')) res"

fun cactus_collect :: "bool \<Rightarrow> string list option \<Rightarrow> (string \<times> result dict) list \<Rightarrow> string list \<times> (string \<times> (string \<times> result) list) list" where
  "cactus_collect only files [] = (case_option [] id files, [])"
| "cactus_collect only files ((label, res) # rest) =
     (let files0 = (case files of Some fs \<Rightarrow> fs
         | None \<Rightarrow> map fst (filter (\<lambda>(k, r). only \<longrightarrow> res_status r \<noteq> JText ''unknown'') res));
       values = cactus_values only files0 res;
       files1 = filter (\<lambda>k. k \<in> set (map fst values)) files0;
       (final, items) = cactus_collect only (Some files1) rest
      in (final, (label, values) # items))"

definition cactus_curves :: "bool \<Rightarrow> (string \<times> result dict) list \<Rightarrow> (string \<times> (string \<times> result) list) list" where
  "cactus_curves only rs = (let (files, items) = cactus_collect only None rs in
     map (\<lambda>(label, values). (label, sort_key (res_time \<circ> snd) (filter (\<lambda>(k, _). k \<in> set files) values))) items)"

text \<open>The solved ones are numbered.\<close>

primrec cactus_points :: "plot_env \<Rightarrow> nat \<Rightarrow> (string \<times> result) list \<Rightarrow> string list" where
  "cactus_points e i [] = []"
| "cactus_points e i (kr # krs) = (if is_solved (snd kr)
     then (show_nat i @ '', '' @ pe_f6 e (res_time (snd kr)) @ '' # '' @ fst kr) # cactus_points e (Suc i) krs
     else cactus_points e i krs)"

definition cactus :: "plot_env \<Rightarrow> cactus_options \<Rightarrow> (string \<times> result dict) list \<Rightarrow> exc + string list" where
  "cactus e opt rs = (case co_output opt of None \<Rightarrow> Inl SystemExit
     | Some file \<Rightarrow> (let curves = cactus_curves (co_only_solved opt) rs in
         Inr ([''#!/usr/bin/env gnuplot'']
           @ term_line [(''.ps'', ''postscript eps enhanced color''), (''.tex'', ''epslatex standalone color''), (''.svg'', ''svg'')] file
           @ [''set output '' @ quoted file, ''set xlabel '' @ quoted ([CHR 0x5C, CHR 0x5C] @ ''# solved instances''), ''set ylabel '' @ quoted ''runtime (sec.)'',
              ''#set logscale y'', ''set key out horiz '' @ (if co_bottom opt then ''bottom right'' else ''top left''),
              ''#set key font '' @ quoted '',8'', ''#set key spacing 3'', ''#set xrange [0:]'', ''#set yrange [0:]'',
              ''plot '' @ join '','' (map (\<lambda>(label, _). quoted ''-'' @ '' title '' @ quoted label @ '' with linespoints'') curves)]
           @ concat (map (\<lambda>(_, krs). cactus_points e 1 krs @ [''e'']) curves))))"

end
