(* ===== verification/PlotsSpec.thy ===== *)
theory PlotsSpec
  imports Plots Fixedpoint
begin

text \<open>
  What the plots show: the \<open>.times\<close> file reads back as the results of the database, the counts of a scatter plot
  add up, and what the curves of a cactus plot show.
\<close>

section \<open>The \<open>.times\<close> file\<close>

lemma pieces_word: "\<forall>c \<in> set w. \<not> P c \<Longrightarrow> P d \<Longrightarrow> pieces P (w @ d # s) = w # pieces P s"
  by (induction w) auto

lemma words_one_word: "w \<noteq> [] \<Longrightarrow> \<forall>c \<in> set w. \<not> is_space c \<Longrightarrow> is_space d \<Longrightarrow> words (w @ d # s) = w # words s"
  by (simp add: words_def pieces_word)

definition one_word :: "string \<Rightarrow> bool" where
  "one_word w = (w \<noteq> [] \<and> (\<forall>c \<in> set w. \<not> is_space c))"

lemma words_line: "one_word a \<Longrightarrow> one_word b \<Longrightarrow> one_word c \<Longrightarrow> words (a @ '' '' @ b @ '' '' @ c @ [CHR 0x0A]) = [a, b, c]"
  using words_one_word [of a "CHR '' ''" "b @ '' '' @ c @ [CHR 0x0A]"] words_one_word [of b "CHR '' ''" "c @ [CHR 0x0A]"]
    words_one_word [of c "CHR 0x0A" "[]"]
  by (simp add: one_word_def is_space_def) (simp add: words_def)

lemma one_word_show_nat: "one_word (show_nat n)"
  using show_nat_digits [of _ n] show_nat_nonempty by (fastforce simp: one_word_def is_space_def)

lemma one_word_show_int: "one_word (show_int k)"
  using one_word_show_nat by (auto simp: show_int_def one_word_def is_space_def)

text \<open>What a benchmark becomes on both ways.\<close>

definition read_back :: "benchmark \<Rightarrow> int \<Rightarrow> string \<times> result" where
  "read_back b t = (b_name b, \<lparr>res_status = JText (str_data (benchmark_status b)),
     res_time = (if str_data (benchmark_status b) \<in> {''unknown'', ''indet''} then - 1 else of_int t), res_attr = None\<rparr>)"

lemma read_record_line:
  assumes "\<forall>t. duration b = Inr t \<longrightarrow> pe_float e (show_int t) = Inr (of_int t)"
    and "times_line None c b = Inr l" and "one_word (b_name b)" and "one_word (str_data (benchmark_status b))"
  shows "\<exists>t. duration b = Inr t \<and> read_record e l = Inr (read_back b t)"
proof -
  from assms(2) obtain t where t: "duration b = Inr t"
    "l = b_name b @ '' '' @ str_data (benchmark_status b) @ '' '' @ show_int t @ [CHR 0x0A]"
    by (auto simp: times_line_def Let_def split: sum.splits)
  with words_line [OF assms(3,4) one_word_show_int [of t]] assms(1) t(1) show ?thesis
    by (auto simp: read_record_def read_back_def)
qed

lemma mapE_Inr: "mapE f xs = Inr ys \<longleftrightarrow> list_all2 (\<lambda>x y. f x = Inr y) xs ys"
proof (induction xs arbitrary: ys)
  case (Cons x xs)
  have "mapE f (x # xs) = Inr ys \<longleftrightarrow> (\<exists>z zs. ys = z # zs \<and> f x = Inr z \<and> mapE f xs = Inr zs)"
    by (auto split: sum.splits)
  then show ?case by (simp only: list_all2_Cons1 Cons.IH)
qed auto

lemma read_times_append:
  "list_all2 (\<lambda>l r. read_record e l = Inr r) ls rs \<Longrightarrow> distinct (map fst (acc @ rs)) \<Longrightarrow> read_times e ls acc = Inr (acc @ rs)"
proof (induction arbitrary: acc rule: list_all2_induct)
  case (Cons l ls r rs)
  obtain k v where r: "r = (k, v)" by (cases r)
  with Cons.prems have "dict_set k v acc = acc @ [r]" by (simp add: dict_set_append)
  with Cons.IH [of "acc @ [r]"] Cons.hyps(1) Cons.prems r show ?case by simp
qed simp

text \<open>C31: The \<open>.times\<close> file is read back. What \<open>sql2times\<close> writes for benchmarks with distinct names, where
  names and statuses are single words and no running time is beyond \<open>2^53\<close> seconds (up to which Python's floats hold every
  integer), \<open>times2res\<close> turns into the same names with their statuses and running
  times, in order; only an unknown status reads back without its time.\<close>

theorem times_file_reads_back:
  assumes "\<forall>k. \<bar>k\<bar> \<le> 2 ^ 53 \<longrightarrow> pe_float e (show_int k) = Inr (of_int k)"
    and "\<forall>b \<in> set bs. \<forall>t. duration b = Inr t \<longrightarrow> \<bar>t\<bar> \<le> 2 ^ 53"
    and "times_file None c bs = Inr ls" and "distinct (map b_name bs)"
    and "\<forall>b \<in> set bs. one_word (b_name b) \<and> one_word (str_data (benchmark_status b))"
  shows "\<exists>ts. mapE duration (filter started bs) = Inr ts \<and> times2res e ls = Inr (map2 (\<lambda>b t. (b_name b,
      \<lparr>res_status = JText (str_data (benchmark_status b)),
       res_time = (if str_data (benchmark_status b) \<in> {''unknown'', ''indet''} then - 1 else of_int t), res_attr = None\<rparr>))
     (filter started bs) ts)"
proof -
  let ?ok = "\<lambda>b. (\<forall>t. duration b = Inr t \<longrightarrow> pe_float e (show_int t) = Inr (of_int t))
    \<and> one_word (b_name b) \<and> one_word (str_data (benchmark_status b))"
  have ok: "\<forall>b \<in> set bs. ?ok b" using assms(1,2,5) by blast
  have "list_all2 (\<lambda>b l. times_line None c b = Inr l) bs' ls \<Longrightarrow> \<forall>b \<in> set bs'. ?ok b \<Longrightarrow>
    \<exists>ts. list_all2 (\<lambda>b t. duration b = Inr t) bs' ts \<and> list_all2 (\<lambda>l r. read_record e l = Inr r) ls (map2 read_back bs' ts)" for bs' ls
  proof (induction rule: list_all2_induct)
    case (Cons b bs' l ls)
    from Cons.prems have b: "?ok b" and rest: "\<forall>b \<in> set bs'. ?ok b" by simp_all
    from read_record_line [OF _ Cons.hyps(1), of e] b obtain t where t: "duration b = Inr t" "read_record e l = Inr (read_back b t)"
      by blast
    from Cons.IH [OF rest] obtain ts where "list_all2 (\<lambda>b t. duration b = Inr t) bs' ts"
      "list_all2 (\<lambda>l r. read_record e l = Inr r) ls (map2 read_back bs' ts)" by (elim exE conjE)
    with t show ?case by (intro exI [of _ "t # ts"]) simp
  qed simp
  from this [of "filter started bs" ls] assms(3) ok obtain ts where ts:
    "list_all2 (\<lambda>b t. duration b = Inr t) (filter started bs) ts"
    "list_all2 (\<lambda>l r. read_record e l = Inr r) ls (map2 read_back (filter started bs) ts)"
    by (auto simp: times_file_def mapE_Inr)
  then have "length ts = length (filter started bs)" by (simp add: list_all2_lengthD)
  from map_fst_zip [OF this [symmetric]] have "map b_name (map fst (zip (filter started bs) ts)) = map b_name (filter started bs)" by simp
  then have "map fst (map2 read_back (filter started bs) ts) = map b_name (filter started bs)"
    by (simp add: read_back_def comp_def case_prod_unfold)
  with read_times_append [OF ts(2), of "[]"] assms(4) have "times2res e ls = Inr (map2 read_back (filter started bs) ts)"
    by (simp add: times2res_def distinct_map_filter)
  with ts(1) show ?thesis by (auto simp: mapE_Inr read_back_def)
qed

text \<open>Two benchmarks in a database, the second one without an answer, and decimal numbers.\<close>

definition some_rows :: "hist_row list" where
  "some_rows = [\<lparr>r_id = 1, r_ts = 10, r_name = ''a'', r_node = Some ''[]'', r_event = ''+'', r_data = None\<rparr>,
     \<lparr>r_id = 2, r_ts = 14, r_name = ''a'', r_node = Some ''[]'', r_event = ''STATUS'', r_data = Some [(''report'', JText ''sat'')]\<rparr>,
     \<lparr>r_id = 3, r_ts = 15, r_name = ''b'', r_node = Some ''[]'', r_event = ''+'', r_data = None\<rparr>]"

definition int_env :: plot_env where
  "int_env = \<lparr>pe_float = (\<lambda>s. if CHR ''-'' \<in> set s then Inr (- of_nat (read_nat (tl s))) else Inr (of_nat (read_nat s))),
     pe_f6 = (\<lambda>q. show_int (floor q)), pe_f2 = (\<lambda>q. show_int (floor q))\<rparr>"

lemma int_env_reads: "pe_float int_env (show_int k) = Inr (of_int k)"
proof (cases "k < 0")
  case False
  have "CHR ''-'' \<notin> set (show_nat (nat k))" using show_nat_digits by fastforce
  with False show ?thesis by (simp add: int_env_def show_int_def)
qed (simp add: int_env_def show_int_def)

theorem times_file_reads_back_witness:
  "\<exists>bs ls. get_benchmarks some_rows = Inr bs \<and> times_file None [] bs = Inr ls
     \<and> times2res int_env ls = Inr [(''a'', \<lparr>res_status = SAT, res_time = 4, res_attr = None\<rparr>),
         (''b'', \<lparr>res_status = JText ''unknown'', res_time = - 1, res_attr = None\<rparr>)]"
proof -
  obtain bs where bs: "get_benchmarks some_rows = Inr bs" "bs = [\<lparr>b_name = ''a'', b_start = Some 10, b_end = Some 14,
      b_data = Some [(''report'', SAT), (''status'', SAT)]\<rparr>, \<lparr>b_name = ''b'', b_start = Some 15, b_end = Some 15, b_data = None\<rparr>]"
    by (simp add: get_benchmarks_def some_rows_def fill_benchmark_def least_def greatest_def solved_row_def first_status_def
        last_solved_def next_started_def new_benchmark_def Let_def)
  obtain ls where ls: "times_file None [] bs = Inr ls"
    by (simp add: bs(2) times_file_def started_def times_line_def duration_def Let_def)
  have "\<forall>b \<in> set bs. one_word (b_name b) \<and> one_word (str_data (benchmark_status b))"
    by (simp add: bs(2) one_word_def is_space_def benchmark_status_def data_key_def)
  moreover have "\<forall>b \<in> set bs. \<forall>t. duration b = Inr t \<longrightarrow> \<bar>t\<bar> \<le> 2 ^ 53" by (simp add: bs(2) duration_def)
  ultimately
  have "times2res int_env ls = Inr [(''a'', \<lparr>res_status = SAT, res_time = 4, res_attr = None\<rparr>),
         (''b'', \<lparr>res_status = JText ''unknown'', res_time = - 1, res_attr = None\<rparr>)]"
    using times_file_reads_back [of int_env bs "[]" ls] ls int_env_reads bs(2)
    by (auto simp: started_def duration_def benchmark_status_def data_key_def)
  with bs(1) ls show ?thesis by blast
qed

section \<open>Scatter plots\<close>

definition timed :: "rat \<Rightarrow> result dict \<Rightarrow> bool" where
  "timed bnd x = (\<forall>(k, r) \<in> set x. is_solved r \<longrightarrow> res_time r \<noteq> bnd \<and> res_time r \<noteq> - 1)"

lemma is_solved_time [simp]: "is_solved (r\<lparr>res_time := t\<rparr>) = is_solved r"
  by (simp add: is_solved_def)

lemma keys_bounded [simp]: "has_key k (bound_unsolved bnd x) = has_key k x" "has_key k (post_proc bnd x) = has_key k x"
  "map fst (bound_unsolved bnd x) = map fst x" "map fst (post_proc bnd x) = map fst x"
  by (auto simp: has_key_def map_of_eq_None_iff bound_unsolved_def post_proc_def case_prod_unfold image_image comp_def)

lemma solved_of_bounded:
  assumes "timed bnd x"
  shows "solved_of bnd (bound_unsolved bnd x) y = map fst (filter (\<lambda>(k, r). is_solved r \<and> has_key k y) x)"
    and "solved_of bnd (post_proc bnd (bound_unsolved bnd x)) y = map fst (filter (\<lambda>(k, r). is_solved r \<and> has_key k y) x)"
proof -
  have "timed bnd x \<Longrightarrow> solved_of bnd (bound_unsolved bnd x) y = map fst (filter (\<lambda>(k, r). is_solved r \<and> has_key k y) x)
    \<and> solved_of bnd (post_proc bnd (bound_unsolved bnd x)) y = map fst (filter (\<lambda>(k, r). is_solved r \<and> has_key k y) x)"
    by (induction x) (auto simp: solved_of_def bound_unsolved_def post_proc_def timed_def split: if_splits)
  with assms show "solved_of bnd (bound_unsolved bnd x) y = map fst (filter (\<lambda>(k, r). is_solved r \<and> has_key k y) x)"
    "solved_of bnd (post_proc bnd (bound_unsolved bnd x)) y = map fst (filter (\<lambda>(k, r). is_solved r \<and> has_key k y) x)" by simp_all
qed

lemma set_solved:
  assumes "distinct (map fst x)"
  shows "set (map fst (filter (\<lambda>(k, r). is_solved r \<and> has_key k y) x)) = {k. has_key k y \<and> (\<exists>r. map_of x k = Some r \<and> is_solved r)}"
  using assms by (force simp: map_of_eq_Some_iff)

lemma length_both:
  assumes "timed bnd y"
  shows "length (filter (\<lambda>(k, r). k \<in> S \<and> res_time r \<noteq> bnd) (post_proc bnd (bound_unsolved bnd y)))
     = length (filter (\<lambda>(k, r). k \<in> S \<and> is_solved r) y)"
  using assms by (induction y) (auto simp: bound_unsolved_def post_proc_def timed_def split: if_splits)

text \<open>The count for \<open>x\<close> or \<open>y\<close> in a scatter plot is right when every solved benchmark has a time: the
  number of common benchmarks that at least one of the two has solved. (A solved benchmark without a time gets
  its substitute between the counts, and is counted twice.)\<close>

lemma solved_counts_add_up:
  assumes "distinct (map fst x)" and "distinct (map fst y)" and "timed bnd x" and "timed bnd y"
  shows "(let (sx, sy, sb) = solved_counts bnd x y in sx + sy - sb)
    = int (card {k. \<exists>r q. map_of x k = Some r \<and> map_of y k = Some q \<and> (is_solved r \<or> is_solved q)})"
proof -
  let ?S = "\<lambda>x y. map fst (filter (\<lambda>(k, r). is_solved r \<and> has_key k y) x)"
  have dist: "distinct (?S x y)" "distinct (?S y x)" using assms(1,2) by (simp_all add: distinct_map_filter)
  have "distinct (map fst (filter (\<lambda>(k, r). k \<in> set (?S x y) \<and> is_solved r) y))" using assms(2) by (simp add: distinct_map_filter)
  from distinct_card [OF this]
  have "length (filter (\<lambda>(k, r). k \<in> set (?S x y) \<and> is_solved r) y)
      = card (set (map fst (filter (\<lambda>(k, r). k \<in> set (?S x y) \<and> is_solved r) y)))" by simp
  also have "set (map fst (filter (\<lambda>(k, r). k \<in> set (?S x y) \<and> is_solved r) y)) = set (?S x y) \<inter> set (?S y x)"
    unfolding set_solved [OF assms(1)] set_solved [OF assms(2)]
    using assms(2) by (force simp: map_of_eq_Some_iff has_key_def)
  finally have both: "length (filter (\<lambda>(k, r). k \<in> set (?S x y) \<and> is_solved r) y) = card (set (?S x y) \<inter> set (?S y x))" .
  have "solved_counts bnd x y = (int (length (?S x y)), int (length (?S y x)), int (card (set (?S x y) \<inter> set (?S y x))))"
    unfolding solved_counts_def Let_def solved_of_bounded(1) [OF assms(3)] solved_of_bounded(1) [OF assms(4)]
      solved_of_bounded(2) [OF assms(3)] length_both [OF assms(4)] keys_bounded both by (rule refl)
  then have "(let (sx, sy, sb) = solved_counts bnd x y in sx + sy - sb) = int (card (set (?S x y) \<union> set (?S y x)))"
    using distinct_card [OF dist(1)] distinct_card [OF dist(2)] card_Un_Int [of "set (?S x y)" "set (?S y x)"] by simp
  also have "set (?S x y) \<union> set (?S y x) = {k. \<exists>r q. map_of x k = Some r \<and> map_of y k = Some q \<and> (is_solved r \<or> is_solved q)}"
    unfolding set_solved [OF assms(1)] set_solved [OF assms(2)] by (auto simp: has_key_def)
  finally show ?thesis .
qed

definition took :: "string \<Rightarrow> rat \<Rightarrow> result" where
  "took st t = \<lparr>res_status = JText st, res_time = t, res_attr = None\<rparr>"

lemma solved_twice:
  "(let (sx, sy, sb) = solved_counts 2000 [(''a'', took ''sat'' (- 1))] [(''a'', took ''sat'' 7)] in sx + sy - sb) = 2"
  by (auto simp: solved_counts_def Let_def solved_of_def bound_unsolved_def post_proc_def took_def is_solved_def has_key_def)

section \<open>Cactus plots\<close>

lemma collect_final:
  assumes "cactus_collect only (Some files) rs = (final, items)"
  shows "set final = {k \<in> set files. \<forall>(l, res) \<in> set rs. k \<in> fst ` {(k, r) \<in> set res. only \<longrightarrow> res_status r \<noteq> JText ''unknown''}}
    \<and> list_all2 (\<lambda>(l, res) (l', vals). l' = l \<and> set vals \<subseteq> set res
        \<and> (\<forall>(k, r) \<in> set res. k \<in> set final \<and> (only \<longrightarrow> res_status r \<noteq> JText ''unknown'') \<longrightarrow> (k, r) \<in> set vals)
        \<and> (distinct (map fst res) \<longrightarrow> distinct (map fst vals))
        \<and> (\<forall>(k, r) \<in> set vals. only \<longrightarrow> res_status r \<noteq> JText ''unknown'')) rs items"
  using assms
proof (induction rs arbitrary: files items)
  case (Cons lr rs)
  obtain l res where lr: "lr = (l, res)" by (cases lr)
  let ?v = "cactus_values only files res"
  let ?f = "filter (\<lambda>k. k \<in> set (map fst ?v)) files"
  obtain items' where it: "cactus_collect only (Some ?f) rs = (final, items')" "items = (l, ?v) # items'"
    using Cons.prems by (auto simp: lr Let_def split: prod.splits)
  have "set ?f = {k \<in> set files. k \<in> fst ` {(k, r) \<in> set res. only \<longrightarrow> res_status r \<noteq> JText ''unknown''}}"
    by (force simp: cactus_values_def)
  with Cons.IH [OF it(1)] show ?case
    by (auto simp: lr it(2) cactus_values_def distinct_map_filter)
qed simp

lemma list_all2_right: "list_all2 P xs ys \<Longrightarrow> y \<in> set ys \<Longrightarrow> \<exists>a b. (a, b) \<in> set xs \<and> P (a, b) y"
  by (induction rule: list_all2_induct) auto

lemma first_files:
  "cactus_collect only None ((l, res) # rs) = cactus_collect only (Some (map fst (filter (\<lambda>(k, r). only \<longrightarrow> res_status r \<noteq> JText ''unknown'') res))) ((l, res) # rs)"
  by simp

text \<open>The benchmarks that are kept, and where the values of a curve come from.\<close>

definition kept_in :: "bool \<Rightarrow> string \<times> result dict \<Rightarrow> string set" where
  "kept_in only lr = fst ` {(k, r) \<in> set (snd lr). only \<longrightarrow> res_status r \<noteq> JText ''unknown''}"

lemma kept_in_iff:
  "distinct (map fst (snd lr)) \<Longrightarrow> k \<in> kept_in only lr \<longleftrightarrow> (\<exists>r. map_of (snd lr) k = Some r \<and> (only \<longrightarrow> res_status r \<noteq> JText ''unknown''))"
  by (force simp: kept_in_def map_of_eq_Some_iff)

lemma curve_values:
  assumes "(l, curve) \<in> set (cactus_curves only rs)"
  shows "\<exists>final vals res. set final = {k. \<forall>lr \<in> set rs. k \<in> kept_in only lr}
    \<and> curve = sort_key (res_time \<circ> snd) (filter (\<lambda>(k, _). k \<in> set final) vals)
    \<and> (l, res) \<in> set rs \<and> set vals \<subseteq> set res \<and> (distinct (map fst res) \<longrightarrow> distinct (map fst vals)) \<and> set final \<subseteq> fst ` set vals"
proof -
  let ?ok = "\<lambda>r. only \<longrightarrow> res_status r \<noteq> JText ''unknown''"
  from assms obtain l0 res0 rest where rs: "rs = (l0, res0) # rest" by (cases rs) (auto simp: cactus_curves_def)
  let ?first = "map fst (filter (\<lambda>(k, r). ?ok r) res0)"
  obtain final items where it: "cactus_collect only (Some ?first) rs = (final, items)" by (cases "cactus_collect only (Some ?first) rs")
  then have "cactus_curves only rs = map (\<lambda>(label, vals). (label, sort_key (res_time \<circ> snd) (filter (\<lambda>(k, _). k \<in> set final) vals))) items"
    using first_files [of only l0 res0 rest] by (simp add: cactus_curves_def rs del: cactus_collect.simps)
  with assms obtain vals where v: "(l, vals) \<in> set items" "curve = sort_key (res_time \<circ> snd) (filter (\<lambda>(k, _). k \<in> set final) vals)"
    by fastforce
  have fin: "set final = {k. \<forall>lr \<in> set rs. k \<in> kept_in only lr}"
  proof -
    have "set ?first = fst ` {(k, r) \<in> set res0. ?ok r}" by (simp add: case_prod_unfold)
    then show ?thesis unfolding conjunct1 [OF collect_final [OF it]] kept_in_def case_prod_beta'
      by (simp only: rs list.set ball_simps snd_conv) blast
  qed
  from list_all2_right [OF conjunct2 [OF collect_final [OF it]] v(1)] obtain res where res: "(l, res) \<in> set rs" "set vals \<subseteq> set res"
    "distinct (map fst res) \<longrightarrow> distinct (map fst vals)" "\<forall>(k, r) \<in> set res. k \<in> set final \<and> ?ok r \<longrightarrow> (k, r) \<in> set vals"
    unfolding prod.case by blast
  have "k \<in> fst ` set vals" if "k \<in> set final" for k
  proof -
    from that res(1) fin have "k \<in> kept_in only (l, res)" by blast
    then obtain r where "(k, r) \<in> set res" "?ok r" by (auto simp: kept_in_def)
    with res(4) that have "(k, r) \<in> set vals" by fastforce
    then show ?thesis by force
  qed
  with fin v(2) res(1-3) show ?thesis by blast
qed

lemma entries_of:
  assumes "set xs \<subseteq> set d" and "distinct (map fst d)"
  shows "set (map fst (filter (P \<circ> snd) xs)) = {k \<in> set (map fst xs). \<exists>r. map_of d k = Some r \<and> P r}"
proof -
  have val: "map_of d k = Some r" if "(k, r) \<in> set xs" for k r using assms that by (auto simp: map_of_eq_Some_iff)
  have "k \<in> set (map fst (filter (P \<circ> snd) xs)) \<longleftrightarrow> (\<exists>r. (k, r) \<in> set xs \<and> P r)" for k by force
  moreover have "k \<in> set (map fst xs) \<longleftrightarrow> (\<exists>r. (k, r) \<in> set xs)" for k by force
  ultimately show ?thesis using val by (intro set_eqI) fastforce
qed

lemma cactus_points_lines:
  "cactus_points e i krs = map (\<lambda>(j, k, r). show_nat j @ '', '' @ pe_f6 e (res_time r) @ '' # '' @ k)
     (enumerate i (filter (is_solved \<circ> snd) krs))"
  by (induction krs arbitrary: i) auto

text \<open>C33: A cactus plot compares its results on common benchmarks. The list behind each curve runs over the benchmarks that every
  result has (and, with \<open>-S\<close>, that none left unknown), with the values of the curve's own result, in ascending order of the times. The
  points that are printed are the entries with an answer, numbered from one. So the curves show the same benchmarks only with \<open>-S\<close>,
  when every status is an answer or unknown: then they show those that every result has solved. Otherwise each curve shows
  those of the common benchmarks that its own result has solved.\<close>

theorem cactus_curves_share_benchmarks:
  assumes "\<forall>(l, res) \<in> set rs. distinct (map fst res)" and "(l, curve) \<in> set (cactus_curves only rs)"
  shows "\<exists>res. (l, res) \<in> set rs \<and> set curve \<subseteq> set res
    \<and> set (map fst curve) = {k. \<forall>(l, res) \<in> set rs. \<exists>r. map_of res k = Some r \<and> (only \<longrightarrow> res_status r \<noteq> JText ''unknown'')}
    \<and> sorted (map (res_time \<circ> snd) curve) \<and> distinct (map fst curve)
    \<and> cactus_points e 1 curve = map (\<lambda>(j, k, r). show_nat j @ '', '' @ pe_f6 e (res_time r) @ '' # '' @ k)
         (enumerate 1 (filter (is_solved \<circ> snd) curve))
    \<and> set (map fst (filter (is_solved \<circ> snd) curve)) = {k \<in> set (map fst curve). \<exists>r. map_of res k = Some r \<and> is_solved r}
    \<and> (only \<and> (\<forall>(l, res) \<in> set rs. \<forall>(k, r) \<in> set res. is_solved r \<or> res_status r = JText ''unknown'') \<longrightarrow>
         set (map fst (filter (is_solved \<circ> snd) curve)) = {k. \<forall>(l, res) \<in> set rs. \<exists>r. map_of res k = Some r \<and> is_solved r})"
proof -
  from curve_values [OF assms(2)] obtain final vals res where fin: "set final = {k. \<forall>lr \<in> set rs. k \<in> kept_in only lr}"
    and c: "curve = sort_key (res_time \<circ> snd) (filter (\<lambda>(k, _). k \<in> set final) vals)"
    and res: "(l, res) \<in> set rs" "set vals \<subseteq> set res" "distinct (map fst res) \<longrightarrow> distinct (map fst vals)" "set final \<subseteq> fst ` set vals" by blast
  have dist: "distinct (map fst res)" using assms(1) res(1) by blast
  have sub: "set curve \<subseteq> set res" using c res(2) by auto
  have "set (map fst curve) = set final" using c res(4) by force
  also have "\<dots> = {k. \<forall>(l, res) \<in> set rs. \<exists>r. map_of res k = Some r \<and> (only \<longrightarrow> res_status r \<noteq> JText ''unknown'')}"
    unfolding fin
  proof (intro Collect_cong ball_cong refl)
    fix k x assume "x \<in> set rs"
    with assms(1) have "distinct (map fst (snd x))" by (auto simp: case_prod_beta)
    from kept_in_iff [OF this, of k only] show "(k \<in> kept_in only x)
        = (case x of (l, res) \<Rightarrow> \<exists>r. map_of res k = Some r \<and> (only \<longrightarrow> res_status r \<noteq> JText ''unknown''))" by (simp only: case_prod_beta)
  qed
  finally have common: "set (map fst curve) = \<dots>" .
  have solved: "set (map fst (filter (is_solved \<circ> snd) curve)) = {k \<in> set (map fst curve). \<exists>r. map_of res k = Some r \<and> is_solved r}"
    by (rule entries_of [OF sub dist])
  have all_solved: "set (map fst (filter (is_solved \<circ> snd) curve)) = {k. \<forall>(l, res) \<in> set rs. \<exists>r. map_of res k = Some r \<and> is_solved r}"
    if "only" and st: "\<forall>(l, res) \<in> set rs. \<forall>(k, r) \<in> set res. is_solved r \<or> res_status r = JText ''unknown''"
  proof -
    have "(\<exists>r. map_of x k = Some r \<and> (only \<longrightarrow> res_status r \<noteq> JText ''unknown'')) = (\<exists>r. map_of x k = Some r \<and> is_solved r)"
      if "(y, x) \<in> set rs" for k x y
    proof -
      have "is_solved r \<longleftrightarrow> res_status r \<noteq> JText ''unknown''" if "map_of x k = Some r" for r
        using bspec [OF st \<open>(y, x) \<in> set rs\<close>] map_of_SomeD [OF that] by (auto simp: is_solved_def)
      with \<open>only\<close> show ?thesis by auto
    qed
    then have all: "set (map fst curve) = {k. \<forall>(l, res) \<in> set rs. \<exists>r. map_of res k = Some r \<and> is_solved r}"
      unfolding common by (intro Collect_cong ball_cong refl) (rename_tac k x, case_tac x, simp only: prod.case)
    show ?thesis unfolding solved all using res(1) by auto
  qed
  have "distinct (map fst curve)" using res(3) dist c by (simp add: distinct_map distinct_sort inj_on_def)
  moreover have "sorted (map (res_time \<circ> snd) curve)" using c by simp
  ultimately show ?thesis
    using common solved res(1) sub
    by (intro exI [of _ res] conjI cactus_points_lines impI) (assumption | erule conjE, rule all_solved, assumption, assumption)+
qed

definition two_runs :: "(string \<times> result dict) list" where
  "two_runs = [(''old'', [(''a'', took ''sat'' 9), (''b'', took ''unsat'' 3), (''c'', took ''sat'' 1)]),
     (''new'', [(''b'', took ''unsat'' 2), (''a'', took ''sat'' 5), (''c'', took ''unknown'' (- 1))])]"

theorem cactus_curves_share_benchmarks_witness:
  "(let curve = [(''b'', took ''unsat'' 3), (''a'', took ''sat'' 9)] in
      (''old'', curve) \<in> set (cactus_curves True two_runs) \<and> sorted (map (res_time \<circ> snd) curve)
      \<and> (\<forall>e. length (cactus_points e 1 curve) = 2))"
proof -
  have "\<forall>(l, res) \<in> set two_runs. distinct (map fst res)" by (simp add: two_runs_def)
  moreover have "(''old'', [(''b'', took ''unsat'' 3), (''a'', took ''sat'' 9)]) \<in> set (cactus_curves True two_runs)" by code_simp
  ultimately have "\<exists>res. sorted (map (res_time \<circ> snd) [(''b'', took ''unsat'' 3), (''a'', took ''sat'' 9)])
    \<and> cactus_points e 1 [(''b'', took ''unsat'' 3), (''a'', took ''sat'' 9)] = map (\<lambda>(j, k, r). show_nat j @ '', '' @ pe_f6 e (res_time r) @ '' # '' @ k)
         (enumerate 1 (filter (is_solved \<circ> snd) [(''b'', took ''unsat'' 3), (''a'', took ''sat'' 9)]))" for e
    using cactus_curves_share_benchmarks [of two_runs "''old''" "[(''b'', took ''unsat'' 3), (''a'', took ''sat'' 9)]" True e] by blast
  then show ?thesis
    using \<open>(''old'', _) \<in> _\<close> by (simp add: Let_def is_solved_def took_def)
qed

text \<open>Without \<open>-S\<close> the two curves of this plot do not show the same benchmarks.\<close>

lemma curves_differ:
  "map (\<lambda>(l, curve). map fst (filter (is_solved \<circ> snd) curve)) (cactus_curves False two_runs) = [[''c'', ''b'', ''a''], [''b'', ''a'']]"
  by code_simp

section \<open>What the server records\<close>

text \<open>A row that the server inserts, as it stands in the table.\<close>

definition stored :: "int \<Rightarrow> int \<Rightarrow> history_row \<Rightarrow> hist_row" where
  "stored i t = (\<lambda>(name, node, event, data). \<lparr>r_id = i, r_ts = t, r_name = name, r_node = Some (show_path node), r_event = event,
     r_data = Some [(''node'', JText (show_path data))]\<rparr>)"

lemma foldM_events:
  assumes "\<And>x l s l' t. f x l s = Some (Inr l', t) \<Longrightarrow> \<forall>r \<in> set l. P r \<Longrightarrow> \<forall>r \<in> set l'. P r"
  shows "foldM f xs l s = Some (Inr l', t) \<Longrightarrow> \<forall>r \<in> set l. P r \<Longrightarrow> \<forall>r \<in> set l'. P r"
proof (induction xs arbitrary: l s)
  case (Cons x xs)
  then show ?case using assms by (auto elim!: bindM_Some_cases)
qed (simp add: run_simps)

definition partition_row :: "history_row \<Rightarrow> bool" where
  "partition_row = (\<lambda>(name, node, event, data). event = ''OR'' \<or> event = ''AND'')"

lemma partition_row_simps: "partition_row (a, b, ''OR'', c)" "partition_row (a, b, ''AND'', c)"
  by (simp_all add: partition_row_def)

lemma recorded_events:
  assumes "fixedpoint_partition n h = Some (Inr rows, h')"
  shows "\<forall>r \<in> set rows. partition_row r"
proof -
  have "foldM (\<lambda>query rows. bindM (and_node (Some p) (''('' @ QUERY @ '' '' @ query @ '')'')) (\<lambda>c.
      bindM (readM (path c)) (\<lambda>cp. retM (rows @ [(name, sp, ''AND'', cp)])))) qs [(name, sp, ''OR'', pp)] s = Some (Inr rows', t) \<Longrightarrow>
    \<forall>r \<in> set rows'. partition_row r" for p name sp qs pp s rows' t
    by (erule foldM_events [where P = partition_row, rotated])
      (auto simp: partition_row_simps run_simps elim!: bindM_Some_cases)
  with assms show ?thesis
    unfolding fixedpoint_partition_def Let_def case_prod_unfold
    by (auto simp: run_simps seqM_def elim!: bindM_Some_cases split: sum.splits)
qed

text \<open>C32: The database never shows when an instance was started. The only rows that the server inserts are those of a
  partitioned fixedpoint instance, with the events \<open>OR\<close> and \<open>AND\<close>; \<open>sql2times\<close> looks for \<open>+\<close>, \<open>STATUS\<close> and \<open>SOLVED\<close>. From
  a table of such rows it makes an empty \<open>.times\<close> file and no result for a plot.\<close>

theorem recorded_partitions_have_no_times:
  assumes "\<forall>r \<in> set table. \<exists>n h rows h' row. fixedpoint_partition n h = Some (Inr rows, h') \<and> row \<in> set rows
      \<and> r = stored (r_id r) (r_ts r) row"
  shows "\<exists>bs. get_benchmarks table = Inr bs \<and> map b_name bs = remdups (map r_name table) \<and> \<not> list_ex started bs
    \<and> times_file col c bs = Inr [] \<and> times_total bs = Inr 0 \<and> db2res attr table = Inr []"
proof -
  have "r_event r \<noteq> ''+''" if r: "r \<in> set table" for r
  proof -
    obtain n h rows h' row where row: "fixedpoint_partition n h = Some (Inr rows, h')" "row \<in> set rows" "r = stored (r_id r) (r_ts r) row"
      using assms r by blast
    from recorded_events [OF row(1)] row(2) have "partition_row row" by blast
    moreover from row(3) have "r_event r = fst (snd (snd row))" by (cases row) (simp add: stored_def split: prod.splits, metis hist_row.select_convs(5))
    ultimately show ?thesis by (auto simp: partition_row_def split: prod.splits)
  qed
  then have "filter (\<lambda>r. r_name r = name \<and> r_event r = ''+'') table = []" for name by (simp add: filter_empty_conv)
  then have "fill_benchmark table = (\<lambda>name. Inr (new_benchmark name))" by (simp add: fill_benchmark_def least_def fun_eq_iff)
  moreover have "mapE (\<lambda>name. Inr (new_benchmark name)) names = Inr (map new_benchmark names)" for names by (induction names) simp_all
  ultimately have bs: "get_benchmarks table = Inr (map new_benchmark (remdups (map r_name table)))" by (simp add: get_benchmarks_def)
  have new: "\<not> started (new_benchmark name)" for name by (simp add: started_def new_benchmark_def)
  then have none: "filter started (map new_benchmark names) = []" for names by (simp add: filter_empty_conv)
  have "read_benchmarks attr (map new_benchmark names) acc = Inr acc" for names acc by (induction names) (simp_all add: new)
  with bs none show ?thesis
    by (intro exI [of _ "map new_benchmark (remdups (map r_name table))"])
      (simp add: times_file_def times_total_def db2res_def list_ex_iff new comp_def, simp add: new_benchmark_def)
qed

text \<open>A fixedpoint instance with one rule for its query.\<close>

definition one_rule :: heap where
  "one_rule = (put 0 (blank\<lparr>n_kind := Fixedpoint, n_name := ''x'', n_query := JStr ''q'',
      n_json := [JArr [JStr ''declare-rel'', JStr ''q'', JArr []],
                 JArr [JStr ''rule'', JArr [JStr ''=>'', JStr ''true'', JStr ''q'']]]\<rparr>) empty_heap)\<lparr>fresh := 1\<rparr>"

lemma one_rule_rows:
  "\<exists>h. fixedpoint_partition 0 one_rule = Some (Inr [(''x'', [], ''OR'', [0]), (''x'', [], ''AND'', [0, 0])], h)"
proof -
  have "(case fixedpoint_partition 0 one_rule of Some (Inr rows, _) \<Rightarrow> Some rows | _ \<Rightarrow> None)
      = Some [(''x'', [], ''OR'', [0]), (''x'', [], ''AND'', [0, 0])]" by code_simp
  then show ?thesis by (auto split: option.splits sum.splits)
qed

theorem recorded_partitions_have_no_times_witness:
  "db2res None [stored 1 100 (''x'', [], ''OR'', [0]), stored 2 100 (''x'', [], ''AND'', [0, 0])] = Inr []"
proof -
  obtain h where "fixedpoint_partition 0 one_rule = Some (Inr [(''x'', [], ''OR'', [0]), (''x'', [], ''AND'', [0, 0])], h)"
    using one_rule_rows by blast
  moreover have "stored i t row = stored (r_id (stored i t row)) (r_ts (stored i t row)) row" for i t row
    by (simp add: stored_def case_prod_unfold)
  ultimately have "\<forall>r \<in> set [stored 1 100 (''x'', [], ''OR'', [0]), stored 2 100 (''x'', [], ''AND'', [0, 0])].
    \<exists>n h rows h' row. fixedpoint_partition n h = Some (Inr rows, h') \<and> row \<in> set rows \<and> r = stored (r_id r) (r_ts r) row"
    by (metis (no_types, lifting) list.set_intros set_ConsD empty_iff list.set(1))
  from recorded_partitions_have_no_times [OF this, of None "[]" None] show ?thesis by blast
qed

end
