(* ===== verification/Files.thy ===== *)
theory Files
  imports Dot
begin

text \<open>
  \<open>graphviz/files.py\<close> and \<open>graphviz/backend.py\<close>: the attributes of a file object with their checks, saving the
  source, and running the layout programs. The state \<open>gv_state\<close> is the file system, the programs that were
  run and the viewers that were opened; \<open>gv_env\<close> holds what the platform contributes: the result of a program, codecs,
  and failures of the file system. Texts and the contents of files are lists of bytes; paths are those of POSIX.
\<close>

section \<open>The parameters of the layout programs\<close>

definition engines :: "string list" where
  "engines = [''dot'', ''neato'', ''twopi'', ''circo'', ''fdp'', ''sfdp'', ''patchwork'', ''osage'']"

definition formats :: "string list" where
  "formats = [''bmp'', ''canon'', ''dot'', ''gv'', ''xdot'', ''xdot1.2'', ''xdot1.4'', ''cgimage'', ''cmap'', ''eps'', ''exr'', ''fig'',
     ''gd'', ''gd2'', ''gif'', ''gtk'', ''ico'', ''imap'', ''cmapx'', ''imap_np'', ''cmapx_np'', ''ismap'', ''jp2'', ''jpg'', ''jpeg'', ''jpe'',
     ''json'', ''json0'', ''dot_json'', ''xdot_json'', ''pct'', ''pict'', ''pdf'', ''pic'', ''plain'', ''plain-ext'', ''png'', ''pov'', ''ps'', ''ps2'',
     ''psd'', ''sgi'', ''svg'', ''svgz'', ''tga'', ''tif'', ''tiff'', ''tk'', ''vml'', ''vmlz'', ''vrml'', ''wbmp'', ''webp'', ''xlib'', ''x11'']"

definition renderers :: "string list" where
  "renderers = [''cairo'', ''dot'', ''fig'', ''gd'', ''gdiplus'', ''map'', ''pic'', ''pov'', ''ps'', ''svg'', ''tk'', ''vml'', ''vrml'', ''xdot'']"

definition formatters :: "string list" where
  "formatters = [''cairo'', ''core'', ''gd'', ''gdiplus'', ''gdwbmp'', ''xlib'']"

abbreviation "UTF8 \<equiv> ''utf-8''"

definition unknown_in :: "string option \<Rightarrow> string list \<Rightarrow> bool" where
  "unknown_in x known = (case x of None \<Rightarrow> False | Some v \<Rightarrow> v \<notin> set known)"

definition given :: "'a option list \<Rightarrow> 'a list" where
  "given xs = concat (map (\<lambda>x. case x of None \<Rightarrow> [] | Some v \<Rightarrow> [v]) xs)"

text \<open>\<open>command\<close>: the arguments, and the name of the rendered file.\<close>

definition gv_command :: "string \<Rightarrow> string \<Rightarrow> string option \<Rightarrow> string option \<Rightarrow> string option \<Rightarrow> exc + (string list \<times> string option)" where
  "gv_command engine fmt filepath renderer formatter =
     (if formatter \<noteq> None \<and> renderer = None then Inl RequiredArgumentError
      else if engine \<notin> set engines \<or> fmt \<notin> set formats \<or> unknown_in renderer renderers \<or> unknown_in formatter formatters
      then Inl ValueError
      else (let parts = given [Some fmt, renderer, formatter];
              cmd = [''dot'', ''-K'' @ engine, ''-T'' @ join '':'' parts]
        in Inr (case filepath of None \<Rightarrow> (cmd, None)
             | Some p \<Rightarrow> (cmd @ [''-O'', p], Some (p @ ''.'' @ join ''.'' (rev parts))))))"

section \<open>Running programs\<close>

text \<open>What a program does: it cannot be found or started, or it ends with a code and its outputs, having written files.\<close>

datatype outcome = NoSuchProgram | CannotStart | Ran int string string "(string \<times> string) list"

record gv_env =
  ge_platform :: string
  ge_preferred :: string
  ge_codec :: "string \<Rightarrow> bool"
  ge_encode :: "string \<Rightarrow> string \<Rightarrow> exc + string"
  ge_decode :: "string \<Rightarrow> string \<Rightarrow> exc + string"
  ge_open :: "string \<Rightarrow> exc option"
  ge_mkdirs :: "string \<Rightarrow> exc option"
  ge_exec :: "string dict \<Rightarrow> string list \<Rightarrow> string option \<Rightarrow> string option \<Rightarrow> bool \<Rightarrow> outcome"
  ge_stderr_encoding :: string
  ge_normpath :: "string \<Rightarrow> string"

record gv_state =
  gs_files :: "string dict"
  gs_dirs :: "string list"
  gs_runs :: "(string list \<times> string option \<times> string option) list"
  gs_viewers :: "string list list"
  gs_stderr :: "string list"

definition ofE :: "exc + 'a \<Rightarrow> ('s, 'a) prog" where
  "ofE r = (case r of Inl e \<Rightarrow> raiseM e | Inr x \<Rightarrow> retM x)"

text \<open>
  \<open>run\<close> with the working directory \<open>cwd\<close>; with an encoding, the input is encoded and the outputs are decoded.
  \<open>joined\<close> sends the error output where the output goes.
\<close>

definition encode_input :: "gv_env \<Rightarrow> string option \<Rightarrow> string option \<Rightarrow> exc + string option" where
  "encode_input e input encoding = (case (input, encoding) of
     (Some t, Some enc) \<Rightarrow> map_sum id Some (ge_encode e enc t) | _ \<Rightarrow> Inr input)"

definition decode_outputs :: "gv_env \<Rightarrow> string option \<Rightarrow> bool \<Rightarrow> string \<Rightarrow> string \<Rightarrow> exc + string" where
  "decode_outputs e encoding joined out err = (case encoding of None \<Rightarrow> Inr out
     | Some enc \<Rightarrow> (case ge_decode e enc out of Inl x \<Rightarrow> Inl x
         | Inr out' \<Rightarrow> if joined then Inr out' else map_sum id (\<lambda>_. out') (ge_decode e enc err)))"

definition show_errors :: "gv_env \<Rightarrow> bool \<Rightarrow> string \<Rightarrow> (gv_state, unit) prog" where
  "show_errors e quiet err = whenM (\<not> quiet \<and> err \<noteq> []) (bindM (ofE (ge_decode e (ge_stderr_encoding e) err))
     (\<lambda>t. modM (\<lambda>s. s\<lparr>gs_stderr := gs_stderr s @ [t]\<rparr>)))"

definition gv_run :: "gv_env \<Rightarrow> string list \<Rightarrow> string option \<Rightarrow> string option \<Rightarrow> bool \<Rightarrow> string option \<Rightarrow> bool \<Rightarrow> bool
    \<Rightarrow> (gv_state, string) prog" where
  "gv_run e cmd cwd input check encoding quiet joined =
     bindM (ofE (encode_input e input encoding)) (\<lambda>data.
     bindM (getM gs_files) (\<lambda>files.
     seqM (modM (\<lambda>s. s\<lparr>gs_runs := gs_runs s @ [(cmd, cwd, data)]\<rparr>))
     (case ge_exec e files cmd cwd data joined of
        NoSuchProgram \<Rightarrow> raiseM ExecutableNotFound
      | CannotStart \<Rightarrow> raiseM OSError
      | Ran code out err written \<Rightarrow>
          seqM (modM (\<lambda>s. s\<lparr>gs_files := dict_update (gs_files s) written\<rparr>))
          (seqM (whenM (\<not> joined) (show_errors e quiet err))
          (bindM (ofE (decode_outputs e encoding joined out err)) (\<lambda>out'.
             if check \<and> code \<noteq> 0 then raiseM (CalledProcessError code) else retM out'))))))"

text \<open>\<open>os.path.join\<close> and \<open>os.path.split\<close> of POSIX\<close>

definition path_join :: "string \<Rightarrow> string \<Rightarrow> string" where
  "path_join a b = (if take 1 b = ''/'' then b else if a = [] \<or> last a = CHR ''/'' then a @ b else a @ ''/'' @ b)"

definition not_slash :: "char \<Rightarrow> bool" where
  "not_slash c = (c \<noteq> CHR ''/'')"

definition path_split :: "string \<Rightarrow> string \<times> string" where
  "path_split p = (let tl' = rev (takeWhile not_slash (rev p)); hd' = rev (dropWhile not_slash (rev p)) in
     (if list_all (\<lambda>c. c = CHR ''/'') hd' then hd' else rev (dropWhile (\<lambda>c. c = CHR ''/'') (rev hd')), tl'))"

definition gv_render :: "gv_env \<Rightarrow> string \<Rightarrow> string \<Rightarrow> string \<Rightarrow> string option \<Rightarrow> string option \<Rightarrow> bool
    \<Rightarrow> (gv_state, string) prog" where
  "gv_render e engine fmt filepath renderer formatter quiet = (let (dirname, filename) = path_split filepath in
     bindM (ofE (gv_command engine fmt (Some filename) renderer formatter)) (\<lambda>(cmd, rendered).
     let name = case_option [] id rendered in
     bindM (gv_run e cmd (if dirname = [] then None else Some dirname) None True None quiet False) (\<lambda>_.
       retM (if dirname = [] then name else path_join dirname name))))"

definition gv_pipe :: "gv_env \<Rightarrow> string \<Rightarrow> string \<Rightarrow> string \<Rightarrow> string option \<Rightarrow> string option \<Rightarrow> bool \<Rightarrow> (gv_state, string) prog" where
  "gv_pipe e engine fmt data renderer formatter quiet =
     bindM (ofE (gv_command engine fmt None renderer formatter)) (\<lambda>(cmd, _). gv_run e cmd None (Some data) True None quiet False)"

definition gv_unflatten :: "gv_env \<Rightarrow> string \<Rightarrow> int option \<Rightarrow> bool \<Rightarrow> int option \<Rightarrow> string \<Rightarrow> (gv_state, string) prog" where
  "gv_unflatten e source stagger fanout chain encoding =
     (if fanout \<and> stagger = None then raiseM RequiredArgumentError
      else gv_run e ([''unflatten''] @ (case stagger of None \<Rightarrow> [] | Some n \<Rightarrow> [''-l'', show_int n])
             @ (if fanout then [''-f''] else []) @ (case chain of None \<Rightarrow> [] | Some n \<Rightarrow> [''-c'', show_int n]))
           None (Some source) False (Some encoding) False False)"

section \<open>The version of Graphviz\<close>

text \<open>The regular expression of \<open>version\<close>, at the front of a text: two numbers, then a third one that a development mark
  or a fourth number may follow, then a space.\<close>

definition number_at :: "string \<Rightarrow> (nat \<times> string) option" where
  "number_at s = (let ds = takeWhile is_num_char s in if ds = [] then None else Some (read_nat ds, drop (length ds) s))"

definition dotted :: "string \<Rightarrow> (nat \<times> string) option" where
  "dotted s = (case s of c # r \<Rightarrow> if c = CHR ''.'' then number_at r else None | [] \<Rightarrow> None)"

definition digits_of :: "nat \<Rightarrow> string \<Rightarrow> bool" where
  "digits_of n s = (length (take n s) = n \<and> list_all is_num_char (take n s))"

definition dev_mark :: "string \<Rightarrow> string option" where
  "dev_mark s = (if take 5 s = ''~dev.'' \<and> digits_of 8 (drop 5 s) \<and> take 1 (drop 13 s) = ''.'' \<and> digits_of 4 (drop 14 s)
     then Some (drop 18 s) else None)"

definition version_tail :: "nat list \<Rightarrow> string \<Rightarrow> nat list option" where
  "version_tail ns r = (if take 1 r = '' '' then Some ns else None)"

definition version_at :: "string \<Rightarrow> nat list option" where
  "version_at s = (let p = ''graphviz version '' in if take (length p) s \<noteq> p then None
     else case number_at (drop (length p) s) of None \<Rightarrow> None
     | Some (a, r1) \<Rightarrow> (case dotted r1 of None \<Rightarrow> None
     | Some (b, r2) \<Rightarrow> (case dotted r2 of None \<Rightarrow> version_tail [a, b] r2
     | Some (c, r3) \<Rightarrow> (case dev_mark r3 of Some r4 \<Rightarrow> version_tail [a, b, c] r4
         | None \<Rightarrow> (case dotted r3 of Some (d, r4) \<Rightarrow> version_tail [a, b, c, d] r4
             | None \<Rightarrow> version_tail [a, b, c] r3)))))"

fun find_version :: "string \<Rightarrow> nat list option" where
  "find_version [] = version_at []"
| "find_version (c # s) = (case version_at (c # s) of Some v \<Rightarrow> Some v | None \<Rightarrow> find_version s)"

definition gv_version :: "gv_env \<Rightarrow> (gv_state, nat list) prog" where
  "gv_version e = bindM (gv_run e [''dot'', ''-V''] None None True (Some ''ascii'') False True) (\<lambda>out.
     case find_version out of None \<Rightarrow> raiseM RuntimeError | Some v \<Rightarrow> retM v)"

text \<open>\<open>view\<close>: the program that opens a file, by platform; \<open>windows\<close> starts the file itself.\<close>

definition gv_view :: "gv_env \<Rightarrow> string \<Rightarrow> (gv_state, unit) prog" where
  "gv_view e filepath =
     (let opened = (\<lambda>cmd. bindM (getM gs_files) (\<lambda>files. seqM (modM (\<lambda>s. s\<lparr>gs_viewers := gs_viewers s @ [cmd]\<rparr>))
          (case ge_exec e files cmd None None False of NoSuchProgram \<Rightarrow> raiseM FileNotFoundError | CannotStart \<Rightarrow> raiseM OSError | _ \<Rightarrow> retM ()))) in
      if ge_platform e = ''darwin'' then opened [''open'', filepath]
      else if ge_platform e \<in> {''linux'', ''freebsd''} then opened [''xdg-open'', filepath]
      else if ge_platform e = ''windows'' then opened [ge_normpath e filepath]
      else raiseM RuntimeError)"

section \<open>File objects\<close>

text \<open>The attributes of the instance; \<open>None\<close> when it has the default of the class.\<close>

record gv_file =
  gf_filename :: string
  gf_directory :: "string option"
  gf_format :: "string option"
  gf_engine :: "string option"
  gf_encoding :: "string option"

definition file_engine :: "gv_file \<Rightarrow> string" where
  "file_engine f = (case gf_engine f of None \<Rightarrow> ''dot'' | Some x \<Rightarrow> x)"

definition file_format :: "gv_file \<Rightarrow> string" where
  "file_format f = (case gf_format f of None \<Rightarrow> ''pdf'' | Some x \<Rightarrow> x)"

definition file_encoding :: "gv_file \<Rightarrow> string" where
  "file_encoding f = (case gf_encoding f of None \<Rightarrow> UTF8 | Some x \<Rightarrow> x)"

definition file_directory :: "gv_file \<Rightarrow> string" where
  "file_directory f = (case gf_directory f of None \<Rightarrow> [] | Some x \<Rightarrow> x)"

text \<open>The setters.\<close>

definition set_engine :: "string \<Rightarrow> gv_file \<Rightarrow> exc + gv_file" where
  "set_engine x f = (let x' = lower x in if x' \<notin> set engines then Inl ValueError else Inr (f\<lparr>gf_engine := Some x'\<rparr>))"

definition set_format :: "string \<Rightarrow> gv_file \<Rightarrow> exc + gv_file" where
  "set_format x f = (let x' = lower x in if x' \<notin> set formats then Inl ValueError else Inr (f\<lparr>gf_format := Some x'\<rparr>))"

definition set_encoding :: "gv_env \<Rightarrow> string option \<Rightarrow> gv_file \<Rightarrow> exc + gv_file" where
  "set_encoding e x f = (let x' = (case x of None \<Rightarrow> ge_preferred e | Some y \<Rightarrow> y)
     in if ge_codec e x' then Inr (f\<lparr>gf_encoding := Some x'\<rparr>) else Inl LookupError)"

definition if_given :: "('x \<Rightarrow> 'f \<Rightarrow> exc + 'f) \<Rightarrow> 'x option \<Rightarrow> 'f \<Rightarrow> exc + 'f" where
  "if_given set' x f = (case x of None \<Rightarrow> Inr f | Some y \<Rightarrow> set' y f)"

definition thenE :: "exc + 'a \<Rightarrow> ('a \<Rightarrow> exc + 'b) \<Rightarrow> exc + 'b" where
  "thenE r k = (case r of Inl e \<Rightarrow> Inl e | Inr x \<Rightarrow> k x)"

text \<open>\<open>__init__\<close>; \<open>default_name\<close> is the object's \<open>name\<close>, or the name of its class when that is missing or empty.\<close>

definition file_init :: "gv_env \<Rightarrow> string \<Rightarrow> string option \<Rightarrow> string option \<Rightarrow> string option \<Rightarrow> string option \<Rightarrow> string option \<Rightarrow> exc + gv_file" where
  "file_init e default_name filename directory fmt engine encoding =
     (let f0 = \<lparr>gf_filename = (case filename of None \<Rightarrow> default_name @ ''.gv'' | Some x \<Rightarrow> x), gf_directory = directory,
        gf_format = None, gf_engine = None, gf_encoding = None\<rparr>
      in thenE (if_given set_format fmt f0) (\<lambda>f1. thenE (if_given set_engine engine f1) (set_encoding e encoding)))"

text \<open>\<open>copy\<close>: \<open>_kwargs\<close> has the attributes of the instance, and the constructor's default encoding fills in a missing one.\<close>

definition file_copy :: "gv_env \<Rightarrow> string \<Rightarrow> gv_file \<Rightarrow> exc + gv_file" where
  "file_copy e default_name f = file_init e default_name (Some (gf_filename f)) (gf_directory f) (gf_format f) (gf_engine f)
     (Some (case gf_encoding f of None \<Rightarrow> UTF8 | Some x \<Rightarrow> x))"

definition filepath :: "gv_file \<Rightarrow> string" where
  "filepath f = path_join (file_directory f) (gf_filename f)"

definition mkdirs :: "gv_env \<Rightarrow> string \<Rightarrow> (gv_state, unit) prog" where
  "mkdirs e p = (let dirname = fst (path_split p) in whenM (dirname \<noteq> [])
     (case ge_mkdirs e dirname of Some x \<Rightarrow> raiseM x
      | None \<Rightarrow> modM (\<lambda>s. s\<lparr>gs_dirs := (if dirname \<in> set (gs_dirs s) then gs_dirs s else gs_dirs s @ [dirname])\<rparr>)))"

definition moved :: "string option \<Rightarrow> string option \<Rightarrow> gv_file \<Rightarrow> gv_file" where
  "moved filename directory f = f\<lparr>gf_filename := (case filename of None \<Rightarrow> gf_filename f | Some x \<Rightarrow> x),
     gf_directory := (case directory of None \<Rightarrow> gf_directory f | Some x \<Rightarrow> Some x)\<rparr>"

text \<open>
  \<open>save\<close>, with the source as the property gives it: the file is emptied first, then the source and a missing newline
  are written. A file that is open as text has the ends of lines of the platform.
\<close>

definition os_newlines :: "gv_env \<Rightarrow> string \<Rightarrow> string" where
  "os_newlines e t = (if ge_platform e = ''windows''
     then concat (map (\<lambda>c. if c = NL then [CHR 0x0D, NL] else [c]) t) else t)"

definition write_text :: "gv_env \<Rightarrow> string \<Rightarrow> string \<Rightarrow> string \<Rightarrow> (gv_state, unit) prog" where
  "write_text e enc p t = bindM (ofE (ge_encode e enc (os_newlines e t)))
     (\<lambda>b. modM (\<lambda>s. s\<lparr>gs_files := dict_set p b (gs_files s)\<rparr>))"

definition ends_line :: "string \<Rightarrow> bool" where
  "ends_line t = (t \<noteq> [] \<and> last t = NL)"

definition file_save :: "gv_env \<Rightarrow> exc + string \<Rightarrow> string option \<Rightarrow> string option \<Rightarrow> gv_file \<Rightarrow> (gv_state, gv_file \<times> string) prog" where
  "file_save e source filename directory f0 = (let f = moved filename directory f0; p = filepath f in
     seqM (mkdirs e p)
     (bindM (ofE source) (\<lambda>t.
      case ge_open e p of Some x \<Rightarrow> raiseM x
      | None \<Rightarrow> seqM (modM (\<lambda>s. s\<lparr>gs_files := dict_set p [] (gs_files s)\<rparr>))
          (seqM (write_text e (file_encoding f) p t)
          (seqM (whenM (\<not> ends_line t) (write_text e (file_encoding f) p (t @ [NL])))
            (retM (f, p)))))))"

definition remove_file :: "string \<Rightarrow> (gv_state, unit) prog" where
  "remove_file p = bindM (getM gs_files) (\<lambda>d.
     if has_key p d then modM (\<lambda>s. s\<lparr>gs_files := dict_del p (gs_files s)\<rparr>) else raiseM FileNotFoundError)"

record render_options =
  ro_view :: bool
  ro_cleanup :: bool
  ro_format :: "string option"
  ro_renderer :: "string option"
  ro_formatter :: "string option"
  ro_quiet :: bool
  ro_quiet_view :: bool

definition file_render :: "gv_env \<Rightarrow> exc + string \<Rightarrow> string option \<Rightarrow> string option \<Rightarrow> render_options \<Rightarrow> gv_file \<Rightarrow> (gv_state, gv_file \<times> string) prog" where
  "file_render e source filename directory opt f0 =
     bindM (file_save e source filename directory f0) (\<lambda>(f, p).
     bindM (gv_render e (file_engine f) (case ro_format opt of None \<Rightarrow> file_format f | Some x \<Rightarrow> x) p (ro_renderer opt) (ro_formatter opt) (ro_quiet opt)) (\<lambda>rendered.
     seqM (whenM (ro_cleanup opt) (remove_file p))
     (seqM (whenM (ro_quiet_view opt \<or> ro_view opt) (gv_view e rendered))
       (retM (f, rendered)))))"

definition file_view :: "gv_env \<Rightarrow> exc + string \<Rightarrow> string option \<Rightarrow> string option \<Rightarrow> bool \<Rightarrow> bool \<Rightarrow> bool \<Rightarrow> gv_file \<Rightarrow> (gv_state, gv_file \<times> string) prog" where
  "file_view e source filename directory cleanup quiet quiet_view = file_render e source filename directory
     \<lparr>ro_view = True, ro_cleanup = cleanup, ro_format = None, ro_renderer = None, ro_formatter = None, ro_quiet = quiet, ro_quiet_view = quiet_view\<rparr>"

definition file_pipe :: "gv_env \<Rightarrow> exc + string \<Rightarrow> string option \<Rightarrow> string option \<Rightarrow> string option \<Rightarrow> bool \<Rightarrow> gv_file \<Rightarrow> (gv_state, string) prog" where
  "file_pipe e source fmt renderer formatter quiet f = (let fmt' = (case fmt of None \<Rightarrow> file_format f | Some x \<Rightarrow> x) in
     bindM (ofE source) (\<lambda>text'. bindM (ofE (ge_encode e (file_encoding f) text')) (\<lambda>data.
       gv_pipe e (file_engine f) fmt' data renderer formatter quiet)))"

section \<open>\<open>Source\<close>\<close>

text \<open>A verbatim source with its file.\<close>

definition source_init :: "gv_env \<Rightarrow> string \<Rightarrow> string option \<Rightarrow> string option \<Rightarrow> string option \<Rightarrow> string option \<Rightarrow> string option \<Rightarrow> exc + (gv_file \<times> string)" where
  "source_init e source filename directory fmt engine encoding =
     map_sum id (\<lambda>f. (f, source)) (file_init e ''Source'' filename directory fmt engine encoding)"

text \<open>Reading a file as text turns the ends of lines into newlines.\<close>

fun universal_newlines :: "string \<Rightarrow> string" where
  "universal_newlines [] = []"
| "universal_newlines (c # s) = (if c = CHR 0x0D
     then CHR 0x0A # (case s of [] \<Rightarrow> [] | d # r \<Rightarrow> universal_newlines (if d = CHR 0x0A then r else d # r))
     else c # universal_newlines s)"

definition from_file :: "gv_env \<Rightarrow> string \<Rightarrow> string option \<Rightarrow> string option \<Rightarrow> string option \<Rightarrow> string option \<Rightarrow> (gv_state, gv_file \<times> string) prog" where
  "from_file e filename directory fmt engine encoding =
     (let p = path_join (case_option [] id directory) filename; enc = (case encoding of None \<Rightarrow> ge_preferred e | Some x \<Rightarrow> x) in
      bindM (getM gs_files) (\<lambda>d. case map_of d p of None \<Rightarrow> raiseM FileNotFoundError
       | Some b \<Rightarrow> if \<not> ge_codec e enc then raiseM LookupError else bindM (ofE (ge_decode e enc b)) (\<lambda>t.
           ofE (source_init e (universal_newlines t) (Some filename) directory fmt engine (Some enc)))))"

text \<open>\<open>unflatten\<close>: a new source from the old one.\<close>

definition file_unflatten :: "gv_env \<Rightarrow> exc + string \<Rightarrow> int option \<Rightarrow> bool \<Rightarrow> int option \<Rightarrow> gv_file \<Rightarrow> (gv_state, gv_file \<times> string) prog" where
  "file_unflatten e source stagger fanout chain f = bindM (ofE source) (\<lambda>text'.
     bindM (gv_unflatten e text' stagger fanout chain (file_encoding f)) (\<lambda>out.
       ofE (source_init e out (Some (gf_filename f)) (Some (file_directory f)) (Some (file_format f)) (Some (file_engine f))
         (Some (file_encoding f)))))"

section \<open>Graphs as files\<close>

text \<open>The constructor of \<open>Dot\<close>, \<open>copy\<close>, and the context manager of \<open>subgraph\<close>: a blank graph of the same kind takes the
  statements, and is added when the block ends without an exception.\<close>

definition dot_init :: "gv_env \<Rightarrow> dot \<Rightarrow> string option \<Rightarrow> string option \<Rightarrow> string option \<Rightarrow> string option \<Rightarrow> string option \<Rightarrow> exc + (gv_file \<times> dot)" where
  "dot_init e d filename directory fmt engine encoding =
     map_sum id (\<lambda>f. (f, d))
       (file_init e (if d_name d \<noteq> [] then d_name d else if d_directed d then ''Digraph'' else ''Graph'') filename directory fmt engine encoding)"

definition dot_copy :: "gv_env \<Rightarrow> gv_file \<times> dot \<Rightarrow> exc + (gv_file \<times> dot)" where
  "dot_copy e fd = dot_init e (snd fd) (Some (gf_filename (fst fd))) (gf_directory (fst fd)) (gf_format (fst fd)) (gf_engine (fst fd))
     (Some (case gf_encoding (fst fd) of None \<Rightarrow> UTF8 | Some x \<Rightarrow> x))"

definition subgraph_block :: "gv_env \<Rightarrow> dot \<Rightarrow> (dot \<Rightarrow> exc + dot) \<Rightarrow> gv_file \<times> dot \<Rightarrow> exc + (gv_file \<times> dot)" where
  "subgraph_block e blank_graph body parent = (let f = fst parent in
     thenE (dot_init e (blank_graph\<lparr>d_strict := False, d_directed := d_directed (snd parent)\<rparr>) None (Some (file_directory f))
         (Some (file_format f)) (Some (file_engine f)) (Some (file_encoding f)))
       (\<lambda>(_, g). thenE (body g) (\<lambda>g'. map_sum id (\<lambda>d. (f, d)) (dot_subgraph g' (snd parent)))))"

end
