(* ===== verification/FilesSpec.thy ===== *)
theory FilesSpec
  imports Files
begin

text \<open>
  What holds of file objects: every object that the constructor and the setters make has an engine and a format that the
  layout program has; what is saved is read back; rendering runs the program on the saved source.
\<close>

section \<open>Well-typed objects\<close>

text \<open>The objects a program can hold: built by the constructor, then changed through the setters, by \<open>save\<close> or
  \<open>render\<close> (new names), or copied.\<close>

inductive file_reached :: "gv_env \<Rightarrow> gv_file \<Rightarrow> bool" for e where
  built: "file_init e n filename directory fmt engine encoding = Inr f \<Longrightarrow> file_reached e f"
| engine_set: "file_reached e f \<Longrightarrow> set_engine x f = Inr f' \<Longrightarrow> file_reached e f'"
| format_set: "file_reached e f \<Longrightarrow> set_format x f = Inr f' \<Longrightarrow> file_reached e f'"
| encoding_set: "file_reached e f \<Longrightarrow> set_encoding e y f = Inr f' \<Longrightarrow> file_reached e f'"
| saved: "file_reached e f \<Longrightarrow> file_reached e (moved filename directory f)"
| copied: "file_reached e f \<Longrightarrow> file_copy e n f = Inr f' \<Longrightarrow> file_reached e f'"

definition known :: "string list \<Rightarrow> string option \<Rightarrow> bool" where
  "known xs v = (case v of None \<Rightarrow> True | Some x \<Rightarrow> x \<in> set xs)"

definition file_ok :: "gv_env \<Rightarrow> gv_file \<Rightarrow> bool" where
  "file_ok e f = (known engines (gf_engine f) \<and> known formats (gf_format f)
     \<and> (\<exists>x. gf_encoding f = Some x \<and> ge_codec e x))"

named_theorems file_ops

lemmas [file_ops] = set_engine_def set_format_def set_encoding_def if_given_def thenE_def known_def file_ok_def

lemma set_engine_ok: "file_ok e f \<Longrightarrow> set_engine x f = Inr f' \<Longrightarrow> file_ok e f'"
  by (auto simp: file_ops Let_def split: if_splits)

lemma set_format_ok: "file_ok e f \<Longrightarrow> set_format x f = Inr f' \<Longrightarrow> file_ok e f'"
  by (auto simp: file_ops Let_def split: if_splits)

lemma set_encoding_ok: "known engines (gf_engine f) \<Longrightarrow> known formats (gf_format f) \<Longrightarrow> set_encoding e y f = Inr f' \<Longrightarrow> file_ok e f'"
  by (auto simp: set_encoding_def file_ok_def Let_def split: if_splits)

lemma file_init_ok: "file_init e n filename directory fmt engine encoding = Inr f \<Longrightarrow> file_ok e f"
  by (auto simp: file_init_def file_ops Let_def split: if_splits option.splits sum.splits)

lemma file_reached_ok: "file_reached e f \<Longrightarrow> file_ok e f"
proof (induction rule: file_reached.induct)
  case built
  then show ?case by (rule file_init_ok)
next
  case engine_set
  then show ?case by (blast intro: set_engine_ok)
next
  case format_set
  then show ?case by (blast intro: set_format_ok)
next
  case (encoding_set f y f')
  then have "known engines (gf_engine f)" "known formats (gf_format f)" by (simp_all add: file_ok_def)
  from set_encoding_ok [OF this encoding_set(2)] show ?case .
next
  case saved
  then show ?case by (simp add: file_ok_def moved_def)
next
  case copied
  then show ?case unfolding file_copy_def by (blast intro: file_init_ok)
qed

lemma lower_known: "x \<in> set engines \<Longrightarrow> lower x = x" "x \<in> set formats \<Longrightarrow> lower x = x"
  by (simp add: engines_def; elim disjE; simp add: lower_def; fail)
     (simp add: formats_def; elim disjE; simp add: lower_def; fail)

lemma file_ok_engine: "file_ok e f \<Longrightarrow> file_engine f \<in> set engines"
  by (auto simp: file_ok_def known_def file_engine_def engines_def split: option.splits)

lemma file_ok_format: "file_ok e f \<Longrightarrow> file_format f \<in> set formats"
  by (auto simp: file_ok_def known_def file_format_def formats_def split: option.splits)

lemma build_again:
  assumes "file_ok e f"
  shows "file_init e n (Some (gf_filename f)) (gf_directory f) (gf_format f) (gf_engine f) (gf_encoding f) = Inr f"
proof -
  from assms obtain x where x: "gf_encoding f = Some x" "ge_codec e x" by (auto simp: file_ok_def)
  have "if_given set_format (gf_format f) g = Inr (g\<lparr>gf_format := gf_format f\<rparr>)" if "gf_format g = None" for g
    using assms that by (cases "gf_format f") (auto simp: file_ops lower_known)
  moreover have "if_given set_engine (gf_engine f) g = Inr (g\<lparr>gf_engine := gf_engine f\<rparr>)" if "gf_engine g = None" for g
    using assms that by (cases "gf_engine f") (auto simp: file_ops lower_known)
  ultimately show ?thesis using x by (simp add: file_init_def thenE_def set_encoding_def)
qed

text \<open>C36: type safety of file objects. Whatever way a program has built and changed a file object, its engine and its
  format are ones that Graphviz has, so the command line for it is made without an error, with and without a file; and
  \<open>copy\<close> of it succeeds and gives an equal object.\<close>

theorem file_objects_are_well_typed:
  assumes "file_reached e f"
  shows "file_engine f \<in> set engines \<and> file_format f \<in> set formats
    \<and> (\<forall>p. \<exists>args out. gv_command (file_engine f) (file_format f) p None None = Inr (args, out) \<and> (out = None \<longleftrightarrow> p = None))
    \<and> file_copy e n f = Inr f"
proof -
  note ok = file_reached_ok [OF assms]
  note ty = file_ok_engine [OF ok] file_ok_format [OF ok]
  have "\<exists>args out. gv_command (file_engine f) (file_format f) p None None = Inr (args, out) \<and> (out = None \<longleftrightarrow> p = None)" for p
    using ty by (cases p) (simp_all add: gv_command_def unknown_in_def Let_def)
  moreover have "file_copy e n f = Inr f"
    using ok build_again [OF ok] by (auto simp: file_copy_def file_ok_def)
  ultimately show ?thesis using ty by blast
qed

definition unix_env :: gv_env where
  "unix_env = \<lparr>ge_platform = ''linux'', ge_preferred = UTF8, ge_codec = (\<lambda>x. x = UTF8), ge_encode = (\<lambda>_. Inr), ge_decode = (\<lambda>_. Inr),
     ge_open = (\<lambda>_. None), ge_mkdirs = (\<lambda>_. None),
     ge_exec = (\<lambda>files cmd cwd input joined. Ran 0 ''dot - graphviz version 2.43.0 (0)'' [] [(''out/tree.gv.svg'', ''picture'')]),
     ge_stderr_encoding = UTF8, ge_normpath = id\<rparr>"

definition tree_file :: gv_file where
  "tree_file = \<lparr>gf_filename = ''tree.gv'', gf_directory = Some ''out'', gf_format = Some ''svg'', gf_engine = None, gf_encoding = Some UTF8\<rparr>"

lemma lower_samples: "lower ''SVG'' = ''svg''" "lower ''SVGX'' = ''svgx''"
  by code_simp+

lemma tree_file_reached: "file_reached unix_env tree_file"
proof -
  have "file_init unix_env ''tree'' None (Some ''out'') (Some ''SVG'') None (Some UTF8) = Inr tree_file"
    by (simp add: file_init_def unix_env_def tree_file_def file_ops Let_def lower_samples formats_def)
  then show ?thesis by (rule built)
qed

theorem file_objects_are_well_typed_witness:
  "file_copy unix_env ''Graph'' tree_file = Inr tree_file \<and> file_format tree_file = ''svg''
    \<and> set_format ''SVGX'' tree_file = Inl ValueError"
  using file_objects_are_well_typed [OF tree_file_reached, of "''Graph''"]
  by (simp add: tree_file_def file_format_def set_format_def Let_def lower_samples formats_def)

section \<open>Saving and reading back\<close>

lemma universal_newlines_os: "CHR 0x0D \<notin> set t \<Longrightarrow> universal_newlines (os_newlines e t) = t"
proof (induction t)
  case (Cons c t)
  then show ?case by (auto simp: os_newlines_def split: if_splits)
qed (simp add: os_newlines_def)

lemma dict_set_again [simp]: "dict_set k v (dict_set k u d) = dict_set k v d"
  by (induction d) auto

definition with_newline :: "string \<Rightarrow> string" where
  "with_newline t = (if ends_line t then t else t @ [NL])"

definition saved_files :: "string \<Rightarrow> string \<Rightarrow> gv_state \<Rightarrow> gv_state" where
  "saved_files p b s = s\<lparr>gs_files := dict_set p b (gs_files s), gs_dirs := (let d = fst (path_split p) in
     if d = [] \<or> d \<in> set (gs_dirs s) then gs_dirs s else gs_dirs s @ [d])\<rparr>"

lemma save_runs:
  assumes "\<And>d. ge_mkdirs e d = None" and "\<And>p. ge_open e p = None"
    and f: "f' = moved filename directory f" and "p = filepath f'"
    and b1: "ge_encode e (file_encoding f') (os_newlines e src) = Inr b1"
    and "ge_encode e (file_encoding f') (os_newlines e (with_newline src)) = Inr b"
  shows "file_save e (Inr src) filename directory f s = Some (Inr (f', p), saved_files p b s)"
proof -
  have "mkdirs e p s = Some (Inr (), s\<lparr>gs_dirs := gs_dirs (saved_files p b s)\<rparr>)"
    using assms(1) by (simp add: mkdirs_def saved_files_def run_simps Let_def whenM_def)
  with assms b1 show ?thesis
    by (simp add: file_save_def f [symmetric] run_simps seqM_def bindM_def ofE_def write_text_def with_newline_def saved_files_def
      whenM_def Let_def split: if_splits)
qed


lemma file_ok_moved: "file_ok e f \<Longrightarrow> file_ok e (moved filename directory f)"
  by (simp add: file_ok_def moved_def)

lemma file_ok_encoding: "file_ok e f \<Longrightarrow> gf_encoding f = Some (file_encoding f) \<and> ge_codec e (file_encoding f)"
  by (auto simp: file_ok_def file_encoding_def)

lemma no_return: "CHR 0x0D \<notin> set (universal_newlines t)"
  by (induction t rule: universal_newlines.induct) (auto split: list.splits)

lemma newline_no_return: "CHR 0x0D \<notin> set t \<Longrightarrow> CHR 0x0D \<notin> set (with_newline t)"
  by (simp add: with_newline_def)

text \<open>C38: round trip through the file. A source that is saved and loaded again with the attributes
  of the object (\<open>Source.from_file\<close>) comes back in an equal object, with the newline that \<open>save\<close> adds when it is missing and its line ends
  as \<open>open\<close> reads them: every \<open>CR\<close> and \<open>CR LF\<close> is a newline. So a source without a carriage return is unchanged but for the newline,
  with the line ends of Windows too, and one with a carriage return is not. The encoding has to encode the text and decode what it
  encoded, and the file system has to let the file be written.\<close>

theorem saved_source_reads_back:
  assumes f: "file_reached e f" "f' = moved filename directory f" "p = filepath f'"
    and writable: "\<And>d. ge_mkdirs e d = None" "\<And>q. ge_open e q = None"
    and line: "line = (if ends_line src then src else src @ [NL])"
    and codec: "ge_encode e (file_encoding f) (os_newlines e src) = Inr b1" "ge_encode e (file_encoding f) (os_newlines e line) = Inr b"
      "ge_decode e (file_encoding f) b = Inr (os_newlines e line)"
  shows "\<exists>t. file_save e (Inr src) filename directory f s = Some (Inr (f', p), t)
    \<and> from_file e (gf_filename f') (gf_directory f') (gf_format f') (gf_engine f') (gf_encoding f') t
      = Some (Inr (f', universal_newlines (os_newlines e line)), t)
    \<and> (CHR 0x0D \<notin> set src \<longrightarrow> universal_newlines (os_newlines e line) = line)
    \<and> (CHR 0x0D \<in> set src \<longrightarrow> universal_newlines (os_newlines e line) \<noteq> line)"
proof -
  have ok: "file_ok e f'" and enc: "file_encoding f' = file_encoding f"
    using file_ok_moved [OF file_reached_ok [OF f(1)]] f(2) by (simp_all add: moved_def file_encoding_def)
  have line': "line = with_newline src" by (simp add: line with_newline_def)
  have save: "file_save e (Inr src) filename directory f s = Some (Inr (f', p), saved_files p b s)"
    by (rule save_runs [OF writable f(2,3), of src b1]) (use codec enc line' in simp_all)
  have p: "path_join (case_option [] id (gf_directory f')) (gf_filename f') = p"
    by (simp add: f(3) filepath_def file_directory_def split: option.splits)
  have m: "map_of (gs_files (saved_files p b s)) p = Some b" by (simp add: saved_files_def)
  have "from_file e (gf_filename f') (gf_directory f') (gf_format f') (gf_engine f') (gf_encoding f') (saved_files p b s)
      = Some (Inr (f', universal_newlines (os_newlines e line)), saved_files p b s)"
    using file_ok_encoding [OF ok] build_again [OF ok, of "''Source''"] codec(3) enc m
    by (simp add: from_file_def p run_simps bindM_def ofE_def source_init_def Let_def)
  moreover have "CHR 0x0D \<notin> set src \<longrightarrow> universal_newlines (os_newlines e line) = line"
    using universal_newlines_os newline_no_return unfolding line' by blast
  moreover have "CHR 0x0D \<in> set src \<longrightarrow> universal_newlines (os_newlines e line) \<noteq> line"
    using no_return [of "os_newlines e line"] by (auto simp: line)
  ultimately show ?thesis using save by blast
qed

definition no_files :: gv_state where
  "no_files = \<lparr>gs_files = [], gs_dirs = [], gs_runs = [], gs_viewers = [], gs_stderr = []\<rparr>"

theorem saved_source_reads_back_witness:
  "\<exists>t. file_save unix_env (Inr ''graph {}'') (Some ''a.gv'') None tree_file no_files
       = Some (Inr (tree_file\<lparr>gf_filename := ''a.gv''\<rparr>, ''out/a.gv''), t)
    \<and> from_file unix_env ''a.gv'' (Some ''out'') (Some ''svg'') None (Some UTF8) t
       = Some (Inr (tree_file\<lparr>gf_filename := ''a.gv''\<rparr>, ''graph {}'' @ [NL]), t)"
proof -
  have w: "ge_mkdirs unix_env d = None" "ge_open unix_env q = None" for d q by (simp_all add: unix_env_def)
  have c: "ge_encode unix_env enc t = Inr t" "ge_decode unix_env enc t = Inr t" for enc t by (simp_all add: unix_env_def)
  have "CHR 0x0D \<notin> set (''graph {}'')" by simp
  with saved_source_reads_back [OF tree_file_reached refl refl w refl c(1) c(1) c(2), where src = "''graph {}''" and filename = "Some ''a.gv''" and directory = None and s = no_files]
  show ?thesis
    by (simp add: tree_file_def moved_def filepath_def path_join_def file_directory_def ends_line_def) (elim exE conjE, simp only:, blast)
qed

section \<open>Rendering\<close>

lemma path_split_file: "CHR ''/'' \<notin> set n \<Longrightarrow> path_split n = ([], n)"
proof -
  assume "CHR ''/'' \<notin> set n"
  then have "\<forall>c \<in> set (rev n). not_slash c" by (auto simp: not_slash_def)
  then show ?thesis by (simp add: path_split_def Let_def takeWhile_eq_all_conv [THEN iffD2] dropWhile_eq_Nil_conv [THEN iffD2])
qed

lemma path_split_in:
  assumes "CHR ''/'' \<notin> set n" and "d \<noteq> []" and "last d \<noteq> CHR ''/''"
  shows "path_split (d @ CHR ''/'' # n) = (d, n)"
proof -
  from assms(1) have "\<forall>c \<in> set (rev n). not_slash c" by (auto simp: not_slash_def)
  then have tw: "takeWhile not_slash (rev (d @ CHR ''/'' # n)) = rev n" "dropWhile not_slash (rev (d @ CHR ''/'' # n)) = CHR ''/'' # rev d"
    by (simp_all add: takeWhile_append dropWhile_append takeWhile_eq_all_conv [THEN iffD2] dropWhile_eq_Nil_conv [THEN iffD2] not_slash_def)
  obtain c d' where d: "rev d = c # d'" "c \<noteq> CHR ''/''"
    using assms(2,3) by (cases d rule: rev_cases) auto
  then have "\<not> list_all (\<lambda>c. c = CHR ''/'') d" using assms(2,3) by (auto simp: list_all_iff)
  with d show ?thesis unfolding path_split_def tw Let_def by simp
qed


lemma filepath_parts:
  assumes "CHR ''/'' \<notin> set (gf_filename f)" and "file_directory f = [] \<or> last (file_directory f) \<noteq> CHR ''/''"
  shows "path_split (filepath f) = (file_directory f, gf_filename f)"
    and "file_directory f \<noteq> [] \<Longrightarrow> path_join (file_directory f) (gf_filename f @ CHR ''.'' # x) = filepath f @ CHR ''.'' # x"
    and "file_directory f = [] \<Longrightarrow> filepath f = gf_filename f"
proof -
  have n: "take 1 (gf_filename f) \<noteq> ''/''" using assms(1) by (cases "gf_filename f") auto
  show "path_split (filepath f) = (file_directory f, gf_filename f)"
    using assms n by (auto simp: filepath_def path_join_def path_split_file path_split_in)
  show "file_directory f = [] \<Longrightarrow> filepath f = gf_filename f" using n by (simp add: filepath_def path_join_def)
  show "path_join (file_directory f) (gf_filename f @ CHR ''.'' # x) = filepath f @ CHR ''.'' # x" if "file_directory f \<noteq> []"
    using assms n that by (cases "gf_filename f") (auto simp: filepath_def path_join_def)
qed

definition plain_options :: "bool \<Rightarrow> render_options" where
  "plain_options quiet = \<lparr>ro_view = False, ro_cleanup = False, ro_format = None, ro_renderer = None, ro_formatter = None,
     ro_quiet = quiet, ro_quiet_view = False\<rparr>"

definition layout_args :: "gv_file \<Rightarrow> string list" where
  "layout_args f = [''dot'', ''-K'' @ file_engine f, ''-T'' @ file_format f, ''-O'', gf_filename f]"

lemma plain_command: "file_ok e f \<Longrightarrow> gv_command (file_engine f) (file_format f) (Some (gf_filename f)) None None
    = Inr (layout_args f, Some (gf_filename f @ ''.'' @ file_format f))"
  using file_ok_engine [of e f] file_ok_format [of e f]
  by (simp add: gv_command_def unknown_in_def given_def layout_args_def Let_def)

lemma run_without_input:
  assumes "ge_exec e (gs_files s) cmd cwd None False = Ran code out [] written"
  shows "gv_run e cmd cwd None True None quiet False s
    = Some (if code = 0 then Inr out else Inl (CalledProcessError code),
        s\<lparr>gs_runs := gs_runs s @ [(cmd, cwd, None)], gs_files := dict_update (gs_files s) written\<rparr>)"
  using assms
  by (simp add: gv_run_def encode_input_def decode_outputs_def show_errors_def whenM_def bindM_def seqM_def ofE_def run_simps)

text \<open>C37: rendering. \<open>render\<close> saves the source and runs the engine of the object, for its format, in the directory of the
  file, on the file's name, when the file holds the whole source. When the program ends with 0, the path of the result is
  the path of the source with the format behind it, which is where \<open>-O\<close> puts the picture; otherwise the call raises
  \<open>CalledProcessError\<close>, and the source stays saved.\<close>

theorem render_runs_on_the_saved_source:
  assumes f: "file_reached e f" "CHR ''/'' \<notin> set (gf_filename f)" "file_directory f = [] \<or> last (file_directory f) \<noteq> CHR ''/''"
    and writable: "\<And>d. ge_mkdirs e d = None" "\<And>q. ge_open e q = None"
    and codec: "\<And>t. \<exists>b. ge_encode e (file_encoding f) t = Inr b"
      "ge_encode e (file_encoding f) (os_newlines e (if ends_line src then src else src @ [NL])) = Inr b"
    and t: "t = saved_files (filepath f) b s"
    and cwd: "cwd = (if file_directory f = [] then None else Some (file_directory f))"
    and ran: "ge_exec e (gs_files t) (layout_args f) cwd None False = Ran code out [] written"
  shows "map_of (gs_files t) (filepath f) = Some b
    \<and> file_render e (Inr src) None None (plain_options quiet) f s
      = Some (if code = 0 then Inr (f, filepath f @ ''.'' @ file_format f) else Inl (CalledProcessError code),
          t\<lparr>gs_runs := gs_runs s @ [(layout_args f, cwd, None)], gs_files := dict_update (gs_files t) written\<rparr>)"
proof -
  note ok = file_reached_ok [OF f(1)]
  obtain b1 where "ge_encode e (file_encoding f) (os_newlines e src) = Inr b1" using codec(1) by blast
  then have save: "file_save e (Inr src) None None f s = Some (Inr (f, filepath f), t)"
    unfolding t using save_runs [OF writable _ refl, of f None None f] codec
    by (simp add: moved_def with_newline_def)
  have "gs_runs t = gs_runs s" by (simp add: t saved_files_def)
  then have "gv_render e (file_engine f) (file_format f) (filepath f) None None quiet t
      = Some (if code = 0 then Inr (filepath f @ ''.'' @ file_format f) else Inl (CalledProcessError code),
          t\<lparr>gs_runs := gs_runs s @ [(layout_args f, cwd, None)], gs_files := dict_update (gs_files t) written\<rparr>)"
    using ran cwd filepath_parts [OF f(2,3)] run_without_input [OF ran, of quiet]
    by (auto simp: gv_render_def plain_command [OF ok] Let_def bindM_def ofE_def run_simps)
  then have "file_render e (Inr src) None None (plain_options quiet) f s
      = Some (if code = 0 then Inr (f, filepath f @ ''.'' @ file_format f) else Inl (CalledProcessError code),
          t\<lparr>gs_runs := gs_runs s @ [(layout_args f, cwd, None)], gs_files := dict_update (gs_files t) written\<rparr>)"
    using save by (simp add: file_render_def plain_options_def bindM_def whenM_def seqM_def run_simps)
  moreover have "map_of (gs_files t) (filepath f) = Some b" by (simp add: t saved_files_def)
  ultimately show ?thesis by blast
qed

theorem render_runs_on_the_saved_source_witness:
  "file_render unix_env (Inr ''graph {}'') None None (plain_options True) tree_file no_files
    = Some (Inr (tree_file, ''out/tree.gv.svg''),
       \<lparr>gs_files = [(''out/tree.gv'', ''graph {}'' @ [NL]), (''out/tree.gv.svg'', ''picture'')], gs_dirs = [''out''],
        gs_runs = [([''dot'', ''-Kdot'', ''-Tsvg'', ''-O'', ''tree.gv''], Some ''out'', None)], gs_viewers = [], gs_stderr = []\<rparr>)"
  using render_runs_on_the_saved_source [OF tree_file_reached, where src = "''graph {}''" and s = no_files and quiet = True
    and b = "''graph {}'' @ [NL]" and code = 0 and written = "[(''out/tree.gv.svg'', ''picture'')]", OF _ _ _ _ _ _ refl refl]
  by (simp add: unix_env_def tree_file_def no_files_def saved_files_def filepath_def path_join_def file_directory_def file_format_def
    file_engine_def layout_args_def ends_line_def os_newlines_def path_split_def Let_def not_slash_def dict_update_def)

section \<open>The version\<close>

lemma number_at_show: "r = [] \<or> \<not> is_num_char (hd r) \<Longrightarrow> number_at (show_nat n @ r) = Some (n, r)"
proof -
  assume r: "r = [] \<or> \<not> is_num_char (hd r)"
  have "is_num_char c" if "c \<in> set (show_nat n)" for c
    using show_nat_digits [OF that] by (simp add: is_num_char_def)
  then have "\<forall>c \<in> set (show_nat n). is_num_char c" by blast
  moreover from r have "takeWhile is_num_char r = []" by (cases r) auto
  ultimately have "takeWhile is_num_char (show_nat n @ r) = show_nat n"
    by (simp add: takeWhile_append takeWhile_eq_all_conv [THEN iffD2])
  then show ?thesis by (simp add: number_at_def Let_def show_nat_nonempty)
qed

definition version_text :: "nat list \<Rightarrow> string \<Rightarrow> string" where
  "version_text ns rest = ''dot - graphviz version '' @ join ''.'' (map show_nat ns) @ '' '' @ rest"

lemma skip_to_version:
  assumes "take 1 s = ''g''"
  shows "find_version (''dot - '' @ s) = find_version s"
proof -
  from assms obtain r where s: "s = CHR ''g'' # r" by (cases s) auto
  show ?thesis by (simp add: s version_at_def Let_def)
qed

lemma dotted_simps:
  "r = [] \<or> \<not> is_num_char (hd r) \<Longrightarrow> dotted (''.'' @ show_nat n @ r) = Some (n, r)"
  "dotted ('' '' @ r) = None" "dev_mark ('' '' @ r) = None" "dev_mark (''.'' @ r) = None" "version_tail ns ('' '' @ r) = Some ns"
  by (simp_all add: dotted_def number_at_show dev_mark_def version_tail_def)

lemma find_version_text:
  assumes "length ns \<in> {2, 3, 4}"
  shows "find_version (version_text ns rest) = Some ns"
proof -
  let ?s = "''graphviz version '' @ join ''.'' (map show_nat ns) @ '' '' @ rest"
  have n: "\<not> is_num_char CHR ''.''" "\<not> is_num_char CHR '' ''" by (simp_all add: is_num_char_def)
  have "version_at ?s = Some ns"
  proof -
    from assms consider a b where "ns = [a, b]" | a b c where "ns = [a, b, c]" | a b c d where "ns = [a, b, c, d]"
      by (auto simp: length_Suc_conv numeral_eq_Suc)
    then show ?thesis
      by cases (simp_all add: version_at_def Let_def number_at_show n dotted_simps del: append_Cons)
  qed
  then have "find_version ?s = Some ns" by (cases ?s) auto
  then show ?thesis unfolding version_text_def using skip_to_version [of ?s] by simp
qed

lemma version_at_length: "version_at t = Some v \<Longrightarrow> length v \<in> {2, 3, 4}"
  by (auto simp: version_at_def version_tail_def Let_def split: if_splits option.splits prod.splits)

lemma find_version_length: "find_version t = Some v \<Longrightarrow> length v \<in> {2, 3, 4}"
  by (induction t) (auto dest: version_at_length split: option.splits)

lemma version_runs:
  assumes "ge_exec e (gs_files s) [''dot'', ''-V''] None None True = Ran code out err written" and "ge_decode e ''ascii'' out = Inr txt"
  shows "gv_version e s = Some (if code \<noteq> 0 then Inl (CalledProcessError code)
      else case find_version txt of None \<Rightarrow> Inl RuntimeError | Some v \<Rightarrow> Inr v,
    s\<lparr>gs_runs := gs_runs s @ [([''dot'', ''-V''], None, None)], gs_files := dict_update (gs_files s) written\<rparr>)"
  using assms by (simp add: gv_version_def gv_run_def encode_input_def decode_outputs_def whenM_def bindM_def seqM_def ofE_def
    run_simps split: option.splits)

text \<open>From the line that Graphviz prints, with two, three or four numbers, the numbers are read back
  as they were printed; a program that ends with another code than 0 raises \<open>CalledProcessError\<close>; and whatever text is
  searched, a version that is found has two to four numbers.\<close>

lemma printed_version_is_read:
  assumes "length ns \<in> {2, 3, 4}"
    and "ge_exec e (gs_files s) [''dot'', ''-V''] None None True = Ran code out err written"
    and "ge_decode e ''ascii'' out = Inr (version_text ns rest)"
  shows "(\<exists>t. gv_version e s = Some (if code = 0 then Inr ns else Inl (CalledProcessError code), t))
    \<and> (\<forall>txt v. find_version txt = Some v \<longrightarrow> length v \<in> {2, 3, 4})"
  using version_runs [OF assms(2,3)] find_version_text [OF assms(1)] find_version_length by simp

end
