(* ===== verification/Startup.thy ===== *)
theory Startup
  imports Files Plots Config Dummy
begin

text \<open>
  Starting the programs: configuration files (\<open>server/config/__init__.py\<close>), the arguments of the server and what it starts
  (\<open>server/smts.py\<close>, \<open>server/utils.py\<close>), submitting files, the command line client (\<open>server/client.py\<close>), the arguments
  of the dummy solver and the host file. Files that are read, modules that are run and failing system calls are parameters.
  What \<open>argparse\<close> makes of the command line is a record.
\<close>

section \<open>\<open>pathlib\<close>\<close>

text \<open>A path: whether it is absolute, and its parts. The special case of exactly two slashes in front is left out.\<close>

type_synonym ppath = "bool \<times> string list"

definition path_of :: "string \<Rightarrow> ppath" where
  "path_of s = (take 1 s = ''/'', filter (\<lambda>x. x \<noteq> [] \<and> x \<noteq> ''.'') (split_on CHR ''/'' s))"

definition path_text :: "ppath \<Rightarrow> string" where
  "path_text p = (if fst p then CHR ''/'' # join ''/'' (snd p) else if snd p = [] then ''.'' else join ''/'' (snd p))"

definition path_name :: "ppath \<Rightarrow> string" where
  "path_name p = (if snd p = [] then [] else last (snd p))"

definition path_parent :: "ppath \<Rightarrow> ppath" where
  "path_parent p = (fst p, butlast (snd p))"

definition path_div :: "ppath \<Rightarrow> string \<Rightarrow> ppath" where
  "path_div p s = (let q = path_of s in if fst q then q else (fst p, snd p @ snd q))"

text \<open>The last dot splits the name, unless it is the first or the last character.\<close>

definition name_split :: "string \<Rightarrow> string \<times> string" where
  "name_split n = (let ext = rev (takeWhile (\<lambda>c. c \<noteq> CHR ''.'') (rev n)); i = length n - length ext - 1 in
     if CHR ''.'' \<in> set n \<and> 0 < i \<and> ext \<noteq> [] then (take i n, drop i n) else (n, []))"

definition path_stem :: "ppath \<Rightarrow> string" where
  "path_stem p = fst (name_split (path_name p))"

definition path_suffix :: "ppath \<Rightarrow> string" where
  "path_suffix p = snd (name_split (path_name p))"

section \<open>Configuration files\<close>

text \<open>The value of a variable of a module; functions, modules and other objects are \<open>COther\<close>.\<close>

datatype cfgval = CNone | CBool bool | CInt int | CReal rat | CStr string | CList "cfgval list" | CDict "param dict" | COther nat

text \<open>The file that \<open>_import\<close> runs for a resolved path; it is run in its directory, which is left again.\<close>

definition module_file :: "ppath \<Rightarrow> string" where
  "module_file p = (if path_suffix p \<noteq> ''.py'' then path_text p @ ''.py'' else path_text p)"

record module_env =
  me_resolve :: "string \<Rightarrow> ppath"
  me_run :: "string \<Rightarrow> exc + cfgval dict"

definition under :: "ppath \<Rightarrow> string \<Rightarrow> string" where
  "under parent s = (if take 1 s = ''/'' then s else path_text (path_div parent s))"

definition under_item :: "ppath \<Rightarrow> cfgval \<Rightarrow> exc + cfgval" where
  "under_item parent v = (case v of CStr s \<Rightarrow> Inr (CStr (under parent s)) | _ \<Rightarrow> Inl AttributeError)"

definition put_global :: "string \<Rightarrow> cfgval \<Rightarrow> (cfgval dict, unit) prog" where
  "put_global name v = modM (dict_set name v)"

text \<open>One variable of the file: dictionaries update the old ones, relative paths are put under the file's directory.\<close>

definition extend_attr :: "ppath \<Rightarrow> string \<times> cfgval \<Rightarrow> (cfgval dict, unit) prog" where
  "extend_attr parent nv = (case nv of (name, v) \<Rightarrow> whenM (take 1 name \<noteq> ''_'')
     (case v of
        CDict d \<Rightarrow> bindM (getM (\<lambda>g. map_of g name)) (\<lambda>old. case old of
            None \<Rightarrow> raiseM KeyError
          | Some (CDict d0) \<Rightarrow> put_global name (CDict (dict_update d0 d))
          | Some _ \<Rightarrow> raiseM AttributeError)
      | _ \<Rightarrow> seqM (put_global name v) (whenM (ends_in name ''_path'') (case v of
            CStr s \<Rightarrow> put_global name (CStr (under parent s))
          | CList xs \<Rightarrow> bindM (ofE (mapE (under_item parent) xs)) (\<lambda>ys. put_global name (CList ys))
          | _ \<Rightarrow> retM ()))))"

definition config_extend :: "module_env \<Rightarrow> string \<Rightarrow> (cfgval dict, unit) prog" where
  "config_extend e path = (let p = me_resolve e path in
     bindM (ofE (me_run e (module_file p))) (\<lambda>attrs. forM (extend_attr (path_parent p)) (sort_key fst attrs)))"

text \<open>The argument \<open>-c\<close>: \<open>argparse\<close> turns errors of type and value into the end of the program.\<close>

definition config_argument :: "module_env \<Rightarrow> string list \<Rightarrow> (cfgval dict, unit) prog" where
  "config_argument e paths = forM (\<lambda>p. tryM (\<lambda>x. x \<in> {TypeError, ValueError}) (config_extend e p) (\<lambda>_. raiseM SystemExit)) paths"

text \<open>\<open>db\<close>: the connection is kept, and its tables start empty.\<close>

record database =
  db_open :: bool
  db_rows :: "string list list dict"

definition config_db :: "(string \<Rightarrow> exc option) \<Rightarrow> string option \<Rightarrow> string \<Rightarrow> (database, bool) prog" where
  "config_db connect path table_prefix = bindM (getM db_open) (\<lambda>opened. if opened then retM True
     else case path of None \<Rightarrow> retM False
       | Some p \<Rightarrow> (case connect p of Some x \<Rightarrow> raiseM x
           | None \<Rightarrow> seqM (modM (\<lambda>s. s\<lparr>db_open := True,
                 db_rows := dict_set (table_prefix @ ''SolvingHistory'') [] (dict_set (table_prefix @ ''ServerLog'') [] (db_rows s))\<rparr>))
               (retM True)))"

section \<open>Starting the server\<close>

record smts_args =
  a_list :: bool
  a_db_path :: "string option"
  a_file_paths :: "string option"
  a_gui :: bool
  a_print_filename :: bool
  a_print_runtime :: bool
  a_log_mode :: bool
  a_partition_timeout :: "rat option"
  a_node_timeout :: "rat option"
  a_partitioning :: bool
  a_lemma_sharing :: bool
  a_lemma_db :: bool
  a_lemma_resend :: bool
  a_opensmt :: "int option"
  a_z3spacer :: "int option"
  a_sally :: "int option"
  a_port :: "int option"

definition nonzero :: "'a::zero option \<Rightarrow> bool" where
  "nonzero x = (x \<noteq> None \<and> x \<noteq> Some 0)"

definition nonempty :: "string option \<Rightarrow> bool" where
  "nonempty x = (x \<noteq> None \<and> x \<noteq> Some [])"

definition num_or :: "'a::zero \<Rightarrow> 'a option \<Rightarrow> 'a" where
  "num_or old x = (case x of None \<Rightarrow> old | Some v \<Rightarrow> if v = 0 then old else v)"

text \<open>The arguments change the configuration. The flag \<open>-D\<close> puts \<open>True\<close> in the place of a path; it is kept as its text.\<close>

definition apply_args :: "smts_args \<Rightarrow> config \<Rightarrow> config" where
  "apply_args a c = c\<lparr>
     c_db_path := (if nonempty (a_db_path a) then a_db_path a else c_db_path c),
     c_partition_timeout := (if \<not> a_partitioning a then None
        else if nonzero (a_partition_timeout a) then a_partition_timeout a else c_partition_timeout c),
     c_node_timeout := (if nonzero (a_node_timeout a) then a_node_timeout a else c_node_timeout c),
     c_printFilename := (a_print_filename a \<or> c_printFilename c),
     c_printRuntime := (a_print_runtime a \<or> c_printRuntime c),
     c_enableLog := (a_log_mode a \<or> c_enableLog c),
     c_gui := (a_gui a \<or> c_gui c),
     c_lemma_db_path := (if a_lemma_db a then Some ''True'' else c_lemma_db_path c),
     c_lemma_resend := (a_lemma_resend a \<or> c_lemma_resend c),
     c_opensmt := num_or (c_opensmt c) (a_opensmt a),
     c_z3spacer := num_or (c_z3spacer c) (a_z3spacer a),
     c_sally := num_or (c_sally c) (a_sally a)\<rparr>"

text \<open>What is started, in the order of the code; what runs in a thread of its own or as a process is one step.\<close>

datatype boot = OpenDb "string option" | ShowSettings | ListenOn int | LogError string | InstallGui
  | StartGui "string list" | RunProgram "string list" | SubmitFiles string int

text \<open>\<open>run_lemma_server\<close> and \<open>run_solvers\<close>: the command lines.\<close>

definition lemma_server_args :: "string \<Rightarrow> string option \<Rightarrow> bool \<Rightarrow> int \<Rightarrow> string list" where
  "lemma_server_args lemma_server db send_again prt =
     [lemma_server, ''-s'', ''127.0.0.1:'' @ show_int prt] @ [''-p'', show_int (prt + 2000)]
     @ (case db of None \<Rightarrow> [] | Some d \<Rightarrow> if d = [] then []
          else [''-d'', path_text (path_div (path_parent (path_of d)) (path_stem (path_of d) @ ''.lemma.db''))])
     @ (if send_again then [''-a''] else [])"

definition solver_args :: "(string \<times> int \<times> int) list \<Rightarrow> string list list" where
  "solver_args solvers = concat (map (\<lambda>(path, n, prt). replicate (nat n) [path, ''-s127.0.0.1:'' @ show_int prt]) solvers)"

definition server_port :: "smts_args \<Rightarrow> config \<Rightarrow> int" where
  "server_port a c = num_or (c_port c) (a_port a)"

definition lemma_boot :: "smts_args \<Rightarrow> config \<Rightarrow> boot list" where
  "lemma_boot a c = (if a_lemma_sharing a
     then [RunProgram (lemma_server_args (c_build_path c @ ''/lemma_server'')
        (if nonempty (c_lemma_db_path c) then c_db_path c else None) (c_lemma_resend c) (server_port a c))] else [])"

definition solver_boot :: "smts_args \<Rightarrow> config \<Rightarrow> boot list" where
  "solver_boot a c = (if c_opensmt c \<noteq> 0 \<or> c_z3spacer c \<noteq> 0 \<or> c_sally c \<noteq> 0
     then map RunProgram (solver_args [(c_build_path c @ ''/solver_opensmt'', c_opensmt c, server_port a c),
        (c_build_path c @ ''/solver_z3spacer'', c_z3spacer c, server_port a c),
        (c_build_path c @ ''/solver_sally'', c_sally c, server_port a c)]) else [])"

definition file_boot :: "smts_args \<Rightarrow> config \<Rightarrow> boot list" where
  "file_boot a c = (case a_file_paths a of None \<Rightarrow> [] | Some fs \<Rightarrow> if fs = [] then [] else [SubmitFiles fs (server_port a c)])"

text \<open>The main part: the steps, and the exit code when it ends before the loop of the server.\<close>

definition smts_main :: "smts_args \<Rightarrow> config \<Rightarrow> boot list \<times> int option" where
  "smts_main a c0 = (let c = apply_args a c0; prt = server_port a c; s0 = [OpenDb (c_db_path c)] in
     if a_list a then (s0 @ (if c_enableLog c then [ShowSettings] else []), Some 0)
     else if c_gui c \<and> \<not> nonempty (c_db_path c)
     then (s0 @ [ListenOn prt, LogError ''GUI requires a database. please specify one with -d''], Some (- 1))
     else (s0 @ [ListenOn prt] @ (if c_gui c then [InstallGui, StartGui [''-s'', show_int prt]] else [])
       @ lemma_boot a c @ solver_boot a c @ file_boot a c, None))"

section \<open>Submitting a file\<close>

text \<open>Reading a file as text, decoded by the locale, or as the text of a compressed file.\<close>

record file_env =
  fe_text :: "string \<Rightarrow> exc + string"
  fe_bz2 :: "string \<Rightarrow> exc + string"

text \<open>\<open>send_file\<close>: the name of the instance and the content.\<close>

definition submission :: "file_env \<Rightarrow> string \<Rightarrow> exc + (string \<times> string)" where
  "submission e path = (let p = path_of path in
     if path_suffix p = ''.bz2'' then map_sum id (\<lambda>t. (path_stem (path_of (path_stem p)), t)) (fe_bz2 e (path_text p))
     else map_sum id (\<lambda>t. (path_name p, universal_newlines t)) (fe_text e (path_text p)))"

text \<open>The state of a client: what it sent, the lines of its input, what it can receive and what it printed.\<close>

record client =
  cl_sent :: bytes
  cl_writes :: nat
  cl_recv :: "arrival list"
  cl_out :: "string list"
  cl_err :: "string list"

record client_env =
  ce_files :: file_env
  ce_connect :: "string \<Rightarrow> int \<Rightarrow> exc option"
  ce_fails :: "nat \<Rightarrow> exc option"
  ce_message :: "exc \<Rightarrow> string"

definition client_write :: "client_env \<Rightarrow> pyval dict \<Rightarrow> pyval \<Rightarrow> (client, unit) prog" where
  "client_write e h payload = bindM (ofE (frame h payload)) (\<lambda>(n, d). bindM (getM cl_writes) (\<lambda>k.
     seqM (modM (\<lambda>s. s\<lparr>cl_writes := Suc k\<rparr>))
     (case ce_fails e k of Some x \<Rightarrow> raiseM x | None \<Rightarrow> modM (\<lambda>s. s\<lparr>cl_sent := cl_sent s @ n @ d\<rparr>))))"

definition send_file :: "client_env \<Rightarrow> string \<Rightarrow> (client, unit) prog" where
  "send_file e path = bindM (ofE (submission (ce_files e) path)) (\<lambda>(name, content).
     client_write e [(''command'', VStr ''solve''), (''name'', VStr name)] (VStr content))"

text \<open>\<open>send_files\<close>, in a thread of the server: a file that fails is left out.\<close>

definition send_files :: "client_env \<Rightarrow> string \<Rightarrow> string \<Rightarrow> int \<Rightarrow> (client, unit) prog" where
  "send_files e files host prt = (case ce_connect e host prt of Some x \<Rightarrow> raiseM x
     | None \<Rightarrow> forM (\<lambda>p. tryM any_exc (send_file e p) (\<lambda>_. retM ())) (split_on CHR '','' files))"

section \<open>The client\<close>

text \<open>\<open>host:port\<close>, or a port of this machine; \<open>int\<close> and \<open>strip\<close> are those of \<open>Dummy\<close>.\<close>

definition port_of :: "string \<Rightarrow> string \<Rightarrow> (string \<times> int) option" where
  "port_of host s = (case py_int s of Inl _ \<Rightarrow> None | Inr n \<Rightarrow> Some (host, n))"

definition client_address :: "string \<Rightarrow> (string \<times> int) option" where
  "client_address host_port = (case split_once CHR '':'' host_port of
       None \<Rightarrow> port_of ''127.0.0.1'' host_port
     | Some (host, prt) \<Rightarrow> port_of host prt)"

definition complain :: "string \<Rightarrow> (client, unit) prog" where
  "complain t = modM (\<lambda>s. s\<lparr>cl_err := cl_err s @ [t]\<rparr>)"

definition client_read :: "(client, string dict \<times> bytes) prog" where
  "client_read s = (case sock_read (cl_recv s) of None \<Rightarrow> None | Some (r, ars) \<Rightarrow> Some (r, s\<lparr>cl_recv := ars\<rparr>))"

text \<open>The lines of the input, to be evaluated by the server; the prompt and the history of a terminal are left out.\<close>

primrec client_lines :: "client_env \<Rightarrow> string list \<Rightarrow> (client, unit) prog" where
  "client_lines e [] = modM (\<lambda>s. s\<lparr>cl_out := cl_out s @ [[]]\<rparr>)"
| "client_lines e (l # ls) = seqM (client_write e [(''eval'', VStr (strip l))] (VStr []))
     (bindM client_read (\<lambda>(header, message). bindM (ofE (decode message)) (\<lambda>t.
       seqM (modM (\<lambda>s. s\<lparr>cl_out := cl_out s @ [t]\<rparr>)) (client_lines e ls))))"

record client_args =
  ca_host_port :: string
  ca_files :: "string list"
  ca_terminate :: bool

definition client_work :: "client_env \<Rightarrow> client_args \<Rightarrow> string list \<Rightarrow> (client, unit) prog" where
  "client_work e a input =
     (if ca_terminate a then client_write e [(''command'', VStr ''terminate'')] (VInt 0)
      else if ca_files a \<noteq> [] then forM (\<lambda>p. tryM (\<lambda>x. x = FileNotFoundError) (send_file e p)
          (\<lambda>_. complain (''File not found: '' @ p))) (ca_files a)
      else client_lines e input)"

text \<open>\<open>ConnectionAborted\<close> stands for every \<open>ConnectionError\<close>.\<close>

definition client_main :: "client_env \<Rightarrow> client_args \<Rightarrow> string list \<Rightarrow> (client, unit) prog" where
  "client_main e a input = (case client_address (ca_host_port a) of
       None \<Rightarrow> seqM (complain ''invalid host:port'') (raiseM SystemExit)
     | Some (host, prt) \<Rightarrow> tryM (\<lambda>x. x = ConnectionAborted)
         (case ce_connect e host prt of Some x \<Rightarrow> raiseM x | None \<Rightarrow> client_work e a input)
         (\<lambda>x. seqM (complain (ce_message e x)) (raiseM SystemExit)))"

section \<open>The dummy solver\<close>

text \<open>\<open>solve\<close> for two random numbers between 0 and 1: the report and the seconds before it, or \<open>None\<close> when the process sleeps
  for ever.\<close>

definition dummy_solve :: "rat \<Rightarrow> rat \<Rightarrow> rat \<Rightarrow> rat \<Rightarrow> rat \<Rightarrow> rat \<Rightarrow> (string \<times> rat) option" where
  "dummy_solve r u w_sat w_unsat w_timeout max_delay = (let x = r * (w_sat + w_unsat + w_timeout) in
     if x < w_sat then Some (''sat'', max_delay * u)
     else if x < w_sat + w_unsat then Some (''unsat'', max_delay * u)
     else None)"

text \<open>The main part: the target of each process is the value of the call, so that the solver runs in the main process until
  its connection ends, once after the other; the processes do nothing.\<close>

datatype dummy_step = RunSolver string int | EmptyProcess | PauseMain

definition dummy_main :: "string option \<Rightarrow> int \<Rightarrow> exc + dummy_step list" where
  "dummy_main host_port n = (case host_port of None \<Rightarrow> Inl AttributeError
     | Some hp \<Rightarrow> (case split_once CHR '':'' hp of None \<Rightarrow> Inl SystemExit
         | Some (host, prt) \<Rightarrow> (case port_of host prt of None \<Rightarrow> Inl SystemExit
             | Some (_, p) \<Rightarrow> Inr (concat (replicate (nat n) [RunSolver host p, EmptyProcess]) @ [PauseMain]))))"

section \<open>The host file\<close>

definition contains :: "string \<Rightarrow> string \<Rightarrow> bool" where
  "contains x s = list_ex (\<lambda>i. take (length x) (drop i s) = x) [0..<Suc (length s)]"

definition combined_hosts :: "(string \<times> string) list \<Rightarrow> string" where
  "combined_hosts files = concat (map snd (filter (\<lambda>(name, _). contains ''hostfile'' name) files))"

end
