(* ===== verification/Spec2Isabelle.thy ===== *)
theory Spec2Isabelle
  imports Prelude PyText Net Constants SmtJson SmtJsonPasses SmtJsonSpec Tree TreeFacts TreeStatus SmtScript TreeSpec TreeTotal
    Fixedpoint Config ConfigSpec Dot VTree World Solver Scheduler ServerLoop WorldInv ServerInv SchedInv LoopInv
    ServerSpec ReportSpec MoveSpec Session
    Dummy DummySpec FinishSpec Plots PlotsSpec Files FilesSpec Startup StartupSpec
begin

text \<open>
  SMTS is a parallel solver: a server (\<open>server/smts.py\<close>) takes SMT, MCMT and fixedpoint instances from
  clients, splits them into a tree of partitions and gives the nodes of the tree to solver processes,
  which report statuses and new partitions over sockets; an optional lemma server passes lemmas
  between the solvers. This development models the Python side, that is \<open>server/\<close> and the bundled
  package \<open>graphviz/\<close> that the server draws with, and proves what makes it correct.

  \<^bold>\<open>Reading the model.\<close> A method of the source is a program (\<open>Prelude.prog\<close>): a function of the state
  that returns the new state with a value (\<open>Inr\<close>) or a raised exception (\<open>Inl\<close>), or that does not return
  (\<open>None\<close>). \<open>bindM\<close>, \<open>forM\<close>, \<open>whileM\<close>, \<open>tryM\<close> are Python's sequencing, \<open>for\<close>, \<open>while\<close> and
  \<open>try\<close>; a raise keeps the changes made before it. Loops that may run forever are \<open>partial_function\<close>s, so
  that a theorem which says that something returns says so. Texts are lists of UTF-8 bytes
  (\<open>PyText\<close>), dictionaries association lists in insertion order, times rationals.

  \<^bold>\<open>The parts.\<close>
  \<^item> \<open>Net\<close>: \<open>Socket.write\<close> and \<open>Socket.read\<close> of \<open>server/net.py\<close>, a length-prefixed header and payload on a
    byte stream that arrives in chunks, ends, fails or stays open; a \<open>recv\<close> for which nothing arrives does not return. \<open>Constants\<close>: \<open>server/constant.py\<close>.
  \<^item> \<open>Tree\<close>, \<open>Fixedpoint\<close>: \<open>server/framework.py\<close>. Node objects live in a heap, for they are shared
    between the tree, the instances and the solvers; \<open>AndNode\<close>s and \<open>OrNode\<close>s alternate below a root.
    \<open>TreeFacts\<close>, \<open>TreeStatus\<close>, \<open>TreeTotal\<close> are the library of lemmas on heaps, statuses and loops,
    \<open>SmtScript\<close> what the scripts of \<open>SMT.to_string\<close> do to an assertion stack.
  \<^item> \<open>Config\<close>: \<open>server/config/\<close>, the defaults and \<open>entrust\<close>, which \<open>ConfigSpec\<close> shows to give a solver its own
    parameters. \<open>SmtJson\<close>: \<open>smt2json\<close> and \<open>json2smt\<close> of
    \<open>server/utils.py\<close>, with each substitution a function on the text.
  \<^item> \<open>World\<close> is the state of the running server: tree heap, socket objects, instances, the fields of
    \<open>ParallelizationServer\<close>, what was sent and printed. \<open>Solver\<close>, \<open>Scheduler\<close>, \<open>ServerLoop\<close> are
    \<open>server/schedular.py\<close> with the loop of \<open>net.Server\<close>: the messages to the solvers and what is read
    from them, \<open>entrust\<close> (closing an instance, starting the next, moving solvers in the tree), the
    handlers and the loop's turns.
  \<^item> \<open>Dot\<close>, \<open>VTree\<close>: \<open>graphviz/lang.py\<close>, \<open>graphviz/dot.py\<close> and the drawing of the partition tree.
    \<open>Files\<close>: \<open>graphviz/files.py\<close> and \<open>graphviz/backend.py\<close>, the attributes of a file object, saving, and the runs
    of the layout programs on a file system that is a dictionary.
  \<^item> \<open>Dummy\<close>: \<open>server/dummy_solver.py\<close>, the solver that answers at random, with a job process that may end
    between any two messages.
  \<^item> \<open>Plots\<close>: \<open>server/sql2times.py\<close>, \<open>server/mk_scatter.py\<close> and \<open>server/mk_cactus.py\<close>, from the rows of the
    history table to the text for gnuplot.
  \<^item> \<open>Startup\<close>: configuration files (\<open>extend\<close>), the arguments of \<open>server/smts.py\<close> and what it starts,
    \<open>send_file\<close> of \<open>server/utils.py\<close> and \<open>server/client.py\<close>.

  \<^bold>\<open>The lemmas.\<close> \<open>WorldInv\<close>, \<open>ServerInv\<close>, \<open>SchedInv\<close> and \<open>LoopInv\<close> show, with the rules
  collected in \<open>keeps_intro\<close>, \<open>good_rules\<close> and \<open>learn_rules\<close>, that every operation keeps the references of
  the state consistent (\<open>world_wf\<close>) and, with partitioning off, returns, as long as clients do not stall in the middle of a message and the
  expressions that they have evaluated end. \<open>ServerSpec\<close> states this for every
  state that the loop reaches, through the locales \<open>reactive\<close> and \<open>live_reactive\<close>; \<open>TreeSpec\<close> has
  the locale \<open>addressing\<close> and the properties of the tree, \<open>ReportSpec\<close> those of the handlers, \<open>MoveSpec\<close> and
  \<open>FinishSpec\<close> those of the scheduler's rounds. \<open>Session\<close> relates what the server believes of a solver to the commands it
  sent, \<open>DummySpec\<close> reads these commands off the wire with the dummy solver and feeds its answers back. \<open>SmtJsonPasses\<close> and \<open>SmtJsonSpec\<close> follow a
  printed script through the substitutions of \<open>smt2json\<close>, as a stream of tokens that each of them writes in another way, up to the
  decoder. \<open>PlotsSpec\<close>, \<open>FilesSpec\<close> and \<open>StartupSpec\<close> are about the programs around the server; the last one joins start-up and loop, and a
  client's file and the handler that makes an instance of it.

  \<^bold>\<open>Bounds.\<close> No fuel is used for the server's loops: \<open>whileM\<close> gives \<open>None\<close> when the loop does not end, and the theorems
  on termination say when that is. \<open>run_forever\<close> is given the results of \<open>select\<close> of a finite number of turns, of any length.
  A length on the wire is 32 bits wide and a length in a header 8 bits, as words. The decoder of \<open>SmtJson\<close> has the length of its text as
  fuel, and each nested value consumes a character.

  \<^bold>\<open>Given from outside.\<close> The record \<open>env\<close> holds what the operating system contributes: the clock, failing
  sends, addresses and numbers of sockets, texts of tracebacks, \<open>str\<close> of floats, \<open>eval\<close>, the viewer. An evaluation may raise
  or not end; that it leaves the server's state alone is an assumption on the expressions that clients send (any code can be
  sent), and so is that a \<open>send\<close> raises or returns and does not block on a client that reads nothing. The results of
  \<open>select\<close>, with what arrives at each socket from then on, are an argument of the loop. The order of a Python \<open>set\<close> is the order of the list that
  stands for it. Random seeds are a parameter of \<open>Config\<close>. The record \<open>gv_env\<close> of \<open>Files\<close> holds programs, codecs and
  failures of the file system, \<open>plot_env\<close> of \<open>Plots\<close> the reading and printing of floats (what is read off a text is a rational, exact for the integers up to
  \<open>2^53\<close>), \<open>module_env\<close> and \<open>client_env\<close> of \<open>Startup\<close> the
  configuration files that are run, the files that are read and failing connections.

  \<^bold>\<open>Not modelled.\<close> The solvers and the lemma server (C++) are outside; so are the parsing of command lines by
  \<open>argparse\<close>, threads (what a thread does is modelled where it is code of \<open>server/\<close>, as \<open>send_files\<close>), the pipes of \<open>run_log\<close>,
  the web interface that \<open>gui_start\<close> runs, the temporary directory, the prompt and history of the client's terminal, the logger of
  \<open>graphviz/\<close> and the start-up flags of Windows. Paths are those of POSIX. The
  recursion limit of the interpreter is left out, which bounds the nesting of what \<open>smt2json\<close> reads and the depth of the tree.
\<close>

end
